(* ===== verification/Prelude.thy ===== *)
theory Prelude
  imports
    Main
    "HOL-Library.Word"
    "HOL-Library.Char_ord"
    "HOL-Library.List_Lexorder"
    "HOL-Library.Signed_Division"
    "HOL-Library.Multiset"
begin

text \<open>
  Shared foundations of the development: Go's results (a value, an error, a panic), computations
  over a state that return such results, pointers as options, 32-bit integers, and the generic
  lemmas the component theories use.
\<close>

section \<open>Collections of facts\<close>

named_theorems comp_defs \<open>definitions of the computation combinators\<close>
named_theorems int32_simps \<open>reading 32-bit comparisons and steps through the signed value\<close>

section \<open>Results and computations\<close>

text \<open>
  An \<open>error\<close> value of Go: the API machinery's errors are told apart by \<open>apierrors.IsNotFound\<close>,
  and every error has a text. Errors of the API server arrive from outside the program, so the
  text is carried as it is.
\<close>

datatype error = NotFoundError string | OtherError string

primrec Error :: "error \<Rightarrow> string" where
  "Error (NotFoundError t) = t"
| "Error (OtherError t) = t"

primrec IsNotFound :: "error \<Rightarrow> bool" where
  "IsNotFound (NotFoundError t) = True"
| "IsNotFound (OtherError t) = False"

text \<open>
  The result of a call: a value, an error return, or a panic (a nil dereference, an index out of
  range, a slice made with a negative capacity).
\<close>

datatype 'a go = Ok 'a | Err error | Panic

named_theorems appends_rules

lemma map_go_Ok: "map_go f r = Ok y \<longleftrightarrow> (\<exists>x. r = Ok x \<and> y = f x)"
  by (cases r) auto

lemma map_go_failed [simp]: "map_go f r = Err e \<longleftrightarrow> r = Err e" "map_go f r = Panic \<longleftrightarrow> r = Panic"
  by (cases r; simp)+

type_synonym ('s, 'a) comp = "'s \<Rightarrow> 'a go \<times> 's"

definition ret :: "'a \<Rightarrow> ('s, 'a) comp" where
  [comp_defs]: "ret a = (\<lambda>s. (Ok a, s))"

definition lift_go :: "'a go \<Rightarrow> ('s, 'a) comp" where
  [comp_defs]: "lift_go r = (\<lambda>s. (r, s))"

text \<open>\<open>andThen m f\<close>: the early return \<open>if err != nil { return err }\<close> after \<open>m\<close>.\<close>

definition andThen :: "('s, 'a) comp \<Rightarrow> ('a \<Rightarrow> ('s, 'b) comp) \<Rightarrow> ('s, 'b) comp" where
  [comp_defs]: "andThen m f = (\<lambda>s. case m s of
       (Ok a, t) \<Rightarrow> f a t
     | (Err e, t) \<Rightarrow> (Err e, t)
     | (Panic, t) \<Rightarrow> (Panic, t))"

text \<open>\<open>onErr m h f\<close>: \<open>if err != nil { return h(err) }\<close> after \<open>m\<close>, with its own handler.\<close>

definition onErr ::
  "('s, 'a) comp \<Rightarrow> (error \<Rightarrow> ('s, 'b) comp) \<Rightarrow> ('a \<Rightarrow> ('s, 'b) comp) \<Rightarrow> ('s, 'b) comp" where
  [comp_defs]: "onErr m h f = (\<lambda>s. case m s of
       (Ok a, t) \<Rightarrow> f a t
     | (Err e, t) \<Rightarrow> h e t
     | (Panic, t) \<Rightarrow> (Panic, t))"

lemma andThen_ret [simp]: "andThen (ret a) f = f a"
  by (simp add: comp_defs)

lemma andThen_lift_Ok [simp]: "andThen (lift_go (Ok a)) f = f a"
  by (simp add: comp_defs)

lemma onErr_ret [simp]: "onErr (ret a) h f = f a"
  by (simp add: comp_defs)

lemma andThen_Ok: "m s = (Ok a, t) \<Longrightarrow> andThen m f s = f a t"
  by (simp add: comp_defs)

lemma onErr_Ok: "m s = (Ok a, t) \<Longrightarrow> onErr m h f s = f a t"
  by (simp add: comp_defs)

lemma onErr_Err: "m s = (Err e, t) \<Longrightarrow> onErr m h f s = h e t"
  by (simp add: comp_defs)

text \<open>A property of every way out of a computation, result and final state.\<close>

definition always :: "('s, 'a) comp \<Rightarrow> ('s \<Rightarrow> bool) \<Rightarrow> ('a go \<Rightarrow> 's \<Rightarrow> bool) \<Rightarrow> bool" where
  "always m P Q \<longleftrightarrow> (\<forall>s r t. P s \<longrightarrow> m s = (r, t) \<longrightarrow> Q r t)"

lemma alwaysI: "(\<And>s r t. P s \<Longrightarrow> m s = (r, t) \<Longrightarrow> Q r t) \<Longrightarrow> always m P Q"
  by (simp add: always_def)

lemma alwaysD: "always m P Q \<Longrightarrow> P s \<Longrightarrow> m s = (r, t) \<Longrightarrow> Q r t"
  by (simp add: always_def)

lemma always_weaken:
  "always m P Q \<Longrightarrow> (\<And>s. P' s \<Longrightarrow> P s) \<Longrightarrow> (\<And>r t. Q r t \<Longrightarrow> Q' r t) \<Longrightarrow> always m P' Q'"
  unfolding always_def by blast

lemma always_conj:
  "always m P Q \<Longrightarrow> always m P' Q' \<Longrightarrow> always m (\<lambda>s. P s \<and> P' s) (\<lambda>r t. Q r t \<and> Q' r t)"
  unfolding always_def by blast

lemma always_ret: "(\<And>s. P s \<Longrightarrow> Q (Ok a) s) \<Longrightarrow> always (ret a) P Q"
  by (auto simp: always_def comp_defs)

lemma always_lift_go: "(\<And>s. P s \<Longrightarrow> Q r s) \<Longrightarrow> always (lift_go r) P Q"
  by (auto simp: always_def comp_defs)

lemma always_andThen:
  assumes "always m P (\<lambda>r t. case r of Ok a \<Rightarrow> I a t | Err e \<Rightarrow> Q (Err e) t | Panic \<Rightarrow> Q Panic t)"
    and "\<And>a. always (f a) (I a) Q"
  shows "always (andThen m f) P Q"
proof (rule alwaysI)
  fix s r t
  assume P: "P s" and run: "andThen m f s = (r, t)"
  obtain r1 t1 where m: "m s = (r1, t1)" by fastforce
  from alwaysD [OF assms(1) P m] run m assms(2) show "Q r t"
    by (cases r1) (auto simp: comp_defs dest: alwaysD)
qed

lemma always_onErr:
  assumes "always m P (\<lambda>r t. case r of Ok a \<Rightarrow> I a t | Err e \<Rightarrow> H e t | Panic \<Rightarrow> Q Panic t)"
    and "\<And>e. always (h e) (H e) Q"
    and "\<And>a. always (f a) (I a) Q"
  shows "always (onErr m h f) P Q"
proof (rule alwaysI)
  fix s r t
  assume P: "P s" and run: "onErr m h f s = (r, t)"
  obtain r1 t1 where m: "m s = (r1, t1)" by fastforce
  from alwaysD [OF assms(1) P m] run m assms(2,3) show "Q r t"
    by (cases r1) (auto simp: comp_defs dest: alwaysD)
qed

lemma always_assume: "(R \<Longrightarrow> always m P Q) \<Longrightarrow> always m (\<lambda>s. P s \<and> R) Q"
  by (auto simp: always_def)

lemma always_post: "always m P Q \<Longrightarrow> (\<And>r t. Q r t \<Longrightarrow> Q' r t) \<Longrightarrow> always m P Q'"
  by (auto simp: always_def)

lemma always_pre: "always m P Q \<Longrightarrow> (\<And>s. P' s \<Longrightarrow> P s) \<Longrightarrow> always m P' Q"
  by (auto simp: always_def)

lemma always_if:
  "(b \<Longrightarrow> always m P Q) \<Longrightarrow> (\<not> b \<Longrightarrow> always n P Q) \<Longrightarrow> always (if b then m else n) P Q"
  by simp

section \<open>Pointers\<close>

text \<open>A Go pointer that is only ever read is an option; \<open>nil\<close> is \<open>None\<close> and reading it panics.\<close>

definition deref :: "'a option \<Rightarrow> 'a go" where
  "deref p = (case p of None \<Rightarrow> Panic | Some v \<Rightarrow> Ok v)"

lemma deref_simps [simp]: "deref None = Panic" "deref (Some v) = Ok v"
  by (simp_all add: deref_def)

section \<open>32-bit integers\<close>

text \<open>
  \<open>int32\<close> is a 32-bit word read through \<^const>\<open>sint\<close>; its comparisons are \<open><s\<close> and \<open>\<le>s\<close>.
\<close>

type_synonym int32 = "32 word"

lemmas int32_less [int32_simps] = word_sless_alt
lemmas int32_le [int32_simps] = word_sle_eq

lemma sint32_bounds: "- 2147483648 \<le> sint (x :: int32)" "sint (x :: int32) \<le> 2147483647"
  using sint_ge [of x] sint_lt [of x] by simp_all

lemma sint32_of_int:
  "- 2147483648 \<le> z \<Longrightarrow> z \<le> 2147483647 \<Longrightarrow> sint (word_of_int z :: int32) = z"
  by (simp add: sint_sbintrunc' signed_take_bit_int_eq_self)

lemma sint32_add1: "sint (x :: int32) < 2147483647 \<Longrightarrow> sint (x + 1) = sint x + 1"
  using sint32_bounds [of x] by (simp add: sint_word_add signed_take_bit_int_eq_self)

lemma sint32_sub1: "- 2147483648 < sint (x :: int32) \<Longrightarrow> sint (x - 1) = sint x - 1"
  using sint32_bounds [of x] by (simp add: sint_word_diff signed_take_bit_int_eq_self)

lemma int32_less_add1: "(i :: int32) <s n \<Longrightarrow> sint (i + 1) = sint i + 1"
  using sint32_bounds [of n] by (intro sint32_add1) (simp add: int32_simps)

section \<open>Lists\<close>

lemma sort_perm_eq: "mset xs = mset ys \<Longrightarrow> sort xs = sort (ys :: 'a :: linorder list)"
  by (rule properties_for_sort) simp_all

lemma sort_eq_Nil [simp]: "sort xs = [] \<longleftrightarrow> xs = ([] :: 'a :: linorder list)"
  by (metis set_empty set_sort)

lemma list_all_concat: "list_all P (concat xss) \<longleftrightarrow> list_all (list_all P) xss"
  by (induction xss) auto

end
