(* ===== verification/GoStd.thy ===== *)
theory GoStd
  imports Prelude
begin

text \<open>
  The pieces of Go's standard library the program computes with: \<open>strconv.Itoa\<close> (and the \<open>%d\<close>
  verb), \<open>strconv.ParseInt\<close> on decimal text, \<open>hash/fnv.New32a\<close> and the truncating remainder.
  Strings are lists of bytes.
\<close>

unbundle bit_operations_syntax

section \<open>Decimal text\<close>

definition digit_char :: "nat \<Rightarrow> char" where
  "digit_char d = char_of (48 + d)"

definition is_digit :: "char \<Rightarrow> bool" where
  "is_digit c \<longleftrightarrow> 48 \<le> (of_char c :: nat) \<and> (of_char c :: nat) \<le> 57"

definition digit_val :: "char \<Rightarrow> nat" where
  "digit_val c = of_char c - 48"

fun nat_text :: "nat \<Rightarrow> string" where
  "nat_text n = (if n < 10 then [digit_char n] else nat_text (n div 10) @ [digit_char (n mod 10)])"

declare nat_text.simps [simp del]

text \<open>\<open>strconv.Itoa\<close>, and \<open>fmt.Sprintf("%d", \<dots>)\<close>.\<close>

definition Itoa :: "int \<Rightarrow> string" where
  "Itoa z = (if z < 0 then CHR ''-'' # nat_text (nat (- z)) else nat_text (nat z))"

definition nat_of_text :: "string \<Rightarrow> nat" where
  "nat_of_text s = foldl (\<lambda>a c. 10 * a + digit_val c) 0 s"

text \<open>
  \<open>strconv.ParseInt(s, 10, bits)\<close>: an optional sign, at least one digit, only digits, and a value
  in the range of a signed integer of that width.
\<close>

definition ParseInt :: "nat \<Rightarrow> string \<Rightarrow> int option" where
  "ParseInt bits s =
     (let (neg, ds) = (case s of
            c # r \<Rightarrow> if c = CHR ''-'' then (True, r) else if c = CHR ''+'' then (False, r) else (False, s)
          | [] \<Rightarrow> (False, s))
      in if ds = [] \<or> \<not> list_all is_digit ds then None
         else let z = (if neg then - int (nat_of_text ds) else int (nat_of_text ds))
              in if - (2 ^ (bits - 1)) \<le> z \<and> z < 2 ^ (bits - 1) then Some z else None)"

lemma digit_char_props [simp]:
  "d < 10 \<Longrightarrow> is_digit (digit_char d)" "d < 10 \<Longrightarrow> digit_val (digit_char d) = d"
  by (simp_all add: digit_char_def is_digit_def digit_val_def)

lemma nat_text_digits: "list_all is_digit (nat_text n)"
proof (induction n rule: nat_text.induct)
  case (1 n)
  then show ?case by (cases "n < 10") (simp_all add: nat_text.simps [of n])
qed

lemma nat_text_nonempty [simp]: "nat_text n \<noteq> []"
  by (simp add: nat_text.simps [of n])

lemma nat_of_text_append: "nat_of_text (s @ [c]) = 10 * nat_of_text s + digit_val c"
  by (simp add: nat_of_text_def)

lemma nat_of_text_of_nat [simp]: "nat_of_text (nat_text n) = n"
proof (induction n rule: nat_text.induct)
  case (1 n)
  show ?case
  proof (cases "n < 10")
    case True
    then show ?thesis by (simp add: nat_text.simps [of n] nat_of_text_def)
  next
    case False
    with 1 show ?thesis by (simp add: nat_text.simps [of n] nat_of_text_append)
  qed
qed

text \<open>The first digit is zero only for zero itself: decimal text is canonical.\<close>

lemma nat_text_hd: "0 < n \<Longrightarrow> \<exists>d. 0 < d \<and> d < 10 \<and> hd (nat_text n) = digit_char d"
proof (induction n rule: nat_text.induct)
  case (1 n)
  show ?case
  proof (cases "n < 10")
    case True
    with "1.prems" show ?thesis by (auto simp: nat_text.simps [of n])
  next
    case False
    with 1 show ?thesis by (simp add: nat_text.simps [of n] hd_append)
  qed
qed

lemma nat_text_0 [simp]: "nat_text 0 = ''0''"
  unfolding nat_text.simps [of 0] digit_char_def by code_simp

lemma is_digit_not_sign: "is_digit c \<Longrightarrow> c \<noteq> CHR ''-'' \<and> c \<noteq> CHR ''+''"
  by (auto simp: is_digit_def)

lemma ParseInt_nat_text:
  "int n < 2 ^ (bits - 1) \<Longrightarrow> ParseInt bits (nat_text n) = Some (int n)"
proof -
  assume lt: "int n < 2 ^ (bits - 1)"
  obtain c r where cr: "nat_text n = c # r" by (meson nat_text_nonempty list.exhaust)
  have "is_digit c" using nat_text_digits [of n] by (simp add: cr)
  moreover have "- (2 ^ (bits - 1)) \<le> int n"
    by (rule order_trans [of _ 0]) simp_all
  ultimately show ?thesis
    using lt nat_text_digits [of n] nat_of_text_of_nat [of n]
    by (simp add: ParseInt_def cr is_digit_not_sign)
qed

lemma ParseInt_Itoa:
  assumes "- (2 ^ (bits - 1)) \<le> z" and "z < 2 ^ (bits - 1)"
  shows "ParseInt bits (Itoa z) = Some z"
proof (cases "z < 0")
  case True
  then show ?thesis
    using assms nat_text_digits [of "nat (- z)"] by (simp add: Itoa_def ParseInt_def)
next
  case False
  with assms show ?thesis by (simp add: Itoa_def ParseInt_nat_text)
qed

lemma Itoa_inject: "Itoa a = Itoa b \<Longrightarrow> a = b"
proof -
  assume eq: "Itoa a = Itoa b"
  define k where "k = Suc (nat \<bar>a\<bar> + nat \<bar>b\<bar>)"
  have "\<bar>a\<bar> < int k" "\<bar>b\<bar> < int k" by (simp_all add: k_def)
  moreover have "int k < 2 ^ k" using less_exp [of k] by (metis of_nat_less_iff of_nat_numeral of_nat_power)
  ultimately have bounds: "- (2 ^ k) \<le> a" "a < 2 ^ k" "- (2 ^ k) \<le> b" "b < 2 ^ k"
    by linarith+
  have "ParseInt (Suc k) (Itoa a) = Some a" "ParseInt (Suc k) (Itoa b) = Some b"
    by (rule ParseInt_Itoa; simp only: diff_Suc_1 bounds)+
  with eq show ?thesis by (metis option.inject)
qed

section \<open>The FNV-1a hash\<close>

text \<open>
  \<open>fnv.New32a\<close> starts from the offset basis; \<open>Write\<close> xors each byte into the hash and multiplies
  by the prime, modulo \<open>2 ^ 32\<close>; \<open>Sum32\<close> reads it.
\<close>

definition fnv32a :: "string \<Rightarrow> 32 word" where
  "fnv32a s = foldl (\<lambda>h c. (h XOR of_char c) * 16777619) 2166136261 s"

lemma fnv32a_append: "fnv32a (s @ [c]) = (fnv32a s XOR of_char c) * 16777619"
  by (simp add: fnv32a_def)

section \<open>Conversions and remainder\<close>

text \<open>
  \<open>int(x)\<close> of a \<open>uint32\<close> on a platform whose \<open>int\<close> has \<open>bits\<close> bits: two's complement truncation,
  the identity on 64 bits, possibly negative on 32.
\<close>

definition int_of_uint32 :: "nat \<Rightarrow> 32 word \<Rightarrow> int" where
  "int_of_uint32 bits x = signed_take_bit (bits - 1) (uint x)"

lemma int_of_uint32_64: "int_of_uint32 64 x = uint x"
proof -
  have "uint x < 2 ^ 32" "0 \<le> uint x" using uint_lt2p [of x] by simp_all
  then have "signed_take_bit 63 (uint x) = uint x"
    by (intro signed_take_bit_int_eq_self) (simp_all add: order_trans [of _ 0])
  then show ?thesis by (simp add: int_of_uint32_def)
qed

text \<open>Go's \<open>%\<close> truncates towards zero, as \<^const>\<open>signed_modulo\<close> does.\<close>

lemma smod_nonneg: "0 \<le> a \<Longrightarrow> 0 < b \<Longrightarrow> (a :: int) smod b = a mod b"
  by (simp add: signed_modulo_int_def signed_divide_int_def sgn_if minus_div_mult_eq_mod)

lemma smod_neg: "0 \<le> a \<Longrightarrow> 0 < b \<Longrightarrow> (- a :: int) smod b = - (a mod b)"
  by (cases "a = 0") (simp_all add: signed_modulo_int_def signed_divide_int_def sgn_if minus_div_mult_eq_mod [symmetric])

lemma int_of_uint32_32: "int_of_uint32 32 x = (if uint x < 2 ^ 31 then uint x else uint x - 2 ^ 32)"
proof -
  have "uint x < 2 ^ 32" "0 \<le> uint x" using uint_lt2p [of x] by simp_all
  moreover have "signed_take_bit 31 (uint x) = (uint x + 2 ^ 31) mod 2 ^ 32 - 2 ^ 31"
    by (simp add: signed_take_bit_eq_take_bit_shift take_bit_eq_mod)
  moreover have "(uint x + 2 ^ 31) mod 2 ^ 32 = uint x - 2 ^ 31" if "2 ^ 31 \<le> uint x"
  proof -
    have "(uint x + 2 ^ 31) mod 2 ^ 32 = (uint x - 2 ^ 31 + 2 ^ 32) mod 2 ^ 32"
      by (simp add: algebra_simps)
    also have "\<dots> = uint x - 2 ^ 31" unfolding mod_add_self2 using that \<open>uint x < 2 ^ 32\<close> by (intro mod_pos_pos_trivial) simp_all
    finally show ?thesis .
  qed
  ultimately show ?thesis by (auto simp: int_of_uint32_def)
qed

end
