(* ===== verification/GoFloat.thy ===== *)
theory GoFloat
  imports GoStd
begin

text \<open>
  \<open>float64\<close> values as far as the program needs them: what \<open>strconv.ParseFloat(s, 64)\<close> accepts and
  returns, and the comparison \<open><\<close>. A finite value is a sign, a mantissa and a binary exponent; the
  two zeros are equal to every comparison.
\<close>

datatype float64 = NaN | Inf bool | Fin bool nat int

section \<open>Comparison\<close>

text \<open>The integer value of a finite number in units of \<open>2 ^ E\<close>, for \<open>E\<close> at most its exponent.\<close>

definition scaled :: "int \<Rightarrow> bool \<Rightarrow> nat \<Rightarrow> int \<Rightarrow> int" where
  "scaled E neg m e = (if neg then - 1 else 1) * int m * 2 ^ nat (e - E)"

fun flt_less :: "float64 \<Rightarrow> float64 \<Rightarrow> bool" where
  "flt_less NaN _ = False"
| "flt_less _ NaN = False"
| "flt_less (Inf a) (Inf b) = (a \<and> \<not> b)"
| "flt_less (Inf a) (Fin _ _ _) = a"
| "flt_less (Fin _ _ _) (Inf b) = (\<not> b)"
| "flt_less (Fin na ma ea) (Fin nb mb eb) =
     (let E = min ea eb in scaled E na ma ea < scaled E nb mb eb)"

definition flt_of_nat :: "nat \<Rightarrow> float64" where
  "flt_of_nat n = Fin False n 0"

section \<open>Rounding to 53 bits\<close>

fun bit_count :: "nat \<Rightarrow> nat" where
  "bit_count n = (if n = 0 then 0 else Suc (bit_count (n div 2)))"

declare bit_count.simps [simp del]

text \<open>\<open>num / den\<close> in units of \<open>2 ^ e\<close>, as a fraction of naturals.\<close>

definition in_units :: "nat \<Rightarrow> nat \<Rightarrow> int \<Rightarrow> nat \<times> nat" where
  "in_units num den e = (num * 2 ^ nat (- e), den * 2 ^ nat e)"

text \<open>The exponent of the leading bit of \<open>num / den\<close>.\<close>

definition lead_exp :: "nat \<Rightarrow> nat \<Rightarrow> int" where
  "lead_exp num den =
     (let l = int (bit_count num) - int (bit_count den); (a, b) = in_units num den l
      in if b \<le> a then l else l - 1)"

definition round_half_even :: "nat \<Rightarrow> nat \<Rightarrow> nat" where
  "round_half_even a b =
     (let q = a div b; r = a mod b
      in if 2 * r < b \<or> (2 * r = b \<and> even q) then q else q + 1)"

text \<open>
  The nearest \<open>float64\<close>, ties to even, with gradual underflow; \<open>None\<close> where the rounded value
  exceeds the largest finite number (\<open>ErrRange\<close>).
\<close>

definition round_float64 :: "bool \<Rightarrow> nat \<Rightarrow> nat \<Rightarrow> float64 option" where
  "round_float64 neg num den =
     (if num = 0 then Some (Fin neg 0 0)
      else let e = max (lead_exp num den - 52) (- 1074);
               (a, b) = in_units num den e;
               m = round_half_even a b
           in if e \<ge> 0 \<and> m * 2 ^ nat e \<ge> 2 ^ 1024 then None else Some (Fin neg m e))"

section \<open>The syntax of numbers\<close>

definition lower :: "char \<Rightarrow> char" where
  "lower c = (let n = (of_char c :: nat) in if 65 \<le> n \<and> n \<le> 90 then char_of (n + 32) else c)"

definition is_hex_letter :: "char \<Rightarrow> bool" where
  "is_hex_letter c \<longleftrightarrow> 97 \<le> (of_char (lower c) :: nat) \<and> (of_char (lower c) :: nat) \<le> 102"

definition mant_val :: "char \<Rightarrow> nat" where
  "mant_val c = (if is_digit c then digit_val c else of_char (lower c) - 87)"

text \<open>
  \<open>underscoreOK\<close>: an underscore stands between digits, or after a base prefix. The last character
  class seen is \<open>^\<close> at the start, \<open>0\<close> for a digit, \<open>_\<close>, or \<open>!\<close> for anything else.
\<close>

fun underscore_ok :: "bool \<Rightarrow> char \<Rightarrow> string \<Rightarrow> bool" where
  "underscore_ok hex saw [] \<longleftrightarrow> saw \<noteq> CHR ''_''"
| "underscore_ok hex saw (c # cs) \<longleftrightarrow>
     (if is_digit c \<or> (hex \<and> is_hex_letter c) then underscore_ok hex (CHR ''0'') cs
      else if c = CHR ''_'' then saw = CHR ''0'' \<and> underscore_ok hex (CHR ''_'') cs
      else saw \<noteq> CHR ''_'' \<and> underscore_ok hex (CHR ''!'') cs)"

definition underscoreOK :: "string \<Rightarrow> bool" where
  "underscoreOK s =
     (let s = (if s \<noteq> [] \<and> (hd s = CHR ''-'' \<or> hd s = CHR ''+'') then tl s else s)
      in if length s \<ge> 2 \<and> hd s = CHR ''0'' \<and> lower (s ! 1) \<in> {CHR ''b'', CHR ''o'', CHR ''x''}
         then underscore_ok (lower (s ! 1) = CHR ''x'') (CHR ''0'') (drop 2 s)
         else underscore_ok False (CHR ''^'') s)"

text \<open>
  The mantissa loop of \<open>readFloat\<close>: the digits read (their value and how many stand after the
  point), whether a point and a digit were seen, and the rest of the text.
\<close>

fun read_mantissa ::
  "nat \<Rightarrow> nat \<Rightarrow> nat \<Rightarrow> bool \<Rightarrow> bool \<Rightarrow> string \<Rightarrow> nat \<times> nat \<times> bool \<times> string" where
  "read_mantissa base m frac dot digits [] = (m, frac, digits, [])"
| "read_mantissa base m frac dot digits (c # cs) =
     (if c = CHR ''_'' then read_mantissa base m frac dot digits cs
      else if c = CHR ''.'' then
        (if dot then (m, frac, digits, c # cs) else read_mantissa base m frac True digits cs)
      else if is_digit c \<or> (base = 16 \<and> is_hex_letter c) then
        read_mantissa base (base * m + mant_val c) (if dot then frac + 1 else frac) dot True cs
      else (m, frac, digits, c # cs))"

text \<open>The exponent's digits; from 10000 on, further digits do not count.\<close>

fun read_exponent :: "nat \<Rightarrow> string \<Rightarrow> nat \<times> string" where
  "read_exponent e [] = (e, [])"
| "read_exponent e (c # cs) =
     (if c = CHR ''_'' then read_exponent e cs
      else if is_digit c then read_exponent (if e < 10000 then 10 * e + digit_val c else e) cs
      else (e, c # cs))"

text \<open>The optional exponent after the mantissa: its value and the rest, \<open>None\<close> where malformed.\<close>

definition read_exp_part :: "bool \<Rightarrow> string \<Rightarrow> (int \<times> string) option" where
  "read_exp_part hex s =
     (if s \<noteq> [] \<and> lower (hd s) = (if hex then CHR ''p'' else CHR ''e'') then
        (let t = tl s;
             neg = (t \<noteq> [] \<and> hd t = CHR ''-'');
             t = (if t \<noteq> [] \<and> (hd t = CHR ''+'' \<or> hd t = CHR ''-'') then tl t else t)
         in if t = [] \<or> \<not> is_digit (hd t) then None
            else let (e, rest) = read_exponent 0 t in Some (if neg then - int e else int e, rest))
      else if hex then None else Some (0, s))"

text \<open>\<open>special\<close>: infinities and NaN, without regard to case.\<close>

definition special :: "string \<Rightarrow> float64 option" where
  "special s =
     (let l = map lower s in
      if l \<in> {''inf'', ''+inf'', ''infinity'', ''+infinity''} then Some (Inf False)
      else if l \<in> {''-inf'', ''-infinity''} then Some (Inf True)
      else if l = ''nan'' then Some NaN
      else None)"

definition hex_prefix :: "string \<Rightarrow> bool" where
  "hex_prefix t \<longleftrightarrow> length t > 2 \<and> hd t = CHR ''0'' \<and> lower (t ! 1) = CHR ''x''"

definition ParseFloat :: "string \<Rightarrow> float64 option" where
  "ParseFloat s =
     (case special s of
        Some f \<Rightarrow> Some f
      | None \<Rightarrow>
          (let neg = (s \<noteq> [] \<and> hd s = CHR ''-'');
               t = (if s \<noteq> [] \<and> (hd s = CHR ''-'' \<or> hd s = CHR ''+'') then tl s else s);
               hex = hex_prefix t;
               (m, frac, digits, rest) =
                 read_mantissa (if hex then 16 else 10) 0 0 False False (if hex then drop 2 t else t)
           in if \<not> digits then None
              else case read_exp_part hex rest of
                None \<Rightarrow> None
              | Some (e, rest2) \<Rightarrow>
                  if rest2 \<noteq> [] \<or> (CHR ''_'' \<in> set s \<and> \<not> underscoreOK s) then None
                  else if hex then
                    (let x = e - 4 * int frac in round_float64 neg (m * 2 ^ nat x) (2 ^ nat (- x)))
                  else
                    (let x = e - int frac in round_float64 neg (m * 10 ^ nat x) (10 ^ nat (- x)))))"

section \<open>Whole numbers are read exactly\<close>

lemma bit_count_one [simp]: "bit_count (Suc 0) = Suc 0"
  by (simp add: bit_count.simps [of "Suc 0"] bit_count.simps [of 0])

lemma bit_count_bounds: "0 < n \<Longrightarrow> 2 ^ (bit_count n - 1) \<le> n \<and> n < 2 ^ bit_count n \<and> 0 < bit_count n"
proof (induction n rule: bit_count.induct)
  case (1 n)
  show ?case
  proof (cases "n div 2 = 0")
    case True
    with "1.prems" have "n = 1" by simp
    then show ?thesis by simp
  next
    case False
    then have IH: "2 ^ (bit_count (n div 2) - 1) \<le> n div 2" "n div 2 < 2 ^ bit_count (n div 2)"
      "0 < bit_count (n div 2)" using 1 by auto
    define k where "k = bit_count (n div 2) - 1"
    then have k: "bit_count (n div 2) = Suc k" using IH(3) by simp
    have "bit_count n = Suc (Suc k)" using "1.prems" k by (simp add: bit_count.simps [of n])
    with IH k show ?thesis by auto
  qed
qed

lemma lead_exp_nat:
  assumes "0 < n"
  shows "lead_exp n 1 = int (bit_count n) - 1"
proof -
  show ?thesis using bit_count_bounds [OF assms]
    by (simp add: lead_exp_def in_units_def nat_diff_distrib)
qed

lemma round_half_even_exact: "0 < b \<Longrightarrow> round_half_even (a * b) b = a"
  by (simp add: round_half_even_def)

text \<open>A natural number below \<open>2 ^ 53\<close> is a \<open>float64\<close>: rounding keeps its value.\<close>

lemma round_float64_nat:
  assumes "0 < n" "n < 2 ^ 53"
  shows "\<exists>k. round_float64 False n 1 = Some (Fin False (n * 2 ^ k) (- int k))"
proof -
  have bc: "2 ^ (bit_count n - 1) \<le> n" "0 < bit_count n" using bit_count_bounds [OF assms(1)] by auto
  then have "(2 :: nat) ^ (bit_count n - 1) < 2 ^ 53" using assms(2) by linarith
  then have "bit_count n - 1 < 53" by (rule power_less_imp_less_exp [rotated]) simp
  then have "bit_count n \<le> 53" by simp
  then obtain k where k: "53 = bit_count n + k" using le_Suc_ex by blast
  then have "max (lead_exp n 1 - 52) (- 1074) = - int k"
    using lead_exp_nat [OF assms(1)] bc(2) by simp
  moreover have "\<not> 2 ^ 1024 \<le> n" using assms(2) by simp
  ultimately show ?thesis
    using assms(1) round_half_even_exact [of 1 "n * 2 ^ k"]
    by (intro exI [of _ k]) (cases "k = 0"; simp add: round_float64_def in_units_def Let_def)
qed

lemma flt_less_of_nat:
  "flt_less (flt_of_nat a) (Fin False (n * 2 ^ k) (- int k)) \<longleftrightarrow> a < n"
  "flt_less (Fin False (n * 2 ^ k) (- int k)) (flt_of_nat a) \<longleftrightarrow> n < a"
proof -
  have "(x * 2 ^ k < y * (2 :: int) ^ k) = (x < y)" for x y by simp
  then show "flt_less (flt_of_nat a) (Fin False (n * 2 ^ k) (- int k)) \<longleftrightarrow> a < n"
    "flt_less (Fin False (n * 2 ^ k) (- int k)) (flt_of_nat a) \<longleftrightarrow> n < a"
    by (simp_all add: flt_of_nat_def scaled_def Let_def)
qed

lemma digit_not_special: "is_digit c \<Longrightarrow> c \<noteq> CHR ''_'' \<and> c \<noteq> CHR ''.'' \<and> lower c = c"
  by (auto simp: is_digit_def lower_def Let_def)

lemma read_mantissa_digits:
  "list_all is_digit s \<Longrightarrow>
    read_mantissa 10 m 0 False d s = (foldl (\<lambda>a c. 10 * a + digit_val c) m s, 0, d \<or> s \<noteq> [], [])"
  by (induction s arbitrary: m d) (auto simp: mant_val_def digit_not_special)

lemma special_digit: "is_digit c \<Longrightarrow> special (c # s) = None"
proof -
  assume "is_digit c"
  then have "lower c = c" "c \<notin> {CHR ''i'', CHR ''n'', CHR ''+'', CHR ''-''}"
    using digit_not_special by (auto simp: is_digit_def)
  then show ?thesis by (auto simp: special_def)
qed

lemma ParseFloat_digits:
  assumes "s \<noteq> []" "list_all is_digit s"
  shows "ParseFloat s = round_float64 False (nat_of_text s) 1"
proof -
  obtain c r where s: "s = c # r" using assms(1) by (cases s) auto
  have c: "is_digit c" "c \<noteq> CHR ''-''" "c \<noteq> CHR ''+''"
    using assms(2) is_digit_not_sign [of c] by (auto simp: s)
  have nohex: "\<not> hex_prefix s"
  proof (cases r)
    case (Cons d r')
    then have "is_digit d" using assms(2) by (simp add: s)
    then have "lower d \<noteq> CHR ''x''" using digit_not_special [of d] by (auto simp: is_digit_def)
    then show ?thesis by (simp add: hex_prefix_def s Cons)
  qed (simp add: hex_prefix_def s)
  have "CHR ''_'' \<notin> set s" using assms(2) digit_not_special by (auto simp: list_all_iff)
  moreover have "special s = None" "hd s \<noteq> CHR ''-''" "hd s \<noteq> CHR ''+''"
    using special_digit [OF c(1), of r] c by (simp_all add: s)
  ultimately show ?thesis
    using assms(1) nohex read_mantissa_digits [OF assms(2), of 0 False]
    by (simp add: ParseFloat_def read_exp_part_def nat_of_text_def Let_def)
qed

end
