(* ===== verification/Types.thy ===== *)
theory Types
  imports Prelude
begin

text \<open>
  The API types of \<open>api/v1alpha1/llminferencecluster_types.go\<close> (the custom resource, its spec and
  its status) with the validation markers the generated CRD enforces. A pointer field is an option,
  a string type with named constants is a string, a \<open>map[string]string\<close> is a map.
\<close>

section \<open>Named string constants\<close>

type_synonym EvictionPolicy = string
type_synonym WarmCacheMode = string
type_synonym KVCacheStrategy = string
type_synonym RoutingMode = string
type_synonym SignalsSource = string
type_synonym ShardPhase = string

definition EvictionPolicyLRU :: EvictionPolicy where "EvictionPolicyLRU = ''lru''"
definition EvictionPolicyTTL :: EvictionPolicy where "EvictionPolicyTTL = ''ttl''"
definition EvictionPolicyAttentionAwareStub :: EvictionPolicy where
  "EvictionPolicyAttentionAwareStub = ''attentionAwareStub''"

definition WarmCacheNone :: WarmCacheMode where "WarmCacheNone = ''none''"
definition WarmCacheMemory :: WarmCacheMode where "WarmCacheMemory = ''memory''"
definition WarmCacheDiskStub :: WarmCacheMode where "WarmCacheDiskStub = ''diskStub''"

definition KVCacheStrategySharded :: KVCacheStrategy where "KVCacheStrategySharded = ''sharded''"

definition RoutingModeSessionAffinity :: RoutingMode where
  "RoutingModeSessionAffinity = ''sessionAffinity''"

definition SignalsSourceFake :: SignalsSource where "SignalsSourceFake = ''fake''"
definition SignalsSourcePrometheus :: SignalsSource where "SignalsSourcePrometheus = ''prometheus''"

definition ShardPhasePending :: ShardPhase where "ShardPhasePending = ''Pending''"
definition ShardPhaseReady :: ShardPhase where "ShardPhaseReady = ''Ready''"
definition ShardPhaseDegraded :: ShardPhase where "ShardPhaseDegraded = ''Degraded''"

lemmas string_constants =
  EvictionPolicyLRU_def EvictionPolicyTTL_def EvictionPolicyAttentionAwareStub_def
  WarmCacheNone_def WarmCacheMemory_def WarmCacheDiskStub_def KVCacheStrategySharded_def
  RoutingModeSessionAffinity_def SignalsSourceFake_def SignalsSourcePrometheus_def
  ShardPhasePending_def ShardPhaseReady_def ShardPhaseDegraded_def

section \<open>The spec\<close>

type_synonym labels = "string \<rightharpoonup> string"

record EnvVar =
  ev_Name :: string
  ev_Value :: string

record ModelSpec =
  model_Name :: string
  model_Image :: string
  model_Args :: "string list"
  model_Env :: "EnvVar list"

record WorkloadRoleSpec =
  Replicas :: "int32 option"
  ServicePort :: "int32 option"
  PodLabels :: labels

record RuntimeSpec =
  Prefill :: WorkloadRoleSpec
  Decode :: WorkloadRoleSpec

record KVCacheSpec =
  Strategy :: KVCacheStrategy
  NumShards :: "int32 option"
  kv_EvictionPolicy :: EvictionPolicy
  WarmCache :: WarmCacheMode

record RoutingSpec =
  Mode :: RoutingMode
  HashKey :: "string option"
  RouterReplicas :: "int32 option"

record AutoscalingSignalsSpec =
  Source :: SignalsSource
  PrometheusURL :: "string option"

record AutoscalingSpec =
  Enabled :: "bool option"
  MinReplicas :: "int32 option"
  MaxReplicas :: "int32 option"
  as_Signals :: AutoscalingSignalsSpec

record LLMInferenceClusterSpec =
  Model :: ModelSpec
  Runtime :: RuntimeSpec
  KVCache :: KVCacheSpec
  Routing :: RoutingSpec
  Autoscaling :: AutoscalingSpec

section \<open>The status\<close>

text \<open>Times come from the clock and are only stored: a number of seconds.\<close>

type_synonym Time = int
type_synonym int64 = "64 word"

record ClusterEndpointsStatus =
  RouterURL :: string
  DecodeService :: string
  PrefillService :: string

record ShardStatus =
  ss_ShardID :: int32
  ss_Role :: string
  ss_OwnerPod :: string
  ss_Phase :: ShardPhase
  ss_LastHeartbeat :: Time

text \<open>\<open>metav1.Condition\<close>, the element type of \<open>status.conditions\<close>.\<close>

record Condition =
  cond_Type :: string
  cond_Status :: string
  cond_Reason :: string
  cond_Message :: string
  cond_ObservedGeneration :: int64
  cond_LastTransitionTime :: Time

record LLMInferenceClusterStatus =
  ObservedGeneration :: int64
  Endpoints :: ClusterEndpointsStatus
  Shards :: "ShardStatus list"
  Conditions :: "Condition list"

section \<open>Objects\<close>

text \<open>\<open>metav1.ObjectMeta\<close>, the fields the program reads or writes.\<close>

record OwnerReference =
  owner_Name :: string
  owner_UID :: string
  owner_Controller :: bool

record ObjectMeta =
  Name :: string
  Namespace :: string
  Labels :: labels
  OwnerReferences :: "OwnerReference list"
  Finalizers :: "string list"
  DeletionTimestamp :: "Time option"
  Generation :: int64
  UID :: string

record LLMInferenceCluster =
  metadata :: ObjectMeta
  spec :: LLMInferenceClusterSpec
  status :: LLMInferenceClusterStatus

type_synonym NamespacedName = "string \<times> string"

definition key_of :: "ObjectMeta \<Rightarrow> NamespacedName" where
  "key_of m = (Namespace m, Name m)"

text \<open>\<open>metav1.ObjectMeta{Name: \<dots>, Namespace: \<dots>}\<close>.\<close>

definition new_meta :: "string \<Rightarrow> string \<Rightarrow> ObjectMeta" where
  "new_meta ns n = \<lparr>Name = n, Namespace = ns, Labels = Map.empty, OwnerReferences = [],
     Finalizers = [], DeletionTimestamp = None, Generation = 0, UID = []\<rparr>"

lemma new_meta_simps [simp]:
  "Name (new_meta ns n) = n" "Namespace (new_meta ns n) = ns" "key_of (new_meta ns n) = (ns, n)"
  by (simp_all add: new_meta_def key_of_def)

section \<open>The validation markers\<close>

text \<open>
  The \<open>+kubebuilder:validation\<close> markers; an optional field that is empty is left out of the
  document and not validated.
\<close>

definition valid_EnvVar :: "EnvVar \<Rightarrow> bool" where
  "valid_EnvVar e \<longleftrightarrow> 1 \<le> length (ev_Name e)"

definition valid_ModelSpec :: "ModelSpec \<Rightarrow> bool" where
  "valid_ModelSpec m \<longleftrightarrow> 1 \<le> length (model_Name m) \<and> 1 \<le> length (model_Image m) \<and>
     list_all valid_EnvVar (model_Env m)"

definition at_least :: "int \<Rightarrow> int32 option \<Rightarrow> bool" where
  "at_least b p \<longleftrightarrow> (case p of None \<Rightarrow> True | Some v \<Rightarrow> b \<le> sint v)"

definition at_most :: "int \<Rightarrow> int32 option \<Rightarrow> bool" where
  "at_most b p \<longleftrightarrow> (case p of None \<Rightarrow> True | Some v \<Rightarrow> sint v \<le> b)"

definition valid_WorkloadRoleSpec :: "WorkloadRoleSpec \<Rightarrow> bool" where
  "valid_WorkloadRoleSpec r \<longleftrightarrow>
     at_least 0 (Replicas r) \<and> at_least 1 (ServicePort r) \<and> at_most 65535 (ServicePort r)"

definition valid_RuntimeSpec :: "RuntimeSpec \<Rightarrow> bool" where
  "valid_RuntimeSpec r \<longleftrightarrow> valid_WorkloadRoleSpec (Prefill r) \<and> valid_WorkloadRoleSpec (Decode r)"

definition valid_KVCacheSpec :: "KVCacheSpec \<Rightarrow> bool" where
  "valid_KVCacheSpec k \<longleftrightarrow>
     Strategy k \<in> {[], KVCacheStrategySharded} \<and>
     at_least 1 (NumShards k) \<and>
     kv_EvictionPolicy k \<in> {[], EvictionPolicyLRU, EvictionPolicyTTL, EvictionPolicyAttentionAwareStub} \<and>
     WarmCache k \<in> {[], WarmCacheNone, WarmCacheMemory, WarmCacheDiskStub}"

definition valid_RoutingSpec :: "RoutingSpec \<Rightarrow> bool" where
  "valid_RoutingSpec r \<longleftrightarrow>
     Mode r \<in> {[], RoutingModeSessionAffinity} \<and>
     (case HashKey r of None \<Rightarrow> True | Some h \<Rightarrow> 1 \<le> length h) \<and>
     at_least 1 (RouterReplicas r)"

definition valid_AutoscalingSpec :: "AutoscalingSpec \<Rightarrow> bool" where
  "valid_AutoscalingSpec a \<longleftrightarrow>
     at_least 0 (MinReplicas a) \<and> at_least 1 (MaxReplicas a) \<and>
     Source (as_Signals a) \<in> {[], SignalsSourceFake, SignalsSourcePrometheus}"

definition valid_Spec :: "LLMInferenceClusterSpec \<Rightarrow> bool" where
  "valid_Spec s \<longleftrightarrow>
     valid_ModelSpec (Model s) \<and> valid_RuntimeSpec (Runtime s) \<and> valid_KVCacheSpec (KVCache s) \<and>
     valid_RoutingSpec (Routing s) \<and> valid_AutoscalingSpec (Autoscaling s)"

definition valid_ShardStatus :: "ShardStatus \<Rightarrow> bool" where
  "valid_ShardStatus s \<longleftrightarrow>
     0 \<le> sint (ss_ShardID s) \<and> ss_Role s \<in> {''prefill'', ''decode''} \<and>
     ss_Phase s \<in> {[], ShardPhasePending, ShardPhaseReady, ShardPhaseDegraded}"

lemmas validation_defs =
  valid_Spec_def valid_ModelSpec_def valid_RuntimeSpec_def valid_KVCacheSpec_def
  valid_RoutingSpec_def valid_AutoscalingSpec_def valid_WorkloadRoleSpec_def valid_EnvVar_def
  at_least_def at_most_def

end
