(* ===== verification/Platform.thy ===== *)
theory Platform
  imports Types
begin

text \<open>
  What the program calls and does not contain: the Kubernetes objects it writes, the API client of
  controller-runtime, \<open>controllerutil\<close>, \<open>meta.SetStatusCondition\<close>, the clock and the order in
  which \<open>sort.Slice\<close> leaves equal elements. All of it is a record of functions over an arbitrary
  outside world, an argument of every definition that uses it. What the documentation promises of
  these functions is stated as named predicates in \<open>Contracts\<close>, which theorems take as hypotheses.
\<close>

section \<open>Kubernetes objects\<close>

datatype IntOrString = IntVal int32 | StrVal string

record CoreServicePort =
  sp_Name :: string
  sp_Port :: int32
  sp_Protocol :: string
  sp_TargetPort :: IntOrString

record Service =
  svc_meta :: ObjectMeta
  svc_Selector :: labels
  svc_Ports :: "CoreServicePort list"

record ObjectFieldSelector =
  fs_APIVersion :: string
  fs_FieldPath :: string

record CoreEnvVar =
  env_Name :: string
  env_Value :: string
  env_FieldRef :: "ObjectFieldSelector option"

record ContainerPort =
  cp_Name :: string
  cp_ContainerPort :: int32
  cp_Protocol :: string

record Container =
  ct_Name :: string
  ct_Image :: string
  ct_ImagePullPolicy :: string
  ct_Args :: "string list"
  ct_Env :: "CoreEnvVar list"
  ct_Ports :: "ContainerPort list"

text \<open>A nil slice of containers is \<open>None\<close>; it differs from an empty one where the code tests it.\<close>

record Deployment =
  dep_meta :: ObjectMeta
  dep_Replicas :: "int32 option"
  dep_Selector :: "labels option"
  dep_TemplateLabels :: labels
  dep_ServiceAccountName :: string
  dep_Containers :: "Container list option"

record ServiceAccount =
  sa_meta :: ObjectMeta

record PolicyRule =
  APIGroups :: "string list"
  Resources :: "string list"
  Verbs :: "string list"

record Role =
  role_meta :: ObjectMeta
  role_Rules :: "PolicyRule list"

record RoleRef =
  ref_APIGroup :: string
  ref_Kind :: string
  ref_Name :: string

record Subject =
  sub_Kind :: string
  sub_Name :: string
  sub_Namespace :: string

record RoleBinding =
  rb_meta :: ObjectMeta
  rb_RoleRef :: RoleRef
  rb_Subjects :: "Subject list"

record ConfigMap =
  cm_meta :: ObjectMeta
  cm_Data :: "(string \<rightharpoonup> string) option"

record PodCondition =
  pc_Type :: string
  pc_Status :: string

record Pod =
  pod_meta :: ObjectMeta
  pod_Conditions :: "PodCondition list"

text \<open>Indexing a map that may be nil: the empty string where the key is missing.\<close>

definition data_get :: "(string \<rightharpoonup> string) option \<Rightarrow> string \<Rightarrow> string" where
  "data_get d k = (case d of None \<Rightarrow> [] | Some m \<Rightarrow> (case m k of None \<Rightarrow> [] | Some v \<Rightarrow> v))"

section \<open>The platform\<close>

type_synonym ('w, 'a) api = "'w \<Rightarrow> (error + 'a) \<times> 'w"
type_synonym ('w, 'o) cou = "'o \<Rightarrow> ('o \<Rightarrow> 'o go) \<Rightarrow> 'w \<Rightarrow> 'o go \<times> 'w"

record 'w platform =
  ClientGet :: "NamespacedName \<Rightarrow> ('w, LLMInferenceCluster) api"
  ClientPatch :: "LLMInferenceCluster \<Rightarrow> LLMInferenceCluster \<Rightarrow> ('w, LLMInferenceCluster) api"
  ClientUpdate :: "LLMInferenceCluster \<Rightarrow> ('w, LLMInferenceCluster) api"
  StatusPatch :: "LLMInferenceCluster \<Rightarrow> LLMInferenceCluster \<Rightarrow> ('w, LLMInferenceCluster) api"
  StatusUpdate :: "LLMInferenceCluster \<Rightarrow> ('w, LLMInferenceCluster) api"
  GetConfigMap :: "NamespacedName \<Rightarrow> ('w, ConfigMap) api"
  ListPods :: "string \<Rightarrow> labels \<Rightarrow> ('w, Pod list) api"
  CouService :: "('w, Service) cou"
  CouDeployment :: "('w, Deployment) cou"
  CouServiceAccount :: "('w, ServiceAccount) cou"
  CouRole :: "('w, Role) cou"
  CouRoleBinding :: "('w, RoleBinding) cou"
  CouConfigMap :: "('w, ConfigMap) cou"
  Now :: "'w \<Rightarrow> Time \<times> 'w"
  SetStatusCondition :: "Condition list \<Rightarrow> Condition \<Rightarrow> Condition list"
  SetControllerReference :: "ObjectMeta \<Rightarrow> ObjectMeta \<Rightarrow> error + ObjectMeta"
  ContainsFinalizer :: "string list \<Rightarrow> string \<Rightarrow> bool"
  AddFinalizer :: "string list \<Rightarrow> string \<Rightarrow> string list"
  RemoveFinalizer :: "string list \<Rightarrow> string \<Rightarrow> string list"
  SliceSort :: "(CoreEnvVar \<Rightarrow> CoreEnvVar \<Rightarrow> bool) \<Rightarrow> CoreEnvVar list \<Rightarrow> CoreEnvVar list"

section \<open>Calls and their order\<close>

text \<open>
  Every call that reaches the API server is also written to a log, so that theorems can speak about
  which calls a run makes and in which order; a listing of pods is logged with its answer.
\<close>

datatype kind = KService | KDeployment | KServiceAccount | KRole | KRoleBinding | KConfigMap

datatype call =
    CallGet NamespacedName
  | CallPatch LLMInferenceCluster LLMInferenceCluster
  | CallUpdate LLMInferenceCluster
  | CallStatusPatch LLMInferenceCluster LLMInferenceCluster
  | CallStatusUpdate LLMInferenceCluster
  | CallGetConfigMap NamespacedName
  | CallListPods string labels "error + Pod list"
  | CallCreateOrUpdate kind NamespacedName

fun is_read :: "call \<Rightarrow> bool" where
  "is_read (CallGet _) = True"
| "is_read (CallGetConfigMap _) = True"
| "is_read (CallListPods _ _ _) = True"
| "is_read _ = False"

record 'w world =
  env :: 'w
  calls :: "call list"

definition invoke :: "call \<Rightarrow> ('w, 'a) api \<Rightarrow> ('w world, 'a) comp" where
  "invoke c f = (\<lambda>w. case f (env w) of
       (Inl e, x) \<Rightarrow> (Err e, w\<lparr>env := x, calls := calls w @ [c]\<rparr>)
     | (Inr a, x) \<Rightarrow> (Ok a, w\<lparr>env := x, calls := calls w @ [c]\<rparr>))"

definition createOrUpdate ::
  "kind \<Rightarrow> ('o \<Rightarrow> ObjectMeta) \<Rightarrow> ('w, 'o) cou \<Rightarrow> 'o \<Rightarrow> ('o \<Rightarrow> 'o go) \<Rightarrow> ('w world, 'o) comp" where
  "createOrUpdate k meta f obj mutate = (\<lambda>w. case f obj mutate (env w) of
       (r, x) \<Rightarrow> (r, w\<lparr>env := x, calls := calls w @ [CallCreateOrUpdate k (key_of (meta obj))]\<rparr>))"

definition clock :: "'w platform \<Rightarrow> ('w world, Time) comp" where
  "clock P = (\<lambda>w. case Now P (env w) of (t, x) \<Rightarrow> (Ok t, w\<lparr>env := x\<rparr>))"

definition of_sum :: "error + 'a \<Rightarrow> 'a go" where
  "of_sum r = (case r of Inl e \<Rightarrow> Err e | Inr a \<Rightarrow> Ok a)"

lemma of_sum_simps [simp]: "of_sum (Inl e) = Err e" "of_sum (Inr a) = Ok a"
  by (simp_all add: of_sum_def)

lemma of_sum_eq [simp]: "of_sum r = Ok a \<longleftrightarrow> r = Inr a" "of_sum r = Err e \<longleftrightarrow> r = Inl e" "of_sum r \<noteq> Panic"
  by (cases r; simp)+

definition listPods :: "'w platform \<Rightarrow> string \<Rightarrow> labels \<Rightarrow> ('w world, Pod list) comp" where
  "listPods P ns sel = (\<lambda>w. case ListPods P ns sel (env w) of
       (r, x) \<Rightarrow> (of_sum r, w\<lparr>env := x, calls := calls w @ [CallListPods ns sel r]\<rparr>))"

text \<open>Every call is logged once, whatever it answers.\<close>

lemma invoke_calls: "invoke c f w = (r, w') \<Longrightarrow> calls w' = calls w @ [c] \<and> r \<noteq> Panic"
  by (auto simp: invoke_def split: prod.splits sum.splits)

lemma createOrUpdate_calls:
  "createOrUpdate k meta f obj mutate w = (r, w') \<Longrightarrow>
    calls w' = calls w @ [CallCreateOrUpdate k (key_of (meta obj))]"
  by (auto simp: createOrUpdate_def split: prod.splits)

lemma clock_calls: "clock P w = (r, w') \<Longrightarrow> calls w' = calls w \<and> (\<exists>t. r = Ok t)"
  by (auto simp: clock_def split: prod.splits)

lemma always_invoke:
  "(\<And>w r x. P w \<Longrightarrow> f (env w) = (r, x) \<Longrightarrow> Q (of_sum r) (w\<lparr>env := x, calls := calls w @ [c]\<rparr>)) \<Longrightarrow>
    always (invoke c f) P Q"
  by (rule alwaysI) (fastforce simp: invoke_def split: prod.splits sum.splits)

lemma always_listPods:
  "(\<And>w r x. I w \<Longrightarrow> ListPods P ns sel (env w) = (r, x) \<Longrightarrow>
      Q (of_sum r) (w\<lparr>env := x, calls := calls w @ [CallListPods ns sel r]\<rparr>)) \<Longrightarrow> always (listPods P ns sel) I Q"
  by (rule alwaysI) (auto simp: listPods_def split: prod.splits)

lemma always_clock:
  "(\<And>w t x. P w \<Longrightarrow> Now p (env w) = (t, x) \<Longrightarrow> Q (Ok t) (w\<lparr>env := x\<rparr>)) \<Longrightarrow> always (clock p) P Q"
  by (rule alwaysI) (auto simp: clock_def split: prod.splits)

section \<open>The log\<close>

text \<open>A computation that only adds to the log and does not depend on what is already there.\<close>

definition appends :: "('w world, 'a) comp \<Rightarrow> bool" where
  "appends m \<longleftrightarrow> (\<forall>w l. m (w\<lparr>calls := l @ calls w\<rparr>) = (fst (m w), (snd (m w))\<lparr>calls := l @ calls (snd (m w))\<rparr>))"

lemma appendsD: "appends m \<Longrightarrow> m w = (r, w') \<Longrightarrow> m (w\<lparr>calls := l @ calls w\<rparr>) = (r, w'\<lparr>calls := l @ calls w'\<rparr>)"
  by (simp add: appends_def)

lemma appends_ret [appends_rules]: "appends (ret a)"
  by (simp add: appends_def comp_defs)

lemma appends_lift_go [appends_rules]: "appends (lift_go r)"
  by (simp add: appends_def comp_defs)

lemma appends_invoke [appends_rules]: "appends (invoke c f)"
  by (simp add: appends_def invoke_def split: prod.split sum.split)

lemma appends_createOrUpdate [appends_rules]: "appends (createOrUpdate k meta f obj mutate)"
  by (simp add: appends_def createOrUpdate_def split: prod.split)

lemma appends_clock [appends_rules]: "appends (clock P)"
  by (simp add: appends_def clock_def split: prod.split)

lemma appends_listPods [appends_rules]: "appends (listPods P ns sel)"
  by (simp add: appends_def listPods_def split: prod.split)

lemma appends_andThen [appends_rules]:
  assumes "appends m" "\<And>a. appends (f a)"
  shows "appends (andThen m f)"
  unfolding appends_def
proof (intro allI)
  fix w l
  obtain r t where m: "m w = (r, t)" by fastforce
  show "andThen m f (w\<lparr>calls := l @ calls w\<rparr>) = (fst (andThen m f w), (snd (andThen m f w))\<lparr>calls := l @ calls (snd (andThen m f w))\<rparr>)"
    using appendsD [OF assms(1) m, of l] assms(2) m by (cases r) (simp_all add: andThen_def appends_def)
qed

lemma appends_onErr [appends_rules]:
  assumes "appends m" "\<And>e. appends (h e)" "\<And>a. appends (f a)"
  shows "appends (onErr m h f)"
  unfolding appends_def
proof (intro allI)
  fix w l
  obtain r t where m: "m w = (r, t)" by fastforce
  show "onErr m h f (w\<lparr>calls := l @ calls w\<rparr>) = (fst (onErr m h f w), (snd (onErr m h f w))\<lparr>calls := l @ calls (snd (onErr m h f w))\<rparr>)"
    using appendsD [OF assms(1) m, of l] assms(2,3) m by (cases r) (simp_all add: onErr_def appends_def)
qed

lemma appends_if [appends_rules]: "appends m \<Longrightarrow> appends n \<Longrightarrow> appends (if b then m else n)"
  by simp

lemma appends_split [appends_rules]: "(\<And>a b. appends (f a b)) \<Longrightarrow> appends (case p of (a, b) \<Rightarrow> f a b)"
  by (cases p) simp

text \<open>A run is the run from the empty log with the old log in front.\<close>

lemma appends_run:
  assumes "appends m" "m w = (r, w')"
  obtains w0 where "m (w\<lparr>calls := []\<rparr>) = (r, w0)" "env w0 = env w'" "calls w' = calls w @ calls w0"
proof -
  obtain q w0 where run: "m (w\<lparr>calls := []\<rparr>) = (q, w0)" by fastforce
  from appendsD [OF assms(1) this, of "calls w"] assms(2)
  have "q = r" "w' = w0\<lparr>calls := calls w @ calls w0\<rparr>" by simp_all
  then show thesis using that run by simp
qed

lemma appends_keep: "appends m \<Longrightarrow> always m (\<lambda>w. c \<in> set (calls w)) (\<lambda>_ w. c \<in> set (calls w))"
  by (rule alwaysI) (auto elim!: appends_run)

end
