(* ===== verification/Signals.thy ===== *)
theory Signals
  imports GoFloat Platform
begin

text \<open>
  \<open>internal/signals\<close>: the signals that drive autoscaling and the adapters that read them. The Go
  interface \<open>Adapter\<close> is a locale, interpreted on both implementations.
\<close>

section \<open>Signals and adapters\<close>

record Signals =
  QueueDepth :: float64
  TokensPerSecond :: float64
  MemPressure :: float64

definition parseFloat :: "string \<Rightarrow> float64" where
  "parseFloat v =
     (if v = [] then flt_of_nat 0
      else case ParseFloat v of None \<Rightarrow> flt_of_nat 0 | Some f \<Rightarrow> f)"

text \<open>\<open>FakeConfigMapAdapter.Read\<close>: the three numbers of the signals ConfigMap.\<close>

definition signalsOf :: "ConfigMap \<Rightarrow> Signals" where
  "signalsOf cm =
     \<lparr>QueueDepth = parseFloat (data_get (cm_Data cm) ''queueDepth''),
      TokensPerSecond = parseFloat (data_get (cm_Data cm) ''tokensPerSecond''),
      MemPressure = parseFloat (data_get (cm_Data cm) ''memPressure'')\<rparr>"

definition FakeConfigMapAdapter_Read ::
  "'w platform \<Rightarrow> string \<Rightarrow> string \<Rightarrow> ('w world, Signals) comp" where
  "FakeConfigMapAdapter_Read P ns n =
     andThen (invoke (CallGetConfigMap (ns, n)) (GetConfigMap P (ns, n)))
       (\<lambda>cm. ret (signalsOf cm))"

definition PrometheusAdapter_Read :: "string \<Rightarrow> ('w world, Signals) comp" where
  "PrometheusAdapter_Read baseURL = lift_go (Err (OtherError ''prometheus adapter not implemented in v1''))"

text \<open>A value of the interface type, and the method call on it.\<close>

datatype Adapter = FakeConfigMapAdapter string string | PrometheusAdapter string

primrec Read :: "'w platform \<Rightarrow> Adapter \<Rightarrow> ('w world, Signals) comp" where
  "Read P (FakeConfigMapAdapter ns n) = FakeConfigMapAdapter_Read P ns n"
| "Read P (PrometheusAdapter url) = PrometheusAdapter_Read url"

section \<open>The interface\<close>

text \<open>What the autoscaler relies on: reading signals does not panic and only makes reads.\<close>

locale signals_adapter =
  fixes read :: "('w world, Signals) comp"
  assumes read_no_panic: "read w = (r, w') \<Longrightarrow> r \<noteq> Panic"
    and read_only: "read w = (r, w') \<Longrightarrow> \<exists>cs. calls w' = calls w @ cs \<and> list_all is_read cs"

lemma fake_adapter_ok: "signals_adapter (FakeConfigMapAdapter_Read P ns n)"
proof
  fix w r w' assume "FakeConfigMapAdapter_Read P ns n w = (r, w')"
  then show "r \<noteq> Panic" "\<exists>cs. calls w' = calls w @ cs \<and> list_all is_read cs"
    by (auto simp: FakeConfigMapAdapter_Read_def comp_defs split: prod.splits go.splits
      dest!: invoke_calls)
qed

lemma prometheus_adapter_ok: "signals_adapter (PrometheusAdapter_Read url)"
  by unfold_locales (auto simp: PrometheusAdapter_Read_def comp_defs)

interpretation fake: signals_adapter "FakeConfigMapAdapter_Read P ns n" for P ns n
  by (rule fake_adapter_ok)

interpretation prometheus: signals_adapter "PrometheusAdapter_Read url" for url
  by (rule prometheus_adapter_ok)

interpretation adapter: signals_adapter "Read P a" for P a
  by (cases a) (simp_all add: fake_adapter_ok prometheus_adapter_ok)

section \<open>Reading numbers\<close>

lemma parseFloat_nat_text_Fin:
  assumes "n < 2 ^ 53"
  shows "\<exists>k. parseFloat (nat_text n) = Fin False (n * 2 ^ k) (- int k)"
proof -
  have "ParseFloat (nat_text n) = round_float64 False n 1"
    using ParseFloat_digits [OF nat_text_nonempty nat_text_digits] by simp
  moreover have "\<exists>k. round_float64 False n 1 = Some (Fin False (n * 2 ^ k) (- int k))"
  proof (cases "n = 0")
    case True
    then show ?thesis by (intro exI [of _ 0]) (simp add: round_float64_def)
  qed (use round_float64_nat [OF _ assms] in simp)
  ultimately show ?thesis by (auto simp: parseFloat_def)
qed

lemma parseFloat_nat_text:
  assumes "n < 2 ^ 53"
  shows "flt_less (flt_of_nat a) (parseFloat (nat_text n)) \<longleftrightarrow> a < n"
    and "flt_less (parseFloat (nat_text n)) (flt_of_nat a) \<longleftrightarrow> n < a"
proof -
  obtain k where "parseFloat (nat_text n) = Fin False (n * 2 ^ k) (- int k)"
    using parseFloat_nat_text_Fin [OF assms] by blast
  then show "flt_less (flt_of_nat a) (parseFloat (nat_text n)) \<longleftrightarrow> a < n"
    "flt_less (parseFloat (nat_text n)) (flt_of_nat a) \<longleftrightarrow> n < a"
    by (simp_all only: flt_less_of_nat)
qed

end
