(* ===== verification/Autoscaler.thy ===== *)
theory Autoscaler
  imports Signals
begin

text \<open>
  \<open>computeDecodeReplicas\<close> of the controller: the number of decode replicas from the spec and the
  signals. Replica counts are 32-bit integers with wrap-around.
\<close>

section \<open>The decision\<close>

text \<open>The current, least and largest replica counts, clamped as the code clamps them.\<close>

definition replicaBounds :: "LLMInferenceCluster \<Rightarrow> int32 \<times> int32 \<times> int32" where
  "replicaBounds cluster =
     (let current = (case Replicas (Decode (Runtime (spec cluster))) of None \<Rightarrow> 1 | Some v \<Rightarrow> v);
          min = (case MinReplicas (Autoscaling (spec cluster)) of None \<Rightarrow> 0 | Some v \<Rightarrow> v);
          max = (case MaxReplicas (Autoscaling (spec cluster)) of None \<Rightarrow> 10 | Some v \<Rightarrow> v);
          max = (if max <s 1 then 1 else max);
          current = (if current <s min then min else current);
          current = (if max <s current then max else current)
      in (current, min, max))"

definition selectAdapter :: "LLMInferenceCluster \<Rightarrow> string \<Rightarrow> Adapter" where
  "selectAdapter cluster signalsCMName =
     (let s = as_Signals (Autoscaling (spec cluster));
          source = (if Source s = [] then SignalsSourceFake else Source s);
          ns = Namespace (metadata cluster)
      in if source = SignalsSourceFake then FakeConfigMapAdapter ns signalsCMName
         else if source = SignalsSourcePrometheus then
           PrometheusAdapter (case PrometheusURL s of None \<Rightarrow> [] | Some u \<Rightarrow> u)
         else FakeConfigMapAdapter ns signalsCMName)"

definition desiredReplicas :: "int32 \<times> int32 \<times> int32 \<Rightarrow> Signals \<Rightarrow> int32" where
  "desiredReplicas b s =
     (let (current, min, max) = b;
          desired = (if flt_less (flt_of_nat 100) (QueueDepth s) then current + 1
                     else if flt_less (QueueDepth s) (flt_of_nat 10) \<and> min <s current then current - 1
                     else current);
          desired = (if desired <s min then min else desired);
          desired = (if max <s desired then max else desired)
      in desired)"

text \<open>The rest of the function once the adapter is chosen: read, decide, report a change.\<close>

definition computeDesired ::
  "('w world, Signals) comp \<Rightarrow> int32 \<times> int32 \<times> int32 \<Rightarrow> ('w world, int32 \<times> bool) comp" where
  "computeDesired read b =
     andThen read (\<lambda>s. ret (desiredReplicas b s, desiredReplicas b s \<noteq> fst b))"

definition computeDecodeReplicas ::
  "'w platform \<Rightarrow> LLMInferenceCluster \<Rightarrow> string \<Rightarrow> ('w world, int32 \<times> bool) comp" where
  "computeDecodeReplicas P cluster signalsCMName =
     computeDesired (Read P (selectAdapter cluster signalsCMName)) (replicaBounds cluster)"

section \<open>Bounds\<close>

lemma desiredReplicas_le_max:
  "b = (current, mn, mx) \<Longrightarrow> sint (desiredReplicas b s) \<le> sint mx"
  by (simp add: desiredReplicas_def Let_def int32_simps)

lemma desiredReplicas_ge_min:
  "b = (current, mn, mx) \<Longrightarrow> sint mn \<le> sint mx \<Longrightarrow> sint mn \<le> sint (desiredReplicas b s)"
  by (simp add: desiredReplicas_def Let_def int32_simps)

lemma replicaBounds_props:
  assumes "replicaBounds cluster = (current, mn, mx)"
  shows "1 \<le> sint mx" and "sint current \<le> sint mx" and "sint mn \<le> sint mx \<Longrightarrow> sint mn \<le> sint current"
    and "sint mx < sint mn \<Longrightarrow> current = mx"
  using assms by (auto simp: replicaBounds_def Let_def int32_simps split: if_splits)

text \<open>The decision exactly, where the bounds are consistent and the count is not the largest integer.\<close>

lemma desiredReplicas_exact:
  assumes "sint mn \<le> sint current" "sint current \<le> sint mx" "sint current < 2147483647"
  shows "sint (desiredReplicas (current, mn, mx) s) =
    (if flt_less (flt_of_nat 100) (QueueDepth s) then min (sint current + 1) (sint mx)
     else if flt_less (QueueDepth s) (flt_of_nat 10) then max (sint current - 1) (sint mn)
     else sint current)"
  using assms sint32_add1 [OF assms(3)] sint32_sub1 [of current] sint32_bounds(1) [of mn]
  by (auto simp: desiredReplicas_def Let_def int32_simps)

lemma desiredReplicas_overflow:
  assumes "sint current = 2147483647" "sint mn \<le> sint mx" "sint current \<le> sint mx" "flt_less (flt_of_nat 100) (QueueDepth s)"
  shows "desiredReplicas (current, mn, mx) s = mn"
proof -
  have "current = 2147483647" using assms(1) by (intro signed_word_eqI) simp
  then have "sint (current + 1) = - 2147483648" by simp
  moreover have "sint (current + 1) = sint mn \<Longrightarrow> current + 1 = mn" by (rule signed_word_eqI)
  ultimately have "current + 1 = mn \<or> sint (current + 1) < sint mn"
    using sint32_bounds(1) [of mn] by (cases "sint mn = - 2147483648") auto
  then show ?thesis using assms(2,4) by (auto simp: desiredReplicas_def Let_def int32_simps)
qed

context signals_adapter
begin

text \<open>Whatever the adapter reads, the decision stays below the maximum and writes nothing.\<close>

lemma computeDesired_bounded:
  "computeDesired read (current, mn, mx) w = (Ok (n, scaling), w') \<Longrightarrow> sint n \<le> sint mx"
  using desiredReplicas_le_max [of "(current, mn, mx)" current mn mx]
  by (auto simp: computeDesired_def comp_defs split: prod.splits go.splits)

lemma computeDesired_no_panic: "computeDesired read b w = (r, w') \<Longrightarrow> r \<noteq> Panic"
  using read_no_panic by (auto simp: computeDesired_def comp_defs split: prod.splits go.splits)

lemma computeDesired_read_only:
  "computeDesired read b w = (r, w') \<Longrightarrow> \<exists>cs. calls w' = calls w @ cs \<and> list_all is_read cs"
  using read_only by (auto simp: computeDesired_def comp_defs split: prod.splits go.splits)

end

text \<open>The three bounds as integers: the count of the spec, clamped by a minimum and a maximum of at least one.\<close>

lemma replicaBounds_sint:
  assumes "replicaBounds cluster = (current, mn, mx)"
  shows "sint mn = (case MinReplicas (Autoscaling (spec cluster)) of None \<Rightarrow> 0 | Some v \<Rightarrow> sint v)"
    and "sint mx = max 1 (case MaxReplicas (Autoscaling (spec cluster)) of None \<Rightarrow> 10 | Some v \<Rightarrow> sint v)"
    and "sint current = min (sint mx) (max (sint mn) (case Replicas (Decode (Runtime (spec cluster))) of None \<Rightarrow> 1 | Some v \<Rightarrow> sint v))"
  using assms by (auto simp: replicaBounds_def Let_def int32_simps split: if_splits option.splits)

lemma desiredReplicas_step:
  assumes b: "replicaBounds cluster = (current, mn, mx)" and n: "n = desiredReplicas (current, mn, mx) s"
  shows "(if sint mn \<le> sint mx then sint mn \<le> sint n else sint n = sint mx) \<and>
    (\<bar>sint n - sint current\<bar> \<le> 1 \<or> sint current = 2147483647 \<and> n = mn)"
proof (cases "sint mn \<le> sint mx")
  case True
  note B = replicaBounds_props [OF b]
  have "\<bar>sint n - sint current\<bar> \<le> 1 \<or> sint current = 2147483647 \<and> n = mn"
  proof (cases "sint current < 2147483647")
    case lt: True
    show ?thesis
      using desiredReplicas_exact [OF B(3) [OF True] B(2) lt, of s] B(2) B(3) [OF True] n by (auto split: if_splits)
  next
    case False
    then have top: "sint current = 2147483647" using sint32_bounds(2) [of current] by simp
    show ?thesis
    proof (cases "flt_less (flt_of_nat 100) (QueueDepth s)")
      case full: True
      then show ?thesis using desiredReplicas_overflow [OF top True B(2) full] n top by simp
    next
      case False
      then show ?thesis
        using n top True B(2) sint32_bounds(2) [of mx] sint32_sub1 [of current]
        by (auto simp: desiredReplicas_def Let_def int32_simps)
    qed
  qed
  then show ?thesis using desiredReplicas_ge_min [OF refl True, of current s] n True by simp
next
  case False
  then have "desiredReplicas (current, mn, mx) s = mx" by (simp add: desiredReplicas_def Let_def int32_simps)
  then show ?thesis using n replicaBounds_props(4) [OF b] False by simp
qed

section \<open>Property\<close>

text \<open>
  C19: Bounds of autoscaling. Let the current count be the count of the spec (1 when it is missing), raised
  to the minimum (0 when missing) and lowered to the maximum (10 when missing, at least 1). Whatever the
  signals are, \<open>computeDecodeReplicas\<close> does not panic, and a count it returns is at most the maximum, at
  least the minimum where the bounds are consistent and the maximum where they are not, is reported as
  a change exactly when it differs from the current count, and is at most one away from it; except that
  from the largest 32-bit count it may wrap around to the minimum.
\<close>

theorem autoscale_bounds:
  "let asked = (case Replicas (Decode (Runtime (spec cluster))) of None \<Rightarrow> 1 | Some v \<Rightarrow> sint v);
       least = (case MinReplicas (Autoscaling (spec cluster)) of None \<Rightarrow> 0 | Some v \<Rightarrow> sint v);
       most = max 1 (case MaxReplicas (Autoscaling (spec cluster)) of None \<Rightarrow> 10 | Some v \<Rightarrow> sint v);
       current = min most (max least asked)
   in case fst (computeDecodeReplicas P cluster cm w) of
        Ok (n, scaling) \<Rightarrow>
          sint n \<le> most \<and> (if least \<le> most then least \<le> sint n else sint n = most) \<and>
          (scaling \<longleftrightarrow> sint n \<noteq> current) \<and>
          (\<bar>sint n - current\<bar> \<le> 1 \<or> current = 2147483647 \<and> sint n = least)
      | Err e \<Rightarrow> True
      | Panic \<Rightarrow> False"
proof -
  obtain current mn mx where b: "replicaBounds cluster = (current, mn, mx)" by (cases "replicaBounds cluster") auto
  obtain r w' where run: "computeDecodeReplicas P cluster cm w = (r, w')" by fastforce
  have np: "r \<noteq> Panic" using adapter.computeDesired_no_panic [OF run [unfolded computeDecodeReplicas_def]] .
  show ?thesis
  proof (cases r)
    case (Ok p)
    then obtain s where p: "p = (desiredReplicas (current, mn, mx) s, desiredReplicas (current, mn, mx) s \<noteq> current)"
      using run b by (auto simp: computeDecodeReplicas_def computeDesired_def comp_defs split: prod.splits go.splits)
    define n where "n = desiredReplicas (current, mn, mx) s"
    have "n = current \<longleftrightarrow> sint n = sint current" using signed_word_eqI by blast
    then have "sint n \<le> sint mx \<and> (if sint mn \<le> sint mx then sint mn \<le> sint n else sint n = sint mx) \<and>
        (n \<noteq> current \<longleftrightarrow> sint n \<noteq> sint current) \<and>
        (\<bar>sint n - sint current\<bar> \<le> 1 \<or> sint current = 2147483647 \<and> sint n = sint mn)"
      using desiredReplicas_step [OF b n_def] desiredReplicas_le_max [OF refl, of current mn mx s] by (auto simp: n_def)
    then show ?thesis
      unfolding run Ok p n_def [symmetric] fst_conv go.case prod.case Let_def replicaBounds_sint [OF b] .
  qed (use run np in simp_all)
qed

end
