(* ===== verification/GoJson.thy ===== *)
theory GoJson
  imports GoStd
begin

text \<open>
  Go's \<open>encoding/json\<close>, as far as the program uses it: the byte-at-a-time scanner with its parse
  stack, string quoting and unquoting over UTF-8, and the decoding of scalars into Go fields.
  The scanner is a deterministic machine that reads one byte per step, so it needs no fuel and
  always ends; it builds the document it accepts. The last section shows that what the encoder
  prints is read back as it was.
\<close>

section \<open>Documents\<close>

datatype json =
    JNull
  | JBool bool
  | JNum string
  | JStr string
  | JArr "json list"
  | JObj "(string \<times> json) list"

section \<open>UTF-8\<close>

definition byte :: "char \<Rightarrow> nat" where
  "byte c = of_char c"

definition is_cont :: "char \<Rightarrow> bool" where
  "is_cont c \<longleftrightarrow> 128 \<le> byte c \<and> byte c \<le> 191"

text \<open>
  \<open>utf8.DecodeRune\<close>: the size of the well-formed sequence at the front of the text, \<open>0\<close> where it
  is malformed (Go reports the replacement rune with size one there).
\<close>

definition seq2 :: "char \<Rightarrow> string \<Rightarrow> bool" where
  "seq2 a r \<longleftrightarrow> (case r of b # _ \<Rightarrow> 194 \<le> byte a \<and> byte a \<le> 223 \<and> is_cont b | _ \<Rightarrow> False)"

definition seq3 :: "char \<Rightarrow> string \<Rightarrow> bool" where
  "seq3 a r \<longleftrightarrow> (case r of
       b # c # _ \<Rightarrow> 224 \<le> byte a \<and> byte a \<le> 239 \<and> is_cont b \<and> is_cont c \<and>
         (byte a = 224 \<longrightarrow> 160 \<le> byte b) \<and> (byte a = 237 \<longrightarrow> byte b \<le> 159)
     | _ \<Rightarrow> False)"

definition seq4 :: "char \<Rightarrow> string \<Rightarrow> bool" where
  "seq4 a r \<longleftrightarrow> (case r of
       b # c # d # _ \<Rightarrow> 240 \<le> byte a \<and> byte a \<le> 244 \<and> is_cont b \<and> is_cont c \<and> is_cont d \<and>
         (byte a = 240 \<longrightarrow> 144 \<le> byte b) \<and> (byte a = 244 \<longrightarrow> byte b \<le> 143)
     | _ \<Rightarrow> False)"

fun rune_len :: "string \<Rightarrow> nat" where
  "rune_len [] = 0"
| "rune_len (a # r) =
     (if byte a < 128 then 1
      else if seq2 a r then 2 else if seq3 a r then 3 else if seq4 a r then 4 else 0)"

declare rune_len.simps [simp del]

text \<open>\<open>utf8.EncodeRune\<close> on a code point.\<close>

definition encode_rune :: "nat \<Rightarrow> string" where
  "encode_rune r =
     (if r < 128 then [char_of r]
      else if r < 2048 then [char_of (192 + r div 64), char_of (128 + r mod 64)]
      else if r < 65536 then
        [char_of (224 + r div 4096), char_of (128 + r div 64 mod 64), char_of (128 + r mod 64)]
      else [char_of (240 + r div 262144), char_of (128 + r div 4096 mod 64),
            char_of (128 + r div 64 mod 64), char_of (128 + r mod 64)])"

definition replacement :: string where
  "replacement = encode_rune 65533"

section \<open>Quoting strings\<close>

definition hex_digit :: "nat \<Rightarrow> char" where
  "hex_digit d = (if d < 10 then char_of (48 + d) else char_of (87 + d))"

text \<open>
  The encoder's escape of one ASCII byte, with HTML escaping on (as \<open>json.Marshal\<close> and
  \<open>json.NewEncoder\<close> have it).
\<close>

definition escape_ascii :: "char \<Rightarrow> string" where
  "escape_ascii c =
     (if c = CHR 0x22 \<or> c = CHR 0x5C then [CHR 0x5C, c]
      else if byte c = 8 then [CHR 0x5C, CHR ''b'']
      else if byte c = 12 then [CHR 0x5C, CHR ''f'']
      else if byte c = 10 then [CHR 0x5C, CHR ''n'']
      else if byte c = 13 then [CHR 0x5C, CHR ''r'']
      else if byte c = 9 then [CHR 0x5C, CHR ''t'']
      else if byte c < 32 \<or> c = CHR ''<'' \<or> c = CHR ''>'' \<or> c = CHR ''&'' then
        [CHR 0x5C, CHR ''u'', CHR ''0'', CHR ''0'', hex_digit (byte c div 16), hex_digit (byte c mod 16)]
      else [c])"

text \<open>
  \<open>appendString\<close>: well-formed sequences are copied (the line separators \<open>U+2028\<close> and \<open>U+2029\<close>
  escaped), every malformed byte becomes the escape of the replacement rune.
\<close>

fun escape_bytes :: "string \<Rightarrow> string" where
  "escape_bytes [] = []"
| "escape_bytes (a # r) =
     (if byte a < 128 then escape_ascii a @ escape_bytes r
      else let n = rune_len (a # r) in
        if n = 0 then [CHR 0x5C] @ ''ufffd'' @ escape_bytes r
        else if a # take (n - 1) r = encode_rune 8232 then
          [CHR 0x5C] @ ''u2028'' @ escape_bytes (drop (n - 1) r)
        else if a # take (n - 1) r = encode_rune 8233 then
          [CHR 0x5C] @ ''u2029'' @ escape_bytes (drop (n - 1) r)
        else a # take (n - 1) r @ escape_bytes (drop (n - 1) r))"

declare escape_bytes.simps [simp del]

definition quote :: "string \<Rightarrow> string" where
  "quote s = [CHR 0x22] @ escape_bytes s @ [CHR 0x22]"

section \<open>Unquoting strings\<close>

definition hex_val :: "char \<Rightarrow> nat option" where
  "hex_val c =
     (let n = byte c in
      if 48 \<le> n \<and> n \<le> 57 then Some (n - 48)
      else if 97 \<le> n \<and> n \<le> 102 then Some (n - 87)
      else if 65 \<le> n \<and> n \<le> 70 then Some (n - 55)
      else None)"

text \<open>\<open>getu4\<close>: the code unit of an escape \<open>\uXXXX\<close> at the front of the text.\<close>

fun getu4 :: "string \<Rightarrow> nat option" where
  "getu4 (b # u # h1 # h2 # h3 # h4 # r) =
     (if b = CHR 0x5C \<and> u = CHR ''u'' then
        (case (hex_val h1, hex_val h2, hex_val h3, hex_val h4) of
           (Some a, Some b, Some c, Some d) \<Rightarrow> Some (4096 * a + 256 * b + 16 * c + d)
         | _ \<Rightarrow> None)
      else None)"
| "getu4 _ = None"

definition is_high_surrogate :: "nat \<Rightarrow> bool" where
  "is_high_surrogate r \<longleftrightarrow> 55296 \<le> r \<and> r < 56320"

definition is_low_surrogate :: "nat \<Rightarrow> bool" where
  "is_low_surrogate r \<longleftrightarrow> 56320 \<le> r \<and> r < 57344"

text \<open>
  \<open>unquoteBytes\<close> on the raw text between the quotes, which the scanner has already accepted: the
  short escapes, \<open>\uXXXX\<close> with surrogate pairs, and malformed UTF-8 replaced. Bytes the scanner
  cannot have let through are passed over.
\<close>

definition unescape_short :: "char \<Rightarrow> string" where
  "unescape_short c =
     (if c = CHR ''b'' then [CHR 0x08] else if c = CHR ''f'' then [CHR 0x0C]
      else if c = CHR ''n'' then [CHR 0x0A] else if c = CHR ''r'' then [CHR 0x0D]
      else if c = CHR ''t'' then [CHR 0x09] else [c])"

function unquote :: "string \<Rightarrow> string" where
  "unquote s =
     (case s of
        [] \<Rightarrow> []
      | a # r \<Rightarrow>
          if a = CHR 0x5C then
            (case r of
               [] \<Rightarrow> []
             | b # r2 \<Rightarrow>
                 if b = CHR ''u'' then
                   (case getu4 s of
                      None \<Rightarrow> unquote r2
                    | Some u \<Rightarrow>
                        if is_high_surrogate u \<or> is_low_surrogate u then
                          (case getu4 (drop 6 s) of
                             Some v \<Rightarrow>
                               if is_high_surrogate u \<and> is_low_surrogate v
                               then encode_rune (65536 + 1024 * (u - 55296) + (v - 56320)) @ unquote (drop 12 s)
                               else replacement @ unquote (drop 6 s)
                           | None \<Rightarrow> replacement @ unquote (drop 6 s))
                        else encode_rune u @ unquote (drop 6 s))
                 else unescape_short b @ unquote r2)
          else if byte a < 128 then a # unquote r
          else let n = rune_len s in
            if n = 0 then replacement @ unquote r else a # take (n - 1) r @ unquote (drop (n - 1) r))"
  by pat_completeness auto
termination
  by (relation "measure length") auto

declare unquote.simps [simp del]

section \<open>The scanner\<close>

definition maxNestingDepth :: nat where
  "maxNestingDepth = 10000"

definition is_space :: "char \<Rightarrow> bool" where
  "is_space c \<longleftrightarrow> c = CHR '' '' \<or> c = CHR 0x09 \<or> c = CHR 0x0D \<or> c = CHR 0x0A"

text \<open>
  One entry of the parse stack with what has been read at that level: an array and its elements,
  an object before a key, between key and colon, before a value, and after a value. Elements and
  members are kept last first.
\<close>

datatype frame =
    InArray "json list"
  | InKey "(string \<times> json) list"
  | AtColon "(string \<times> json) list" string
  | InMember "(string \<times> json) list" string
  | AfterMember "(string \<times> json) list"

text \<open>The scanner's \<open>step\<close> function as a mode, with the raw text read so far (last first).\<close>

datatype mode =
    BeginValueOrEmpty | BeginValue | BeginStringOrEmpty | BeginString
  | EndValue | EndTop json
  | InString string | InStringEsc string | InStringEscU nat string
  | Neg string | State0 string | State1 string | Dot string | Dot0 string
  | StateE string | ESign string | E0 string
  | Literal string json

type_synonym scanner = "mode \<times> frame list"

text \<open>A finished value goes to the enclosing level.\<close>

fun attach :: "frame \<Rightarrow> json \<Rightarrow> frame" where
  "attach (InArray vs) v = InArray (v # vs)"
| "attach (InKey ms) v = AtColon ms (case v of JStr k \<Rightarrow> k | _ \<Rightarrow> [])"
| "attach (InMember ms k) v = AfterMember ((k, v) # ms)"
| "attach (AtColon ms k) v = AtColon ms k"
| "attach (AfterMember ms) v = AfterMember ms"

fun deliver :: "json \<Rightarrow> frame list \<Rightarrow> scanner" where
  "deliver v [] = (EndTop v, [])"
| "deliver v (f # fs) = (EndValue, attach f v # fs)"

definition push :: "mode \<Rightarrow> frame \<Rightarrow> frame list \<Rightarrow> scanner option" where
  "push m f fs = (if Suc (length fs) \<le> maxNestingDepth then Some (m, f # fs) else None)"

text \<open>\<open>stateEndValue\<close> and \<open>stateEndTop\<close>.\<close>

fun end_step :: "scanner \<Rightarrow> char \<Rightarrow> scanner option" where
  "end_step (EndTop v, fs) c = (if is_space c then Some (EndTop v, fs) else None)"
| "end_step (EndValue, f # fs) c =
     (if is_space c then Some (EndValue, f # fs)
      else case f of
        AtColon ms k \<Rightarrow> if c = CHR '':'' then Some (BeginValue, InMember ms k # fs) else None
      | AfterMember ms \<Rightarrow>
          if c = CHR '','' then Some (BeginString, InKey ms # fs)
          else if c = CHR ''}'' then Some (deliver (JObj (rev ms)) fs) else None
      | InArray vs \<Rightarrow>
          if c = CHR '','' then Some (BeginValue, f # fs)
          else if c = CHR '']'' then Some (deliver (JArr (rev vs)) fs) else None
      | _ \<Rightarrow> None)"
| "end_step _ c = None"

text \<open>\<open>stateBeginValue\<close>.\<close>

definition begin_value :: "frame list \<Rightarrow> char \<Rightarrow> scanner option" where
  "begin_value fs c =
     (if is_space c then Some (BeginValue, fs)
      else if c = CHR ''{'' then push BeginStringOrEmpty (InKey []) fs
      else if c = CHR ''['' then push BeginValueOrEmpty (InArray []) fs
      else if c = CHR 0x22 then Some (InString [], fs)
      else if c = CHR ''-'' then Some (Neg [c], fs)
      else if c = CHR ''0'' then Some (State0 [c], fs)
      else if c = CHR ''t'' then Some (Literal ''rue'' (JBool True), fs)
      else if c = CHR ''f'' then Some (Literal ''alse'' (JBool False), fs)
      else if c = CHR ''n'' then Some (Literal ''ull'' JNull, fs)
      else if is_digit c then Some (State1 [c], fs)
      else None)"

definition begin_string :: "frame list \<Rightarrow> char \<Rightarrow> scanner option" where
  "begin_string fs c =
     (if is_space c then Some (BeginString, fs)
      else if c = CHR 0x22 then Some (InString [], fs)
      else None)"

definition end_number :: "string \<Rightarrow> frame list \<Rightarrow> char \<Rightarrow> scanner option" where
  "end_number acc fs c = end_step (deliver (JNum (rev acc)) fs) c"

definition state0 :: "string \<Rightarrow> frame list \<Rightarrow> char \<Rightarrow> scanner option" where
  "state0 acc fs c =
     (if c = CHR ''.'' then Some (Dot (c # acc), fs)
      else if c = CHR ''e'' \<or> c = CHR ''E'' then Some (StateE (c # acc), fs)
      else end_number acc fs c)"

fun scan_step :: "scanner \<Rightarrow> char \<Rightarrow> scanner option" where
  "scan_step (BeginValueOrEmpty, fs) c =
     (if is_space c then Some (BeginValueOrEmpty, fs)
      else if c = CHR '']'' then end_step (EndValue, fs) c
      else begin_value fs c)"
| "scan_step (BeginValue, fs) c = begin_value fs c"
| "scan_step (BeginStringOrEmpty, fs) c =
     (if is_space c then Some (BeginStringOrEmpty, fs)
      else if c = CHR ''}'' then
        (case fs of InKey ms # fs' \<Rightarrow> end_step (EndValue, AfterMember ms # fs') c | _ \<Rightarrow> None)
      else begin_string fs c)"
| "scan_step (BeginString, fs) c = begin_string fs c"
| "scan_step (EndValue, fs) c = end_step (EndValue, fs) c"
| "scan_step (EndTop v, fs) c = end_step (EndTop v, fs) c"
| "scan_step (InString acc, fs) c =
     (if c = CHR 0x22 then Some (deliver (JStr (unquote (rev acc))) fs)
      else if c = CHR 0x5C then Some (InStringEsc (c # acc), fs)
      else if byte c < 32 then None
      else Some (InString (c # acc), fs))"
| "scan_step (InStringEsc acc, fs) c =
     (if c \<in> {CHR ''b'', CHR ''f'', CHR ''n'', CHR ''r'', CHR ''t'', CHR 0x5C, CHR ''/'', CHR 0x22}
      then Some (InString (c # acc), fs)
      else if c = CHR ''u'' then Some (InStringEscU 4 (c # acc), fs)
      else None)"
| "scan_step (InStringEscU n acc, fs) c =
     (if hex_val c = None then None
      else if n \<le> 1 then Some (InString (c # acc), fs)
      else Some (InStringEscU (n - 1) (c # acc), fs))"
| "scan_step (Neg acc, fs) c =
     (if c = CHR ''0'' then Some (State0 (c # acc), fs)
      else if is_digit c then Some (State1 (c # acc), fs) else None)"
| "scan_step (State1 acc, fs) c =
     (if is_digit c then Some (State1 (c # acc), fs) else state0 acc fs c)"
| "scan_step (State0 acc, fs) c = state0 acc fs c"
| "scan_step (Dot acc, fs) c = (if is_digit c then Some (Dot0 (c # acc), fs) else None)"
| "scan_step (Dot0 acc, fs) c =
     (if is_digit c then Some (Dot0 (c # acc), fs)
      else if c = CHR ''e'' \<or> c = CHR ''E'' then Some (StateE (c # acc), fs)
      else end_number acc fs c)"
| "scan_step (StateE acc, fs) c =
     (if c = CHR ''+'' \<or> c = CHR ''-'' then Some (ESign (c # acc), fs)
      else if is_digit c then Some (E0 (c # acc), fs) else None)"
| "scan_step (ESign acc, fs) c = (if is_digit c then Some (E0 (c # acc), fs) else None)"
| "scan_step (E0 acc, fs) c =
     (if is_digit c then Some (E0 (c # acc), fs) else end_number acc fs c)"
| "scan_step (Literal [] v, fs) c = None"
| "scan_step (Literal (l # ls) v, fs) c =
     (if c \<noteq> l then None
      else if ls = [] then Some (deliver v fs) else Some (Literal ls v, fs))"

fun scan :: "scanner \<Rightarrow> string \<Rightarrow> scanner option" where
  "scan st [] = Some st"
| "scan st (c # cs) = (case scan_step st c of None \<Rightarrow> None | Some st' \<Rightarrow> scan st' cs)"

text \<open>
  \<open>checkValid\<close> followed by the decoder's walk: the document of an accepted text. At the end of the
  input the scanner takes one more step on a blank, which closes a number.
\<close>

definition json_parse :: "string \<Rightarrow> json option" where
  "json_parse s =
     (case scan (BeginValue, []) s of
        None \<Rightarrow> None
      | Some st \<Rightarrow> (case scan_step st (CHR '' '') of Some (EndTop v, _) \<Rightarrow> Some v | _ \<Rightarrow> None))"

section \<open>Decoding into Go values\<close>

text \<open>
  \<open>Unmarshal\<close> into a field that holds \<open>old\<close>: \<open>null\<close> leaves it, a value of the wrong kind is an
  error. The decoder goes on after such an error and reports it in the end; every caller in the
  program drops the value then, so the error alone is the result.
\<close>

definition decode_string :: "json \<Rightarrow> string \<Rightarrow> string option" where
  "decode_string j old = (case j of JStr s \<Rightarrow> Some s | JNull \<Rightarrow> Some old | _ \<Rightarrow> None)"

definition decode_int :: "nat \<Rightarrow> json \<Rightarrow> int \<Rightarrow> int option" where
  "decode_int bits j old = (case j of JNum t \<Rightarrow> ParseInt bits t | JNull \<Rightarrow> Some old | _ \<Rightarrow> None)"

text \<open>
  \<open>json.Unmarshal\<close> into structs and slices: the members of an object are decoded one after the other
  into the field they name, unknown names are skipped, the elements of an array are decoded into the
  elements the slice already has, then into zero values.
\<close>

fun decode_members :: "(string \<Rightarrow> json \<Rightarrow> 'r \<Rightarrow> 'r option) \<Rightarrow> (string \<times> json) list \<Rightarrow> 'r \<Rightarrow> 'r option" where
  "decode_members f [] r = Some r"
| "decode_members f ((k, v) # ms) r = (case f k v r of None \<Rightarrow> None | Some r' \<Rightarrow> decode_members f ms r')"

definition decode_struct :: "(string \<Rightarrow> json \<Rightarrow> 'r \<Rightarrow> 'r option) \<Rightarrow> json \<Rightarrow> 'r \<Rightarrow> 'r option" where
  "decode_struct f j r = (case j of JObj ms \<Rightarrow> decode_members f ms r | JNull \<Rightarrow> Some r | _ \<Rightarrow> None)"

fun decode_elems :: "(json \<Rightarrow> 'e \<Rightarrow> 'e option) \<Rightarrow> 'e \<Rightarrow> json list \<Rightarrow> 'e list \<Rightarrow> 'e list option" where
  "decode_elems dec zero [] old = Some []"
| "decode_elems dec zero (j # js) old =
     (case dec j (case old of [] \<Rightarrow> zero | e # _ \<Rightarrow> e) of
        None \<Rightarrow> None
      | Some e \<Rightarrow> (case decode_elems dec zero js (tl old) of None \<Rightarrow> None | Some es \<Rightarrow> Some (e # es)))"

definition decode_slice :: "(json \<Rightarrow> 'e \<Rightarrow> 'e option) \<Rightarrow> 'e \<Rightarrow> json \<Rightarrow> 'e list \<Rightarrow> 'e list option" where
  "decode_slice dec zero j old =
     (case j of JArr js \<Rightarrow> decode_elems dec zero js old | JNull \<Rightarrow> Some [] | _ \<Rightarrow> None)"

text \<open>
  \<open>foldName\<close>: keys are matched to field names without regard to case, under Unicode simple folding;
  \<open>U+017F\<close> folds to \<open>S\<close> and \<open>U+212A\<close> to \<open>K\<close>, the only other runes that fold into ASCII.
\<close>

fun fold_name :: "string \<Rightarrow> string" where
  "fold_name [] = []"
| "fold_name (a # r) =
     (if 97 \<le> byte a \<and> byte a \<le> 122 then char_of (byte a - 32) # fold_name r
      else if byte a = 197 \<and> r \<noteq> [] \<and> byte (hd r) = 191 then CHR ''S'' # fold_name (tl r)
      else if byte a = 226 \<and> 2 \<le> length r \<and> byte (hd r) = 132 \<and> byte (hd (tl r)) = 170
        then CHR ''K'' # fold_name (tl (tl r))
      else a # fold_name r)"

definition key_matches :: "string \<Rightarrow> string \<Rightarrow> bool" where
  "key_matches field key \<longleftrightarrow> fold_name key = fold_name field"

section \<open>Decoding lemmas\<close>

lemma decode_elems_fresh:
  "decode_elems dec zero js [] = those (map (\<lambda>j. dec j zero) js)"
  by (induction js) (auto split: option.splits)

text \<open>Decoding an object fails exactly on a member that its field refuses, and skips members of no field.\<close>

lemma decode_members_None:
  assumes "\<And>k v r. f k v r = None \<longleftrightarrow> \<not> good k v"
  shows "decode_members f ms r = None \<longleftrightarrow> (\<exists>(k, v) \<in> set ms. \<not> good k v)"
proof (induction ms arbitrary: r)
  case (Cons m ms)
  obtain k v where m: "m = (k, v)" by fastforce
  show ?case using Cons assms [of k v r] by (cases "f k v r") (auto simp: m)
qed simp

lemma decode_members_skip:
  assumes "\<And>k v r. \<not> known k \<Longrightarrow> f k v r = Some r"
  shows "decode_members f (filter (\<lambda>(k, v). known k) ms) r = decode_members f ms r"
proof (induction ms arbitrary: r)
  case (Cons m ms)
  obtain k v where m: "m = (k, v)" by fastforce
  show ?case using Cons assms [of k v r] by (cases "f k v r") (auto simp: m)
qed simp

lemma decode_elems_None:
  assumes "\<And>j e. dec j e = None \<longleftrightarrow> \<not> good j"
  shows "decode_elems dec zero js old = None \<longleftrightarrow> (\<exists>j \<in> set js. \<not> good j)"
  by (induction js arbitrary: old) (auto simp: assms split: option.splits, (metis assms not_None_eq)+)

lemma key_matches_self [simp]: "key_matches f f"
  by (simp add: key_matches_def)

lemma those_map_Some: "(\<And>x. x \<in> set xs \<Longrightarrow> f x = Some (g x)) \<Longrightarrow> those (map f xs) = Some (map g xs)"
  by (induction xs) auto

section \<open>What is printed is read back\<close>

lemma scan_append: "scan st (s @ t) = (case scan st s of None \<Rightarrow> None | Some st' \<Rightarrow> scan st' t)"
  by (induction s arbitrary: st) (auto split: option.splits)

text \<open>Well-formed UTF-8 text, the strings that survive \<open>encoding/json\<close> unchanged.\<close>

fun valid_utf8 :: "string \<Rightarrow> bool" where
  "valid_utf8 [] = True"
| "valid_utf8 (a # r) =
     (let n = rune_len (a # r) in 0 < n \<and> valid_utf8 (drop (n - 1) r))"

definition ascii :: "string \<Rightarrow> bool" where
  "ascii s \<longleftrightarrow> list_all (\<lambda>c. byte c < 128) s"

lemma rune_len_ascii: "byte a < 128 \<Longrightarrow> rune_len (a # r) = 1"
  by (simp add: rune_len.simps)

lemma ascii_valid_utf8: "ascii s \<Longrightarrow> valid_utf8 s"
  by (induction s) (simp_all add: ascii_def rune_len_ascii)

lemma seq_prefix:
  "seq2 a r \<Longrightarrow> \<exists>b r'. r = b # r' \<and> is_cont b \<and> (\<forall>t. seq2 a (b # t))"
  "seq3 a r \<Longrightarrow> \<exists>b c r'. r = b # c # r' \<and> is_cont b \<and> is_cont c \<and> (\<forall>t. seq3 a (b # c # t))"
  "seq4 a r \<Longrightarrow> \<exists>b c d r'. r = b # c # d # r' \<and> is_cont b \<and> is_cont c \<and> is_cont d \<and>
     (\<forall>t. seq4 a (b # c # d # t))"
  by (auto simp: seq2_def seq3_def seq4_def split: list.splits)

lemma seq_lead:
  "seq2 a r \<Longrightarrow> byte a \<le> 223" "seq3 a r \<Longrightarrow> 224 \<le> byte a \<and> byte a \<le> 239" "seq4 a r \<Longrightarrow> 240 \<le> byte a"
  by (auto simp: seq2_def seq3_def seq4_def split: list.splits)

lemma rune_len_multi:
  assumes pos: "0 < rune_len (a # r)" and multi: "\<not> byte a < 128"
  shows "list_all is_cont (take (rune_len (a # r) - 1) r) \<and>
    rune_len (a # take (rune_len (a # r) - 1) r @ t) = rune_len (a # r)"
proof -
  consider "seq2 a r" | "\<not> seq2 a r" "seq3 a r" | "\<not> seq2 a r" "\<not> seq3 a r" "seq4 a r"
    using pos multi by (auto simp: rune_len.simps split: if_splits)
  then show ?thesis
  proof cases
    case 1
    with multi seq_prefix(1) [of a r] show ?thesis by (auto simp: rune_len.simps)
  next
    case 2
    then have "\<not> seq2 a u" for u using seq_lead by fastforce
    with 2 multi seq_prefix(2) [of a r] show ?thesis by (auto simp: rune_len.simps numeral_2_eq_2)
  next
    case 3
    then have "\<not> seq2 a u" "\<not> seq3 a u" for u using seq_lead by fastforce+
    with 3 multi seq_prefix(3) [of a r] show ?thesis by (auto simp: rune_len.simps numeral_3_eq_3)
  qed
qed

lemma is_cont_byte: "is_cont c \<Longrightarrow> 128 \<le> byte c"
  by (simp add: is_cont_def)

lemma byte_eq_iff [simp]: "byte c = byte d \<longleftrightarrow> c = d"
  by (simp add: byte_def)

lemma escape_ascii_cases:
  assumes "byte c < 128"
  obtains (short) e where "escape_ascii c = [CHR 0x5C, e]" "unescape_short e = [c]" "e \<noteq> CHR ''u''"
      "e \<in> {CHR ''b'', CHR ''f'', CHR ''n'', CHR ''r'', CHR ''t'', CHR 0x5C, CHR ''/'', CHR 0x22}"
  | (code) h l where
      "escape_ascii c = [CHR 0x5C, CHR ''u'', CHR ''0'', CHR ''0'', hex_digit h, hex_digit l]"
      "h < 16" "l < 16" "byte c = 16 * h + l"
  | (plain) "escape_ascii c = [c]" "c \<noteq> CHR 0x5C" "c \<noteq> CHR 0x22" "32 \<le> byte c"
proof -
  have b: "byte c = 8 \<longleftrightarrow> c = CHR 0x08" "byte c = 12 \<longleftrightarrow> c = CHR 0x0C" "byte c = 10 \<longleftrightarrow> c = CHR 0x0A"
    "byte c = 13 \<longleftrightarrow> c = CHR 0x0D" "byte c = 9 \<longleftrightarrow> c = CHR 0x09"
    using byte_eq_iff [of c "CHR 0x08"] byte_eq_iff [of c "CHR 0x0C"] byte_eq_iff [of c "CHR 0x0A"]
      byte_eq_iff [of c "CHR 0x0D"] byte_eq_iff [of c "CHR 0x09"] by (simp_all add: byte_def)
  let ?code = "byte c < 32 \<or> c = CHR ''<'' \<or> c = CHR ''>'' \<or> c = CHR ''&''"
  consider "c = CHR 0x22" | "c = CHR 0x5C" | "c = CHR 0x08" | "c = CHR 0x0C" | "c = CHR 0x0A"
    | "c = CHR 0x0D" | "c = CHR 0x09"
    | (c) "c \<noteq> CHR 0x22" "c \<noteq> CHR 0x5C" "c \<noteq> CHR 0x08" "c \<noteq> CHR 0x0C" "c \<noteq> CHR 0x0A"
      "c \<noteq> CHR 0x0D" "c \<noteq> CHR 0x09" "?code"
    | (p) "c \<noteq> CHR 0x22" "c \<noteq> CHR 0x5C" "c \<noteq> CHR 0x08" "c \<noteq> CHR 0x0C" "c \<noteq> CHR 0x0A"
      "c \<noteq> CHR 0x0D" "c \<noteq> CHR 0x09" "\<not> ?code"
    by metis
  then show thesis
  proof cases
    case c
    then have "escape_ascii c = [CHR 0x5C, CHR ''u'', CHR ''0'', CHR ''0'',
        hex_digit (byte c div 16), hex_digit (byte c mod 16)]"
      by (simp only: escape_ascii_def b simp_thms if_False if_True)
    then show ?thesis by (rule code) (use assms in simp_all)
  next
    case p
    then have "escape_ascii c = [c]"
      by (simp only: escape_ascii_def b simp_thms if_False)
    with p show ?thesis by (intro plain) simp_all
  qed (rule short [of "last (escape_ascii c)"]; simp add: escape_ascii_def unescape_short_def byte_def)+
qed

lemma hex_val_digit: "d < 16 \<Longrightarrow> hex_val (hex_digit d) = Some d"
  by (auto simp: hex_val_def hex_digit_def byte_def)

lemma hex_val_zero [simp]: "hex_val (CHR ''0'') = Some 0"
  by (simp add: hex_val_def byte_def)

lemma scan_escape_ascii:
  assumes "byte c < 128"
  shows "scan (InString acc, fs) (escape_ascii c) = Some (InString (rev (escape_ascii c) @ acc), fs)"
  using assms
proof (cases rule: escape_ascii_cases)
  case (short e)
  then show ?thesis by auto
next
  case (code h l)
  then show ?thesis by (simp add: hex_val_digit numeral_eq_Suc)
next
  case plain
  then show ?thesis by simp
qed

lemma encode_rune_byte: "byte c < 128 \<Longrightarrow> encode_rune (byte c) = [c]"
  by (simp add: encode_rune_def byte_def)

lemma unquote_escape_ascii:
  assumes "byte c < 128"
  shows "unquote (escape_ascii c @ t) = c # unquote t"
  using assms
proof (cases rule: escape_ascii_cases)
  case (short e)
  then show ?thesis by (simp add: unquote.simps [of "CHR 0x5C # e # t"])
next
  case (code h l)
  have nosur: "\<not> is_high_surrogate (16 * h + l)" "\<not> is_low_surrogate (16 * h + l)"
    using code by (simp_all add: is_high_surrogate_def is_low_surrogate_def)
  show ?thesis
    using code nosur assms encode_rune_byte [of c]
    by (simp add: unquote.simps [of "CHR 0x5C # CHR ''u'' # _"] hex_val_digit)
next
  case plain
  then show ?thesis using assms by (simp add: unquote.simps [of "c # t"])
qed

lemma scan_plain:
  "list_all (\<lambda>c. 128 \<le> byte c) s \<Longrightarrow> scan (InString acc, fs) s = Some (InString (rev s @ acc), fs)"
proof (induction s arbitrary: acc)
  case (Cons c s)
  then have "c \<noteq> CHR 0x22" "c \<noteq> CHR 0x5C" by (auto simp: byte_def)
  with Cons show ?case by simp
qed simp

lemma escape_bytes_ascii:
  "byte a < 128 \<Longrightarrow> escape_bytes (a # r) = escape_ascii a @ escape_bytes r"
  by (simp add: escape_bytes.simps)

lemma escape_bytes_Nil [simp]: "escape_bytes [] = []"
  by (simp add: escape_bytes.simps)

lemma rune_len_le: "rune_len (a # r) \<le> Suc (length r)"
  using seq_prefix [of a r] by (auto simp: rune_len.simps)

lemma escape_bytes_multi:
  assumes "\<not> byte a < 128" "0 < rune_len (a # r)"
  obtains p where "escape_bytes (a # r) = p @ escape_bytes (drop (rune_len (a # r) - 1) r)"
    and "\<And>acc fs. scan (InString acc, fs) p = Some (InString (rev p @ acc), fs)"
    and "\<And>t. unquote (p @ t) = a # take (rune_len (a # r) - 1) r @ unquote t"
proof -
  let ?n = "rune_len (a # r) - 1"
  note multi = rune_len_multi [OF assms(2,1)]
  have len: "length (take ?n r) = ?n" using rune_len_le [of a r] by simp
  consider "a # take ?n r = encode_rune 8232"
    | "a # take ?n r = encode_rune 8233" "a # take ?n r \<noteq> encode_rune 8232"
    | "a # take ?n r \<noteq> encode_rune 8232" "a # take ?n r \<noteq> encode_rune 8233" by blast
  then show thesis
  proof cases
    case 1
    then show ?thesis using assms
      by (intro that [of "CHR 0x5C # ''u2028''"])
        (simp_all add: escape_bytes.simps Let_def hex_val_def byte_def is_high_surrogate_def is_low_surrogate_def
          unquote.simps [of "CHR 0x5C # CHR ''u'' # _"])
  next
    case 2
    then show ?thesis using assms
      by (intro that [of "CHR 0x5C # ''u2029''"])
        (simp_all add: escape_bytes.simps Let_def hex_val_def byte_def is_high_surrogate_def is_low_surrogate_def
          unquote.simps [of "CHR 0x5C # CHR ''u'' # _"])
  next
    case 3
    have "list_all (\<lambda>c. 128 \<le> byte c) (a # take ?n r)"
      using multi assms(1) by (auto simp: list_all_iff is_cont_byte)
    moreover have "unquote ((a # take ?n r) @ t) = a # take ?n r @ unquote t" for t
    proof -
      have "a \<noteq> CHR 0x5C" using assms(1) by (auto simp: byte_def)
      moreover have "rune_len (a # take ?n r @ t) = rune_len (a # r)" using multi by blast
      ultimately show ?thesis
        using assms len by (simp add: unquote.simps [of "a # take ?n r @ t"] del: One_nat_def)
    qed
    moreover have "escape_bytes (a # r) = (a # take ?n r) @ escape_bytes (drop ?n r)"
      using assms 3 by (simp add: escape_bytes.simps Let_def)
    ultimately show ?thesis using scan_plain by (intro that [of "a # take ?n r"]) blast+
  qed
qed

text \<open>The two halves of the string round trip: the scanner accepts the escapes, unquoting undoes them.\<close>

lemma escape_bytes_valid:
  assumes "valid_utf8 s"
  shows "scan (InString acc, fs) (escape_bytes s) = Some (InString (rev (escape_bytes s) @ acc), fs)
    \<and> unquote (escape_bytes s) = s"
  using assms
proof (induction s arbitrary: acc rule: valid_utf8.induct)
  case 1
  then show ?case by (simp add: unquote.simps [of "[]"])
next
  case (2 a r)
  show ?case
  proof (cases "byte a < 128")
    case True
    with 2 show ?thesis
      by (simp add: rune_len_ascii escape_bytes_ascii scan_append scan_escape_ascii
        unquote_escape_ascii)
  next
    case False
    with "2.prems" have pos: "0 < rune_len (a # r)" by (simp add: Let_def)
    from escape_bytes_multi [OF False pos] obtain p where
      p: "escape_bytes (a # r) = p @ escape_bytes (drop (rune_len (a # r) - 1) r)"
        "\<And>acc fs. scan (InString acc, fs) p = Some (InString (rev p @ acc), fs)"
        "\<And>t. unquote (p @ t) = a # take (rune_len (a # r) - 1) r @ unquote t" by blast
    from 2 have IH: "scan (InString (rev p @ acc), fs) (escape_bytes (drop (rune_len (a # r) - 1) r)) =
        Some (InString (rev (escape_bytes (drop (rune_len (a # r) - 1) r)) @ rev p @ acc), fs)"
      "unquote (escape_bytes (drop (rune_len (a # r) - 1) r)) = drop (rune_len (a # r) - 1) r"
      by (simp_all add: Let_def)
    show ?thesis by (simp add: p(1) scan_append p(2,3) IH del: One_nat_def)
  qed
qed

lemma scan_quote:
  assumes "valid_utf8 s"
  shows "scan (InString [], fs) (escape_bytes s @ [CHR 0x22]) = Some (deliver (JStr s) fs)"
  using escape_bytes_valid [OF assms, of "[]" fs] by (simp add: scan_append)

section \<open>Printing documents\<close>

text \<open>
  The compact form \<open>json.Marshal\<close> writes: no blanks, members in order, numbers as their text.
\<close>

fun commas :: "string list \<Rightarrow> string" where
  "commas [] = []"
| "commas [s] = s"
| "commas (s # t # ts) = s @ [CHR '',''] @ commas (t # ts)"

fun print_json :: "json \<Rightarrow> string" where
  "print_json JNull = ''null''"
| "print_json (JBool b) = (if b then ''true'' else ''false'')"
| "print_json (JNum t) = t"
| "print_json (JStr s) = quote s"
| "print_json (JArr js) = [CHR ''[''] @ commas (map print_json js) @ [CHR '']'']"
| "print_json (JObj ms) =
     [CHR ''{''] @ commas (map (\<lambda>m. quote (fst m) @ [CHR '':''] @ print_json (snd m)) ms) @ [CHR ''}'']"

fun json_depth :: "json \<Rightarrow> nat" where
  "json_depth (JArr js) = Suc (foldr max (map json_depth js) 0)"
| "json_depth (JObj ms) = Suc (foldr max (map (\<lambda>m. json_depth (snd m)) ms) 0)"
| "json_depth _ = 0"

text \<open>Documents whose strings are UTF-8 and whose numbers are decimal integers.\<close>

fun printable :: "json \<Rightarrow> bool" where
  "printable (JNum t) = (\<exists>z. t = Itoa z)"
| "printable (JStr s) = valid_utf8 s"
| "printable (JArr js) = list_all printable js"
| "printable (JObj ms) = list_all (\<lambda>m. valid_utf8 (fst m) \<and> printable (snd m)) ms"
| "printable _ = True"

text \<open>
  The text \<open>s\<close> reads as the value \<open>j\<close> inside the levels \<open>fs\<close>: the scanner accepts it, and what
  follows is handled as after a finished \<open>j\<close> (a number is only finished by what follows it).
\<close>

definition delim :: "char \<Rightarrow> bool" where
  "delim c \<longleftrightarrow> c \<in> {CHR '','', CHR '']'', CHR ''}'', CHR '' '', CHR 0x0A}"

definition ends_as :: "scanner \<Rightarrow> scanner \<Rightarrow> bool" where
  "ends_as st d \<longleftrightarrow> (\<forall>c. delim c \<longrightarrow> scan_step st c = end_step d c)"

definition reads :: "frame list \<Rightarrow> string \<Rightarrow> json \<Rightarrow> bool" where
  "reads fs s j \<longleftrightarrow> (\<exists>st. scan (BeginValue, fs) s = Some st \<and> ends_as st (deliver j fs))"

lemma scan_step_deliver: "ends_as (deliver j fs) (deliver j fs)"
  by (cases fs) (simp_all add: ends_as_def)

lemma scan_step_EndValue: "ends_as (EndValue, fs) (EndValue, fs)"
  by (simp add: ends_as_def)

lemma reads_deliver: "scan (BeginValue, fs) s = Some (deliver j fs) \<Longrightarrow> reads fs s j"
  using scan_step_deliver by (auto simp: reads_def)

lemma reads_literal:
  "reads fs ''null'' JNull" "reads fs ''true'' (JBool True)" "reads fs ''false'' (JBool False)"
  by (rule reads_deliver, simp add: begin_value_def is_space_def)+

lemma reads_quote: "valid_utf8 s \<Longrightarrow> reads fs (quote s) (JStr s)"
  by (rule reads_deliver) (simp add: quote_def begin_value_def is_space_def scan_quote)

lemma scan_digits:
  "list_all is_digit ds \<Longrightarrow> scan (State1 acc, fs) ds = Some (State1 (rev ds @ acc), fs)"
  by (induction ds arbitrary: acc) auto

lemma digit_no_other: "is_digit c \<Longrightarrow> c \<notin> {CHR '' '', CHR 0x09, CHR 0x0D, CHR 0x0A, CHR ''{'', CHR ''['', CHR 0x22,
    CHR ''-'', CHR ''t'', CHR ''f'', CHR ''n'', CHR '']''}"
  by (auto simp: is_digit_def)

lemma delim_ends: "delim c \<Longrightarrow> \<not> is_digit c \<and> c \<noteq> CHR ''.'' \<and> c \<noteq> CHR ''e'' \<and> c \<noteq> CHR ''E''"
  by (auto simp: delim_def is_digit_def)

lemma ends_as_number:
  "ends_as (State0 acc, fs) (deliver (JNum (rev acc)) fs)"
  "ends_as (State1 acc, fs) (deliver (JNum (rev acc)) fs)"
  using delim_ends by (simp_all add: ends_as_def state0_def end_number_def)

text \<open>A natural number after the digits read before it, from either place a number can start.\<close>

lemma scan_nat_text:
  assumes "\<And>c. is_digit c \<Longrightarrow>
      scan_step (m, fs) c = (if c = CHR ''0'' then Some (State0 (c # acc), fs) else Some (State1 (c # acc), fs))"
  shows "\<exists>st. scan (m, fs) (nat_text n) = Some st \<and> ends_as st (deliver (JNum (rev acc @ nat_text n)) fs)"
proof (cases "n = 0")
  case True
  have "is_digit (CHR ''0'')" by (simp add: is_digit_def)
  with True assms ends_as_number(1) [of "CHR ''0'' # acc" fs] show ?thesis by simp
next
  case False
  then obtain d where d: "0 < d" "d < 10" "hd (nat_text n) = digit_char d" using nat_text_hd by auto
  obtain ds where ds: "nat_text n = digit_char d # ds"
    by (metis d(3) list.collapse nat_text_nonempty)
  have "digit_char d \<noteq> CHR ''0''"
    using digit_char_props(2) [OF d(2)] d(1) by (auto simp: digit_val_def)
  moreover have "list_all is_digit ds" using nat_text_digits [of n] by (simp add: ds)
  ultimately show ?thesis
    using assms [of "digit_char d"] d ends_as_number(2) [of "rev ds @ digit_char d # acc" fs]
    by (simp add: ds scan_digits)
qed

lemma reads_Itoa: "reads fs (Itoa z) (JNum (Itoa z))"
proof (cases "z < 0")
  case True
  have "\<exists>st. scan (Neg [CHR ''-''], fs) (nat_text (nat (- z))) = Some st \<and>
      ends_as st (deliver (JNum (rev [CHR ''-''] @ nat_text (nat (- z)))) fs)"
    by (rule scan_nat_text) simp
  with True show ?thesis by (auto simp: reads_def Itoa_def begin_value_def is_space_def)
next
  case False
  have "\<exists>st. scan (BeginValue, fs) (nat_text (nat z)) = Some st \<and>
      ends_as st (deliver (JNum (rev [] @ nat_text (nat z))) fs)"
  proof (rule scan_nat_text)
    fix c assume "is_digit c"
    with digit_no_other [OF this]
    show "scan_step (BeginValue, fs) c = (if c = CHR ''0'' then Some (State0 [c], fs) else Some (State1 [c], fs))"
      by (simp add: begin_value_def is_space_def)
  qed
  with False show ?thesis by (auto simp: reads_def Itoa_def)
qed

lemma commas_Cons: "ts \<noteq> [] \<Longrightarrow> commas (s # ts) = s @ [CHR '',''] @ commas ts"
  by (cases ts) simp_all

lemma scan_comma:
  assumes "scan st0 s = Some st" "scan_step st (CHR '','') = Some st'"
  shows "scan st0 (s @ [CHR '',''] @ t) = scan st' t"
  using assms by (simp add: scan_append)

text \<open>The elements of an array, and the members of an object, separated by commas.\<close>

lemma scan_elements:
  assumes "js \<noteq> []" and "\<And>j vs. j \<in> set js \<Longrightarrow> reads (InArray vs # fs) (p j) j"
  shows "\<exists>st. scan (BeginValue, InArray vs # fs) (commas (map p js)) = Some st \<and>
    ends_as st (EndValue, InArray (rev js @ vs) # fs)"
  using assms
proof (induction js arbitrary: vs rule: list_nonempty_induct)
  case (single j)
  then show ?case by (fastforce simp: reads_def)
next
  case (cons j js)
  then obtain st where st: "scan (BeginValue, InArray vs # fs) (p j) = Some st"
      "ends_as st (EndValue, InArray (j # vs) # fs)"
    by (fastforce simp: reads_def)
  then have "scan_step st (CHR '','') = Some (BeginValue, InArray (j # vs) # fs)"
    by (simp add: ends_as_def delim_def is_space_def)
  note step = scan_comma [OF st(1) this]
  have "commas (map p (j # js)) = p j @ [CHR '',''] @ commas (map p js)"
    using cons.hyps by (simp add: commas_Cons)
  moreover have "\<exists>st. scan (BeginValue, InArray (j # vs) # fs) (commas (map p js)) = Some st \<and>
      ends_as st (EndValue, InArray (rev js @ j # vs) # fs)"
    using cons.prems by (intro cons.IH) simp
  ultimately show ?case using step by simp
qed

lemma scan_members:
  assumes "ms \<noteq> []"
    and "\<And>k v acc. (k, v) \<in> set ms \<Longrightarrow> valid_utf8 k \<and> reads (InMember acc k # fs) (p v) v"
  shows "\<exists>st. scan (BeginString, InKey acc # fs)
      (commas (map (\<lambda>m. quote (fst m) @ [CHR '':''] @ p (snd m)) ms)) = Some st \<and>
    ends_as st (EndValue, AfterMember (rev ms @ acc) # fs)"
proof -
  have member: "\<exists>st. scan (BeginString, InKey acc # fs) (quote k @ [CHR '':''] @ p v) = Some st \<and>
      ends_as st (EndValue, AfterMember ((k, v) # acc) # fs)"
    if "(k, v) \<in> set ms" for k v acc
  proof -
    have "scan (BeginString, InKey acc # fs) (quote k) = Some (EndValue, AtColon acc k # fs)"
      using assms(2) [OF that] by (simp add: quote_def begin_string_def is_space_def scan_quote)
    with assms(2) [OF that, of acc] show ?thesis
      by (auto simp: scan_append is_space_def reads_def)
  qed
  show ?thesis
    using assms(1) member
  proof (induction ms arbitrary: acc rule: list_nonempty_induct)
    case (single m)
    then show ?case by (cases m) auto
  next
    case (cons m ms)
    obtain k v where m: "m = (k, v)" by fastforce
    have "(k, v) \<in> set (m # ms)" by (simp add: m)
    from cons.prems [OF this] obtain st where st:
        "scan (BeginString, InKey acc # fs) (quote k @ [CHR '':''] @ p v) = Some st"
        "ends_as st (EndValue, AfterMember ((k, v) # acc) # fs)"
      by blast
    then have "scan_step st (CHR '','') = Some (BeginString, InKey ((k, v) # acc) # fs)"
      by (simp add: ends_as_def delim_def is_space_def)
    note step = scan_comma [OF st(1) this]
    have "commas (map (\<lambda>m. quote (fst m) @ [CHR '':''] @ p (snd m)) (m # ms)) =
        (quote k @ [CHR '':''] @ p v) @ [CHR '',''] @
        commas (map (\<lambda>m. quote (fst m) @ [CHR '':''] @ p (snd m)) ms)"
      using cons.hyps by (simp add: commas_Cons m)
    moreover have "\<exists>st. scan (BeginString, InKey ((k, v) # acc) # fs)
          (commas (map (\<lambda>m. quote (fst m) @ [CHR '':''] @ p (snd m)) ms)) = Some st \<and>
        ends_as st (EndValue, AfterMember (rev ms @ (k, v) # acc) # fs)"
      using cons.prems by (intro cons.IH) (simp only: list.set_intros)
    ultimately show ?case using step by (simp add: m)
  qed
qed

lemma Itoa_start: "\<exists>c r. Itoa z = c # r \<and> (c = CHR ''-'' \<or> is_digit c)"
proof -
  obtain c r where "nat_text (nat z) = c # r" by (meson nat_text_nonempty list.exhaust)
  with nat_text_digits [of "nat z"] show ?thesis by (auto simp: Itoa_def)
qed

lemma number_start: "c = CHR ''-'' \<or> is_digit c \<Longrightarrow> \<not> is_space c \<and> c \<noteq> CHR '']''"
  by (auto simp: is_space_def is_digit_def)

lemma print_json_start:
  assumes "printable j"
  shows "\<exists>c r. print_json j = c # r \<and> \<not> is_space c \<and> c \<noteq> CHR '']''"
proof (cases j)
  case (JNum t)
  with assms obtain z where "t = Itoa z" by auto
  with JNum show ?thesis using Itoa_start [of z] number_start by fastforce
qed (auto simp: is_space_def quote_def)

lemma scan_array_start:
  assumes "js \<noteq> []" "list_all printable js"
  shows "scan (BeginValueOrEmpty, fs) (commas (map print_json js)) =
    scan (BeginValue, fs) (commas (map print_json js))"
proof -
  obtain j js' where js: "js = j # js'" using assms(1) by (cases js) auto
  with assms(2) print_json_start [of j] obtain c r where
    c: "print_json j = c # r" "\<not> is_space c" "c \<noteq> CHR '']''" by auto
  then have "\<exists>r'. commas (map print_json js) = c # r'"
    by (cases "js' = []") (simp_all add: js commas_Cons)
  with c show ?thesis by auto
qed

lemma scan_object_start:
  assumes "ms \<noteq> []"
  shows "scan (BeginStringOrEmpty, fs) (commas (map (\<lambda>m. quote (fst m) @ q m) ms)) =
    scan (BeginString, fs) (commas (map (\<lambda>m. quote (fst m) @ q m) ms))"
proof -
  obtain m ms' where ms: "ms = m # ms'" using assms by (cases ms) auto
  then have "\<exists>r. commas (map (\<lambda>m. quote (fst m) @ q m) ms) = CHR 0x22 # r"
    by (cases "ms' = []") (simp_all add: commas_Cons quote_def)
  then show ?thesis by (auto simp: begin_string_def is_space_def)
qed

lemma foldr_max_ge: "x \<in> set xs \<Longrightarrow> x \<le> foldr max xs (0 :: nat)"
  by (induction xs) auto

lemma reads_array:
  assumes "list_all printable js" "Suc (length fs) \<le> maxNestingDepth"
    and "\<And>j vs. j \<in> set js \<Longrightarrow> reads (InArray vs # fs) (print_json j) j"
  shows "reads fs (print_json (JArr js)) (JArr js)"
proof (rule reads_deliver, cases "js = []")
  case True
  with assms(2) show "scan (BeginValue, fs) (print_json (JArr js)) = Some (deliver (JArr js) fs)"
    by (simp add: begin_value_def push_def is_space_def)
next
  case False
  from scan_elements [OF this, of fs print_json "[]"] assms(3) obtain st where
    st: "scan (BeginValue, InArray [] # fs) (commas (map print_json js)) = Some st"
      "ends_as st (EndValue, InArray (rev js) # fs)" by auto
  then have "scan_step st (CHR '']'') = Some (deliver (JArr js) fs)"
    by (simp add: ends_as_def delim_def is_space_def)
  with st(1) scan_array_start [OF False assms(1)] assms(2)
  show "scan (BeginValue, fs) (print_json (JArr js)) = Some (deliver (JArr js) fs)"
    by (simp add: begin_value_def push_def is_space_def scan_append)
qed

lemma reads_object:
  assumes "Suc (length fs) \<le> maxNestingDepth"
    and "\<And>k v acc. (k, v) \<in> set ms \<Longrightarrow> valid_utf8 k \<and> reads (InMember acc k # fs) (print_json v) v"
  shows "reads fs (print_json (JObj ms)) (JObj ms)"
proof (rule reads_deliver, cases "ms = []")
  case True
  with assms(1) show "scan (BeginValue, fs) (print_json (JObj ms)) = Some (deliver (JObj ms) fs)"
    by (simp add: begin_value_def push_def is_space_def)
next
  case False
  let ?body = "commas (map (\<lambda>m. quote (fst m) @ [CHR '':''] @ print_json (snd m)) ms)"
  from scan_members [OF False, of fs print_json "[]"] assms(2) obtain st where
    st: "scan (BeginString, InKey [] # fs) ?body = Some st"
      "ends_as st (EndValue, AfterMember (rev ms) # fs)" by auto
  then have "scan_step st (CHR ''}'') = Some (deliver (JObj ms) fs)"
    by (simp add: ends_as_def delim_def is_space_def)
  moreover have "scan (BeginStringOrEmpty, InKey [] # fs) ?body = Some st"
    using st(1) by (simp only: scan_object_start [OF False])
  ultimately show "scan (BeginValue, fs) (print_json (JObj ms)) = Some (deliver (JObj ms) fs)"
    using assms(1) by (simp add: begin_value_def push_def is_space_def scan_append)
qed

lemma reads_print_json:
  "printable j \<Longrightarrow> json_depth j + length fs \<le> maxNestingDepth \<Longrightarrow> reads fs (print_json j) j"
proof (induction j arbitrary: fs rule: print_json.induct)
  case (5 js)
  have "reads (InArray vs # fs) (print_json j) j" if "j \<in> set js" for j vs
    using that "5.prems" foldr_max_ge [of "json_depth j" "map json_depth js"]
    by (intro "5.IH") (auto simp: list_all_iff)
  then show ?case using "5.prems" by (intro reads_array) simp_all
next
  case (6 ms)
  have "valid_utf8 k \<and> reads (InMember acc k # fs) (print_json v) v" if kv: "(k, v) \<in> set ms" for k v acc
  proof -
    have "json_depth v \<le> foldr max (map (\<lambda>m. json_depth (snd m)) ms) 0"
      using kv by (intro foldr_max_ge) force
    with kv "6.prems" have "reads (InMember acc k # fs) (print_json (snd (k, v))) (snd (k, v))"
      by (intro "6.IH" [OF kv]) (auto simp: list_all_iff)
    with kv "6.prems"(1) show ?thesis by (auto simp: list_all_iff)
  qed
  then show ?case using "6.prems"(2) by (intro reads_object) simp_all
qed (auto simp: reads_literal reads_quote reads_Itoa)

theorem json_parse_print:
  assumes "printable j" "json_depth j \<le> maxNestingDepth"
  shows "json_parse (print_json j) = Some j"
proof -
  from reads_print_json [OF assms(1), of "[]"] assms(2) obtain st where
    "scan (BeginValue, []) (print_json j) = Some st" "ends_as st (deliver j [])"
    by (auto simp: reads_def)
  then show ?thesis by (simp add: json_parse_def ends_as_def delim_def is_space_def)
qed

text \<open>\<open>Encoder.Encode\<close> ends the text with a newline, which changes nothing for the reader.\<close>

theorem json_parse_print_line:
  assumes "printable j" "json_depth j \<le> maxNestingDepth"
  shows "json_parse (print_json j @ [CHR 0x0A]) = Some j"
proof -
  from reads_print_json [OF assms(1), of "[]"] assms(2) obtain st where
    "scan (BeginValue, []) (print_json j) = Some st" "ends_as st (deliver j [])"
    by (auto simp: reads_def)
  then show ?thesis by (simp add: json_parse_def scan_append ends_as_def delim_def is_space_def)
qed

end
