(* ===== verification/Routing.thy ===== *)
theory Routing
  imports GoJson
begin

text \<open>
  \<open>internal/routing\<close>: the consistent-hash ring of \<open>consistenthash.go\<close> that maps a shard to a pod,
  and \<open>ParseShardMapJSON\<close> of \<open>shardmap.go\<close>, which reads the published shard map back.
\<close>

section \<open>The ring\<close>

record Ring =
  nodes :: "string list"

text \<open>\<open>sort.Strings\<close> orders byte-wise; equal strings are indistinguishable, so \<^const>\<open>sort\<close> is exact.\<close>

definition NewRing :: "string list \<Rightarrow> Ring" where
  "NewRing ns = \<lparr>nodes = sort ns\<rparr>"

definition Empty :: "Ring \<Rightarrow> bool" where
  "Empty r \<longleftrightarrow> length (nodes r) = 0"

text \<open>
  \<open>Pick\<close> on a platform whose \<open>int\<close> has \<open>bits\<close> bits: hash the decimal shard number, convert the hash
  to \<open>int\<close>, take the remainder, index. An index outside the slice panics.
\<close>

definition Pick :: "nat \<Rightarrow> Ring \<Rightarrow> int32 \<Rightarrow> string go" where
  "Pick bits r shardID =
     (if length (nodes r) = 0 then Ok []
      else let h = fnv32a (Itoa (sint shardID));
               idx = int_of_uint32 bits h smod int (length (nodes r))
           in if 0 \<le> idx \<and> idx < int (length (nodes r)) then Ok (nodes r ! nat idx) else Panic)"

subsection \<open>What users of a ring rely on\<close>

text \<open>
  The contract between the ring and the shard map that is built from it: emptiness is that of the
  node list, a non-empty ring answers every shard with one of its nodes, and the answer does not
  depend on the order in which the nodes were given.
\<close>

locale shard_ring =
  fixes new :: "string list \<Rightarrow> 'r"
    and is_empty :: "'r \<Rightarrow> bool"
    and pick :: "'r \<Rightarrow> int32 \<Rightarrow> string go"
  assumes empty_iff: "is_empty (new ns) \<longleftrightarrow> ns = []"
    and pick_member: "ns \<noteq> [] \<Longrightarrow> \<exists>n \<in> set ns. pick (new ns) i = Ok n"
    and order_irrelevant: "mset ns = mset ms \<Longrightarrow> new ns = new ms"
begin

lemma pick_total: "ns \<noteq> [] \<Longrightarrow> \<exists>f. \<forall>i. pick (new ns) i = Ok (f i) \<and> f i \<in> set ns"
  using pick_member by (intro choice) blast

lemma pick_singleton: "pick (new [n]) i = Ok n"
  using pick_member [of "[n]" i] by simp

lemma pick_stable: "mset ns = mset ms \<Longrightarrow> pick (new ns) i = pick (new ms) i"
  using order_irrelevant [of ns ms] by simp

lemma empty_stable: "mset ns = mset ms \<Longrightarrow> is_empty (new ns) = is_empty (new ms)"
  using order_irrelevant [of ns ms] by simp

end

lemma Pick_64:
  assumes "nodes r \<noteq> []"
  shows "Pick 64 r i = Ok (nodes r ! nat (uint (fnv32a (Itoa (sint i))) mod int (length (nodes r))))"
  using assms by (simp add: Pick_def Let_def int_of_uint32_64 smod_nonneg pos_mod_bound)

lemma Pick_64_member: "nodes r \<noteq> [] \<Longrightarrow> \<exists>n \<in> set (nodes r). Pick 64 r i = Ok n"
  by (auto simp: Pick_64 nat_less_iff intro!: nth_mem)

interpretation ring64: shard_ring NewRing Empty "Pick 64"
proof unfold_locales
  fix ns show "Empty (NewRing ns) \<longleftrightarrow> ns = []"
    by (simp add: Empty_def NewRing_def)
next
  fix ns :: "string list" and i assume "ns \<noteq> []"
  then show "\<exists>n \<in> set ns. Pick 64 (NewRing ns) i = Ok n"
    using Pick_64_member [of "NewRing ns" i] by (simp add: NewRing_def)
next
  fix ns ms :: "string list" assume "mset ns = mset ms"
  then have "sort ns = sort ms" by (rule sort_perm_eq)
  then show "NewRing ns = NewRing ms" by (simp add: NewRing_def)
qed

section \<open>Reading the shard map\<close>

record ShardAssignment =
  sa_ShardID :: int32
  sa_Role :: string
  sa_OwnerPod :: string

record ShardMap =
  sm_Version :: "64 word"
  sm_Shards :: "ShardAssignment list"

text \<open>The anonymous struct the text is decoded into, and its zero value.\<close>

record raw_shard =
  raw_ShardID :: int32
  raw_Role :: string
  raw_OwnerPod :: string

record raw_doc =
  raw_Version :: "64 word"
  raw_Shards :: "raw_shard list"

definition zero_shard :: raw_shard where
  "zero_shard = \<lparr>raw_ShardID = 0, raw_Role = [], raw_OwnerPod = []\<rparr>"

definition zero_doc :: raw_doc where
  "zero_doc = \<lparr>raw_Version = 0, raw_Shards = []\<rparr>"

definition shard_field :: "string \<Rightarrow> json \<Rightarrow> raw_shard \<Rightarrow> raw_shard option" where
  "shard_field k v r =
     (if key_matches ''shardID'' k then
        map_option (\<lambda>z. r\<lparr>raw_ShardID := word_of_int z\<rparr>) (decode_int 32 v (sint (raw_ShardID r)))
      else if key_matches ''role'' k then
        map_option (\<lambda>s. r\<lparr>raw_Role := s\<rparr>) (decode_string v (raw_Role r))
      else if key_matches ''ownerPod'' k then
        map_option (\<lambda>s. r\<lparr>raw_OwnerPod := s\<rparr>) (decode_string v (raw_OwnerPod r))
      else Some r)"

definition doc_field :: "string \<Rightarrow> json \<Rightarrow> raw_doc \<Rightarrow> raw_doc option" where
  "doc_field k v d =
     (if key_matches ''version'' k then
        map_option (\<lambda>z. d\<lparr>raw_Version := word_of_int z\<rparr>) (decode_int 64 v (sint (raw_Version d)))
      else if key_matches ''shards'' k then
        map_option (\<lambda>ss. d\<lparr>raw_Shards := ss\<rparr>)
          (decode_slice (decode_struct shard_field) zero_shard v (raw_Shards d))
      else Some d)"

datatype parse_error = EmptyShardMap | UnmarshalError

definition ParseShardMapJSON :: "string \<Rightarrow> parse_error + ShardMap" where
  "ParseShardMapJSON b =
     (if length b = 0 then Inl EmptyShardMap
      else case Option.bind (json_parse b) (\<lambda>j. decode_struct doc_field j zero_doc) of
        None \<Rightarrow> Inl UnmarshalError
      | Some raw \<Rightarrow> Inr \<lparr>sm_Version = raw_Version raw,
          sm_Shards = map (\<lambda>s. \<lparr>sa_ShardID = raw_ShardID s, sa_Role = raw_Role s,
            sa_OwnerPod = raw_OwnerPod s\<rparr>) (raw_Shards raw)\<rparr>)"

section \<open>Properties\<close>

lemma sort_nth_0: "ms \<noteq> [] \<Longrightarrow> sort ms ! 0 = Min (set ms)"
proof -
  assume "ms \<noteq> []"
  then have l: "0 < length (sort ms)" by simp
  have "x \<in> set ms \<Longrightarrow> sort ms ! 0 \<le> x" for x
    using sorted_nth_mono [OF sorted_sort, of 0 _ ms] by (metis in_set_conv_nth le0 set_sort)
  moreover have "sort ms ! 0 \<in> set ms" using nth_mem [OF l] by simp
  ultimately show ?thesis by (intro Min_eqI [symmetric]) simp_all
qed

text \<open>
  C36: The ring is total. On a 64-bit platform a ring with at least one node answers every shard number
  with one of its nodes and without a panic, an empty ring answers with the empty name, and the answer
  does not depend on the order in which the nodes were given.
\<close>

theorem ring_total:
  "(if ns = [] then Pick 64 (NewRing ns) i = Ok [] else \<exists>n \<in> set ns. Pick 64 (NewRing ns) i = Ok n) \<and>
   Empty (NewRing ns) = (ns = []) \<and> Pick 64 (NewRing (rev ns)) i = Pick 64 (NewRing ns) i \<and>
   (\<forall>ms. mset ms = mset ns \<longrightarrow> Pick 64 (NewRing ms) i = Pick 64 (NewRing ns) i)"
proof (intro conjI allI impI)
  show "if ns = [] then Pick 64 (NewRing ns) i = Ok [] else \<exists>n \<in> set ns. Pick 64 (NewRing ns) i = Ok n"
    using ring64.pick_member [of ns i] by (cases "ns = []") (simp_all add: Pick_def NewRing_def)
  show "Empty (NewRing ns) = (ns = [])" by (rule ring64.empty_iff)
  show "Pick 64 (NewRing (rev ns)) i = Pick 64 (NewRing ns) i" by (rule ring64.pick_stable) simp
  show "Pick 64 (NewRing ms) i = Pick 64 (NewRing ns) i" if "mset ms = mset ns" for ms
    using that by (rule ring64.pick_stable)
qed

theorem ring_total_witness:
  "Pick 64 (NewRing [''b'', ''a'']) 3 = Pick 64 (NewRing [''a'', ''b'']) 3 \<and>
    (\<exists>n \<in> {''a'', ''b''}. Pick 64 (NewRing [''a'', ''b'']) 3 = Ok n)"
proof
  have "Pick 64 (NewRing (rev [''a'', ''b''])) 3 = Pick 64 (NewRing [''a'', ''b'']) 3" using ring_total [of "[''a'', ''b'']" 3] by blast
  then show "Pick 64 (NewRing [''b'', ''a'']) 3 = Pick 64 (NewRing [''a'', ''b'']) 3" by simp
  show "\<exists>n \<in> {''a'', ''b''}. Pick 64 (NewRing [''a'', ''b'']) 3 = Ok n"
    using ring_total [of "[''a'', ''b'']" 3, THEN conjunct1] by simp
qed

text \<open>
  C37: The ring on 32 bits. Where \<open>int\<close> has 32 bits, \<open>Pick\<close> on a ring with nodes agrees with the 64-bit
  platform for every shard whose hash is below \<open>2 ^ 31\<close>. For the others the converted hash is negative
  and so is the remainder: the call panics unless the number of nodes divides the hash minus \<open>2 ^ 32\<close>,
  when it returns the first node. On any two nodes shard 20 panics.
\<close>

theorem ring32_panics:
  assumes "ns \<noteq> []"
  shows "Pick 32 (NewRing ns) i =
    (let h = uint (fnv32a (Itoa (sint i))) in
     if h < 2 ^ 31 then Pick 64 (NewRing ns) i
     else if int (length ns) dvd 2 ^ 32 - h then Ok (Min (set ns)) else Panic) \<and>
    Pick 32 (NewRing [a, b]) 20 = Panic"
proof -
  have pick: "Pick 32 (NewRing ms) j =
    (let h = uint (fnv32a (Itoa (sint j))) in
     if h < 2 ^ 31 then Pick 64 (NewRing ms) j
     else if int (length ms) dvd 2 ^ 32 - h then Ok (Min (set ms)) else Panic)" if ms: "ms \<noteq> []" for ms j
  proof -
    define h where "h = fnv32a (Itoa (sint j))"
    have n: "0 < int (length (sort ms))" "sort ms ! 0 = Min (set ms)"
      using ms by (simp_all add: sort_nth_0)
    show ?thesis
    proof (cases "uint h < 2 ^ 31")
      case True
      then have "int_of_uint32 32 h = uint h" by (simp add: int_of_uint32_32)
      then show ?thesis using True ms by (simp add: Pick_def NewRing_def Let_def h_def [symmetric] int_of_uint32_64)
    next
      case False
      then have neg: "int_of_uint32 32 h = - (2 ^ 32 - uint h)" "0 < 2 ^ 32 - uint h"
        using uint_lt2p [of h] by (simp_all add: int_of_uint32_32)
      define r where "r = (2 ^ 32 - uint h) mod int (length ms)"
      have "int_of_uint32 32 h smod int (length ms) = - r"
        unfolding neg(1) r_def using neg(2) n(1) by (intro smod_neg) simp_all
      moreover have "0 \<le> r" unfolding r_def using n(1) by (intro pos_mod_sign) simp
      moreover have "r = 0 \<longleftrightarrow> int (length ms) dvd 2 ^ 32 - uint h" by (simp add: r_def dvd_eq_mod_eq_0)
      ultimately show ?thesis
        using False ms n by (cases "r = 0") (auto simp: Pick_def NewRing_def Let_def h_def [symmetric])
    qed
  qed
  have "\<not> uint (fnv32a (Itoa (sint (20 :: int32)))) < 2 ^ 31 \<and> \<not> 2 dvd 2 ^ 32 - uint (fnv32a (Itoa (sint (20 :: int32))))"
    by code_simp
  then show ?thesis using pick [OF assms, of i] pick [of "[a, b]" 20] by (simp add: Let_def)
qed

theorem ring32_panics_witness:
  "Pick 32 (NewRing [''a'', ''b'', ''c'']) 1 = Pick 64 (NewRing [''a'', ''b'', ''c'']) 1 \<or>
   Pick 32 (NewRing [''a'', ''b'', ''c'']) 1 \<in> {Ok ''a'', Panic}"
  using ring32_panics [of "[''a'', ''b'', ''c'']" 1 "''a''" "''b''"] by (auto simp: Let_def)

section \<open>Documents the parser refuses\<close>

text \<open>
  The types of the document, member by member: a field takes its own type or null, a member that names
  no field takes anything.
\<close>

definition int_or_null :: "nat \<Rightarrow> json \<Rightarrow> bool" where
  "int_or_null bits v = (case v of JNull \<Rightarrow> True | JNum t \<Rightarrow> ParseInt bits t \<noteq> None | _ \<Rightarrow> False)"

definition text_or_null :: "json \<Rightarrow> bool" where
  "text_or_null v = (case v of JNull \<Rightarrow> True | JStr _ \<Rightarrow> True | _ \<Rightarrow> False)"

definition entry_ok :: "json \<Rightarrow> bool" where
  "entry_ok j =
     (case j of
        JNull \<Rightarrow> True
      | JObj fs \<Rightarrow>
          list_all (\<lambda>(k, v). (key_matches ''shardID'' k \<longrightarrow> int_or_null 32 v) \<and>
            (key_matches ''role'' k \<or> key_matches ''ownerPod'' k \<longrightarrow> text_or_null v)) fs
      | _ \<Rightarrow> False)"

definition entries_ok :: "json \<Rightarrow> bool" where
  "entries_ok v = (case v of JNull \<Rightarrow> True | JArr es \<Rightarrow> list_all entry_ok es | _ \<Rightarrow> False)"

definition document_ok :: "json \<Rightarrow> bool" where
  "document_ok j =
     (case j of
        JNull \<Rightarrow> True
      | JObj ms \<Rightarrow>
          list_all (\<lambda>(k, v). (key_matches ''version'' k \<longrightarrow> int_or_null 64 v) \<and>
            (key_matches ''shards'' k \<longrightarrow> entries_ok v)) ms
      | _ \<Rightarrow> False)"

lemma decode_int_None: "decode_int bits v old = None \<longleftrightarrow> \<not> int_or_null bits v"
  by (cases v) (simp_all add: decode_int_def int_or_null_def)

lemma decode_string_None: "decode_string v old = None \<longleftrightarrow> \<not> text_or_null v"
  by (cases v) (simp_all add: decode_string_def text_or_null_def)

lemma fields_distinct:
  "key_matches ''shardID'' k \<Longrightarrow> \<not> key_matches ''role'' k \<and> \<not> key_matches ''ownerPod'' k"
  "key_matches ''version'' k \<Longrightarrow> \<not> key_matches ''shards'' k"
proof -
  have "fold_name ''shardID'' \<noteq> fold_name ''role''" "fold_name ''shardID'' \<noteq> fold_name ''ownerPod''"
    "fold_name ''version'' \<noteq> fold_name ''shards''" by code_simp+
  then show "key_matches ''shardID'' k \<Longrightarrow> \<not> key_matches ''role'' k \<and> \<not> key_matches ''ownerPod'' k"
    "key_matches ''version'' k \<Longrightarrow> \<not> key_matches ''shards'' k"
    by (auto simp: key_matches_def)
qed

lemma decode_entry_None: "decode_struct shard_field j r = None \<longleftrightarrow> \<not> entry_ok j"
proof -
  have f: "shard_field k v q = None \<longleftrightarrow> \<not> ((key_matches ''shardID'' k \<longrightarrow> int_or_null 32 v) \<and>
      (key_matches ''role'' k \<or> key_matches ''ownerPod'' k \<longrightarrow> text_or_null v))" for k v q
    using fields_distinct(1) [of k] by (auto simp: shard_field_def decode_int_None decode_string_None)
  show ?thesis
    using decode_members_None [of shard_field, OF f] by (cases j) (auto simp: decode_struct_def entry_ok_def list_all_iff)
qed

lemma decode_document_None: "decode_struct doc_field j d = None \<longleftrightarrow> \<not> document_ok j"
proof -
  have slice: "decode_slice (decode_struct shard_field) zero_shard v old = None \<longleftrightarrow> \<not> entries_ok v" for v old
    using decode_elems_None [of "decode_struct shard_field" entry_ok, OF decode_entry_None]
    by (cases v) (auto simp: decode_slice_def entries_ok_def list_all_iff)
  have f: "doc_field k v q = None \<longleftrightarrow> \<not> ((key_matches ''version'' k \<longrightarrow> int_or_null 64 v) \<and>
      (key_matches ''shards'' k \<longrightarrow> entries_ok v))" for k v q
    using fields_distinct(2) [of k] by (auto simp: doc_field_def decode_int_None slice)
  show ?thesis
    using decode_members_None [of doc_field, OF f] by (cases j) (auto simp: decode_struct_def document_ok_def list_all_iff)
qed

lemma decode_no_shards:
  "\<forall>(k, v) \<in> set ms. \<not> key_matches ''shards'' k \<Longrightarrow> decode_members doc_field ms d = Some d' \<Longrightarrow> raw_Shards d' = raw_Shards d"
proof (induction ms arbitrary: d)
  case (Cons m ms)
  obtain k v where m: "m = (k, v)" by fastforce
  obtain d1 where d1: "doc_field k v d = Some d1" "decode_members doc_field ms d1 = Some d'"
    using Cons.prems(2) by (auto simp: m split: option.splits)
  have "raw_Shards d1 = raw_Shards d" using d1(1) Cons.prems(1) by (auto simp: m doc_field_def split: if_splits)
  then show ?case using Cons.IH [OF _ d1(2)] Cons.prems(1) by simp
qed simp

text \<open>
  C26: Texts the parser refuses. The empty text has its own error. Any other text is refused exactly when it
  is no JSON document or its document has a member of the wrong type: the document is null or an object,
  \<open>version\<close> a 64-bit integer, \<open>shards\<close> a list of objects (or nulls) with a 32-bit \<open>shardID\<close> and texts for
  \<open>role\<close> and \<open>ownerPod\<close>, null standing for any of them and names matched without regard to case. Members
  with other names make no difference, whatever they hold, and without \<open>shards\<close> the map is empty.
\<close>

theorem shardmap_parse_errors:
  "(ParseShardMapJSON b = Inl EmptyShardMap \<longleftrightarrow> b = []) \<and>
   (ParseShardMapJSON b = Inl UnmarshalError \<longleftrightarrow> b \<noteq> [] \<and> (\<forall>j. json_parse b = Some j \<longrightarrow> \<not> document_ok j)) \<and>
   (\<forall>ms b'. json_parse b = Some (JObj ms) \<and> b \<noteq> [] \<and> b' \<noteq> [] \<and>
      json_parse b' = Some (JObj (filter (\<lambda>(k, v). key_matches ''version'' k \<or> key_matches ''shards'' k) ms)) \<longrightarrow>
      ParseShardMapJSON b' = ParseShardMapJSON b) \<and>
   (\<forall>ms m. json_parse b = Some (JObj ms) \<and> (\<forall>(k, v) \<in> set ms. \<not> key_matches ''shards'' k) \<and> ParseShardMapJSON b = Inr m \<longrightarrow>
      sm_Shards m = [])"
proof (intro conjI allI impI)
  show "ParseShardMapJSON b = Inl EmptyShardMap \<longleftrightarrow> b = []"
    by (simp add: ParseShardMapJSON_def split: option.split)
  show "ParseShardMapJSON b = Inl UnmarshalError \<longleftrightarrow> b \<noteq> [] \<and> (\<forall>j. json_parse b = Some j \<longrightarrow> \<not> document_ok j)"
    using decode_document_None [of "the (json_parse b)" zero_doc]
    by (cases "json_parse b") (auto simp: ParseShardMapJSON_def split: option.split)
next
  fix ms b'
  assume "json_parse b = Some (JObj ms) \<and> b \<noteq> [] \<and> b' \<noteq> [] \<and>
      json_parse b' = Some (JObj (filter (\<lambda>(k, v). key_matches ''version'' k \<or> key_matches ''shards'' k) ms))"
  moreover have "decode_members doc_field (filter (\<lambda>(k, v). key_matches ''version'' k \<or> key_matches ''shards'' k) ms) d =
      decode_members doc_field ms d" for d
    by (rule decode_members_skip) (simp add: doc_field_def)
  ultimately show "ParseShardMapJSON b' = ParseShardMapJSON b"
    by (simp add: ParseShardMapJSON_def decode_struct_def)
next
  fix ms m
  assume a: "json_parse b = Some (JObj ms) \<and> (\<forall>(k, v) \<in> set ms. \<not> key_matches ''shards'' k) \<and> ParseShardMapJSON b = Inr m"
  then obtain d where "decode_members doc_field ms zero_doc = Some d" "sm_Shards m = map (\<lambda>s. \<lparr>sa_ShardID = raw_ShardID s,
      sa_Role = raw_Role s, sa_OwnerPod = raw_OwnerPod s\<rparr>) (raw_Shards d)"
    by (auto simp: ParseShardMapJSON_def decode_struct_def split: if_splits option.splits)
  then show "sm_Shards m = []" using decode_no_shards [of ms zero_doc d] a by (simp add: zero_doc_def)
qed

theorem shardmap_parse_errors_witness:
  "ParseShardMapJSON ''{\"shards\":[{\"shardID\":true}]}'' = Inl UnmarshalError \<and>
   ParseShardMapJSON ''{\"version\":2}'' = ParseShardMapJSON ''{\"x\":[1],\"version\":2}''"
proof
  let ?b = "''{\"shards\":[{\"shardID\":true}]}''"
  have "json_parse ?b = Some (JObj [(''shards'', JArr [JObj [(''shardID'', JBool True)]])])" by code_simp
  moreover have "\<not> document_ok (JObj [(''shards'', JArr [JObj [(''shardID'', JBool True)]])])"
    by code_simp
  ultimately show "ParseShardMapJSON ?b = Inl UnmarshalError" using shardmap_parse_errors [of ?b, THEN conjunct2, THEN conjunct1] by simp
  let ?c = "''{\"x\":[1],\"version\":2}''"
  have "json_parse ?c = Some (JObj [(''x'', JArr [JNum ''1'']), (''version'', JNum ''2'')])"
    "json_parse ''{\"version\":2}'' = Some (JObj [(''version'', JNum ''2'')])" by code_simp+
  moreover have "\<not> key_matches ''version'' ''x''" "\<not> key_matches ''shards'' ''x''" by code_simp+
  ultimately show "ParseShardMapJSON ''{\"version\":2}'' = ParseShardMapJSON ?c"
    using shardmap_parse_errors [of ?c, THEN conjunct2, THEN conjunct2, THEN conjunct1] by simp
qed

end
