(* ===== verification/Contracts.thy ===== *)
theory Contracts
  imports GoJson Platform
begin

text \<open>
  What the documentation of the Kubernetes API, of controller-runtime and of the Go library promises
  of the functions of \<^typ>\<open>'w platform\<close>, one named predicate per function. A state of the outside
  world is seen through two functions: \<open>view\<close>, the child objects the server stores, and \<open>crs\<close>, the
  custom resources. The laws speak of a server that serves one client at a time: nobody else writes
  the cluster's own objects while a reconciliation runs, and a read answers with what is stored (a client
  that reads from a cache keeps these laws while the cache is up to date).
\<close>

section \<open>Stored objects\<close>

datatype object =
    OService Service
  | ODeployment Deployment
  | OServiceAccount ServiceAccount
  | ORole Role
  | ORoleBinding RoleBinding
  | OConfigMap ConfigMap

fun asService :: "object \<Rightarrow> Service option" where
  "asService (OService x) = Some x"
| "asService _ = None"

fun asDeployment :: "object \<Rightarrow> Deployment option" where
  "asDeployment (ODeployment x) = Some x"
| "asDeployment _ = None"

fun asServiceAccount :: "object \<Rightarrow> ServiceAccount option" where
  "asServiceAccount (OServiceAccount x) = Some x"
| "asServiceAccount _ = None"

fun asRole :: "object \<Rightarrow> Role option" where
  "asRole (ORole x) = Some x"
| "asRole _ = None"

fun asRoleBinding :: "object \<Rightarrow> RoleBinding option" where
  "asRoleBinding (ORoleBinding x) = Some x"
| "asRoleBinding _ = None"

fun asConfigMap :: "object \<Rightarrow> ConfigMap option" where
  "asConfigMap (OConfigMap x) = Some x"
| "asConfigMap _ = None"

type_synonym object_key = "kind \<times> NamespacedName"
type_synonym store = "object_key \<rightharpoonup> object"
type_synonym cluster_store = "NamespacedName \<rightharpoonup> LLMInferenceCluster"

definition stored :: "(object \<Rightarrow> 'o option) \<Rightarrow> object_key \<Rightarrow> store \<Rightarrow> 'o option" where
  "stored unwrap k st = Option.bind (st k) unwrap"

text \<open>The server sets the generation and the UID itself; the rest of the metadata it stores as it was sent.\<close>

definition server_meta :: "ObjectMeta \<Rightarrow> ObjectMeta \<Rightarrow> bool" where
  "server_meta sent m \<longleftrightarrow> m = sent\<lparr>Generation := Generation m, UID := UID m\<rparr>"

lemma server_metaD:
  assumes "server_meta m n"
  shows "Name n = Name m" "Namespace n = Namespace m" "key_of n = key_of m" "Labels n = Labels m"
    "OwnerReferences n = OwnerReferences m" "Finalizers n = Finalizers m"
    "DeletionTimestamp n = DeletionTimestamp m"
proof -
  have eq: "n = m\<lparr>Generation := Generation n, UID := UID n\<rparr>" using assms by (simp add: server_meta_def)
  show "Name n = Name m" "Namespace n = Namespace m" "key_of n = key_of m" "Labels n = Labels m"
    "OwnerReferences n = OwnerReferences m" "Finalizers n = Finalizers m"
    "DeletionTimestamp n = DeletionTimestamp m"
    by (subst eq, simp add: key_of_def)+
qed

lemma server_meta_refl [simp]: "server_meta m m"
  by (simp add: server_meta_def)

section \<open>Defaulting\<close>

text \<open>
  The fields of a deployment that the controller leaves empty every time it writes it and that the API
  server fills in before it stores the object: the protocol of a container port and the API version of
  a field reference. The other kinds are stored as they are sent.
\<close>

definition serverPort :: "ContainerPort \<Rightarrow> ContainerPort" where
  "serverPort p = (if cp_Protocol p = [] then p\<lparr>cp_Protocol := ''TCP''\<rparr> else p)"

definition serverFieldRef :: "ObjectFieldSelector \<Rightarrow> ObjectFieldSelector" where
  "serverFieldRef r = (if fs_APIVersion r = [] then r\<lparr>fs_APIVersion := ''v1''\<rparr> else r)"

definition serverContainer :: "Container \<Rightarrow> Container" where
  "serverContainer c = c\<lparr>ct_Ports := map serverPort (ct_Ports c),
     ct_Env := map (\<lambda>e. e\<lparr>env_FieldRef := map_option serverFieldRef (env_FieldRef e)\<rparr>) (ct_Env c)\<rparr>"

definition serverDeployment :: "Deployment \<Rightarrow> Deployment" where
  "serverDeployment d = d\<lparr>dep_Containers := map_option (map serverContainer) (dep_Containers d)\<rparr>"

lemma serverPort_idem [simp]: "serverPort (serverPort p) = serverPort p"
  by (simp add: serverPort_def)

lemma serverFieldRef_idem [simp]: "serverFieldRef (serverFieldRef r) = serverFieldRef r"
  by (simp add: serverFieldRef_def)

lemma serverContainer_idem [simp]: "serverContainer (serverContainer c) = serverContainer c"
  by (simp add: serverContainer_def comp_def option.map_comp)

lemma serverDeployment_idem [simp]: "serverDeployment (serverDeployment d) = serverDeployment d"
  by (simp add: serverDeployment_def comp_def option.map_comp)

lemma serverDeployment_meta [simp]:
  "dep_meta (serverDeployment d) = dep_meta d"
  "serverDeployment (d\<lparr>dep_meta := m\<rparr>) = (serverDeployment d)\<lparr>dep_meta := m\<rparr>"
  by (simp_all add: serverDeployment_def)

lemma serverDeployment_Nil [simp]:
  "dep_Containers (serverDeployment d) = Some [] \<longleftrightarrow> dep_Containers d = Some []"
  by (auto simp: serverDeployment_def)

declare go.map_ident [simp]

section \<open>CreateOrUpdate\<close>

text \<open>
  \<open>CreateOrUpdate\<close> fetches the object of the given name, runs the closure on it (on the given object
  where there is none) and writes the result. The closure must keep the name. After an error the
  object may or may not have been written (a lost answer); no other object changes. \<open>server\<close> is the
  server's defaulting for this kind.
\<close>

definition writes ::
  "('o \<Rightarrow> ObjectMeta) \<Rightarrow> (ObjectMeta \<Rightarrow> 'o \<Rightarrow> 'o) \<Rightarrow> ('o \<Rightarrow> object) \<Rightarrow> object_key \<Rightarrow> 'o go \<Rightarrow> store \<Rightarrow> 'o \<Rightarrow>
     store \<Rightarrow> bool" where
  "writes meta put wrap k res st o' st' \<longleftrightarrow>
     (\<exists>o1. res = Ok o1 \<and> key_of (meta o1) = snd k \<and> server_meta (meta o1) (meta o') \<and>
        o' = put (meta o') o1 \<and> st' = st(k \<mapsto> wrap o'))"

definition cou_law ::
  "('w \<Rightarrow> store) \<Rightarrow> ('w \<Rightarrow> cluster_store) \<Rightarrow> kind \<Rightarrow> ('o \<Rightarrow> ObjectMeta) \<Rightarrow> (ObjectMeta \<Rightarrow> 'o \<Rightarrow> 'o) \<Rightarrow>
     ('o \<Rightarrow> 'o) \<Rightarrow> ('o \<Rightarrow> object) \<Rightarrow> (object \<Rightarrow> 'o option) \<Rightarrow> ('w, 'o) cou \<Rightarrow> bool" where
  "cou_law view crs kd meta put server wrap unwrap f \<longleftrightarrow>
     (\<forall>obj mutate x r x'. f obj mutate x = (r, x') \<longrightarrow>
        crs x' = crs x \<and>
        (let k = (kd, key_of (meta obj));
             res = map_go server (mutate (case stored unwrap k (view x) of None \<Rightarrow> obj | Some o0 \<Rightarrow> o0))
         in case r of
              Ok o' \<Rightarrow> writes meta put wrap k res (view x) o' (view x')
            | Err e \<Rightarrow> view x' = view x \<or> (\<exists>o'. writes meta put wrap k res (view x) o' (view x'))
            | Panic \<Rightarrow> res = Panic \<and> view x' = view x))"

section \<open>The other calls\<close>

definition get_law :: "'w platform \<Rightarrow> ('w \<Rightarrow> store) \<Rightarrow> ('w \<Rightarrow> cluster_store) \<Rightarrow> bool" where
  "get_law P view crs \<longleftrightarrow>
     (\<forall>key x r x'. ClientGet P key x = (r, x') \<longrightarrow>
        view x' = view x \<and> crs x' = crs x \<and>
        (\<forall>c. r = Inr c \<longrightarrow> crs x key = Some c \<and> key_of (metadata c) = key) \<and>
        (\<forall>e. r = Inl e \<longrightarrow> IsNotFound e \<longrightarrow> crs x key = None))"

text \<open>
  A merge patch computed against the stored object makes the stored object equal to the one sent;
  the main resource's patch and update leave the status alone, the status calls leave all else.
\<close>

definition patch_law :: "'w platform \<Rightarrow> ('w \<Rightarrow> store) \<Rightarrow> ('w \<Rightarrow> cluster_store) \<Rightarrow> bool" where
  "patch_law P view crs \<longleftrightarrow>
     (\<forall>c orig x r x'. ClientPatch P c orig x = (r, x') \<longrightarrow>
        view x' = view x \<and>
        (\<forall>c'. r = Inr c' \<longrightarrow> crs x (key_of (metadata c)) = Some orig \<longrightarrow>
           spec c' = spec c \<and> status c' = status orig \<and> server_meta (metadata c) (metadata c') \<and>
           crs x' = (crs x)(key_of (metadata c) \<mapsto> c')))"

text \<open>A resource that is being deleted disappears with its last finalizer.\<close>

definition update_law :: "'w platform \<Rightarrow> ('w \<Rightarrow> store) \<Rightarrow> ('w \<Rightarrow> cluster_store) \<Rightarrow> bool" where
  "update_law P view crs \<longleftrightarrow>
     (\<forall>c x r x'. ClientUpdate P c x = (r, x') \<longrightarrow>
        view x' = view x \<and>
        (\<forall>c' old. r = Inr c' \<longrightarrow> crs x (key_of (metadata c)) = Some old \<longrightarrow>
           spec c' = spec c \<and> status c' = status old \<and> server_meta (metadata c) (metadata c') \<and>
           crs x' = (crs x)(key_of (metadata c) :=
             (if DeletionTimestamp (metadata c) \<noteq> None \<and> Finalizers (metadata c) = [] then None else Some c'))))"

definition status_patch_law :: "'w platform \<Rightarrow> ('w \<Rightarrow> store) \<Rightarrow> ('w \<Rightarrow> cluster_store) \<Rightarrow> bool" where
  "status_patch_law P view crs \<longleftrightarrow>
     (\<forall>c orig x r x'. StatusPatch P c orig x = (r, x') \<longrightarrow>
        view x' = view x \<and>
        (\<forall>c' old. r = Inr c' \<longrightarrow> crs x (key_of (metadata c)) = Some old \<longrightarrow> status old = status orig \<longrightarrow>
           c' = old\<lparr>status := status c\<rparr> \<and> crs x' = (crs x)(key_of (metadata c) \<mapsto> c')))"

definition status_update_law :: "'w platform \<Rightarrow> ('w \<Rightarrow> store) \<Rightarrow> ('w \<Rightarrow> cluster_store) \<Rightarrow> bool" where
  "status_update_law P view crs \<longleftrightarrow>
     (\<forall>c x r x'. StatusUpdate P c x = (r, x') \<longrightarrow>
        view x' = view x \<and>
        (\<forall>c' old. r = Inr c' \<longrightarrow> crs x (key_of (metadata c)) = Some old \<longrightarrow>
           c' = old\<lparr>status := status c\<rparr> \<and> crs x' = (crs x)(key_of (metadata c) \<mapsto> c')))"

text \<open>A listed pod is in the namespace, carries the labels and has a DNS name.\<close>

definition listed :: "string \<Rightarrow> labels \<Rightarrow> Pod \<Rightarrow> bool" where
  "listed ns sel p \<longleftrightarrow>
     Namespace (pod_meta p) = ns \<and> sel \<subseteq>\<^sub>m Labels (pod_meta p) \<and> ascii (Name (pod_meta p))"

definition read_law :: "'w platform \<Rightarrow> ('w \<Rightarrow> store) \<Rightarrow> ('w \<Rightarrow> cluster_store) \<Rightarrow> bool" where
  "read_law P view crs \<longleftrightarrow>
     (\<forall>key x r x'. GetConfigMap P key x = (r, x') \<longrightarrow>
        view x' = view x \<and> crs x' = crs x \<and>
        (\<forall>cm. r = Inr cm \<longrightarrow> stored asConfigMap (KConfigMap, key) (view x) = Some cm)) \<and>
     (\<forall>ns sel x r x'. ListPods P ns sel x = (r, x') \<longrightarrow>
        view x' = view x \<and> crs x' = crs x \<and>
        (\<forall>pods. r = Inr pods \<longrightarrow> list_all (listed ns sel) pods)) \<and>
     (\<forall>x t x'. Now P x = (t, x') \<longrightarrow> view x' = view x \<and> crs x' = crs x)"

section \<open>Library functions\<close>

definition find_condition :: "string \<Rightarrow> Condition list \<Rightarrow> Condition option" where
  "find_condition t cs = find (\<lambda>c. cond_Type c = t) cs"

text \<open>
  \<open>meta.SetStatusCondition\<close> replaces or appends the condition of this type; the transition time is
  the library's to choose.
\<close>

definition condition_law :: "'w platform \<Rightarrow> bool" where
  "condition_law P \<longleftrightarrow>
     (\<forall>cs c. (\<exists>d. find_condition (cond_Type c) (SetStatusCondition P cs c) =
                  Some (c\<lparr>cond_LastTransitionTime := d\<rparr>)) \<and>
        (\<forall>t. t \<noteq> cond_Type c \<longrightarrow> find_condition t (SetStatusCondition P cs c) = find_condition t cs))"

definition owned_by :: "ObjectMeta \<Rightarrow> ObjectMeta \<Rightarrow> bool" where
  "owned_by owner m \<longleftrightarrow>
     (\<exists>r \<in> set (OwnerReferences m).
        owner_Name r = Name owner \<and> owner_UID r = UID owner \<and> owner_Controller r)"

text \<open>
  \<open>SetControllerReference\<close> changes only the owner references, adds the controller, and does nothing
  to an object the controller owns already.
\<close>

definition owner_law :: "'w platform \<Rightarrow> bool" where
  "owner_law P \<longleftrightarrow>
     (\<forall>c m m'. SetControllerReference P c m = Inr m' \<longrightarrow>
        m' = m\<lparr>OwnerReferences := OwnerReferences m'\<rparr> \<and> owned_by c m' \<and>
        (\<forall>n. OwnerReferences n = OwnerReferences m' \<longrightarrow> Namespace n = Namespace m \<longrightarrow>
           SetControllerReference P c n = Inr n))"

definition finalizer_law :: "'w platform \<Rightarrow> bool" where
  "finalizer_law P \<longleftrightarrow>
     (\<forall>fs f. ContainsFinalizer P fs f = (f \<in> set fs) \<and>
        AddFinalizer P fs f = (if f \<in> set fs then fs else fs @ [f]) \<and>
        RemoveFinalizer P fs f = filter (\<lambda>g. g \<noteq> f) fs)"

text \<open>\<open>sort.Slice\<close> permutes and sorts, for a comparison that is a strict weak order.\<close>

definition strict_weak_order :: "('a \<Rightarrow> 'a \<Rightarrow> bool) \<Rightarrow> bool" where
  "strict_weak_order lt \<longleftrightarrow>
     (\<forall>a. \<not> lt a a) \<and> (\<forall>a b c. lt a b \<longrightarrow> lt b c \<longrightarrow> lt a c) \<and>
     (\<forall>a b c. \<not> lt a b \<longrightarrow> \<not> lt b c \<longrightarrow> \<not> lt a c)"

definition sort_law :: "'w platform \<Rightarrow> bool" where
  "sort_law P \<longleftrightarrow>
     (\<forall>lt xs. strict_weak_order lt \<longrightarrow>
        mset (SliceSort P lt xs) = mset xs \<and> sorted_wrt (\<lambda>a b. \<not> lt b a) (SliceSort P lt xs))"

section \<open>The whole contract\<close>

definition cou_laws :: "'w platform \<Rightarrow> ('w \<Rightarrow> store) \<Rightarrow> ('w \<Rightarrow> cluster_store) \<Rightarrow> bool" where
  "cou_laws P view crs \<longleftrightarrow>
     cou_law view crs KService svc_meta (\<lambda>m x. x\<lparr>svc_meta := m\<rparr>) (\<lambda>x. x) OService asService (CouService P) \<and>
     cou_law view crs KDeployment dep_meta (\<lambda>m x. x\<lparr>dep_meta := m\<rparr>) serverDeployment ODeployment asDeployment
       (CouDeployment P) \<and>
     cou_law view crs KServiceAccount sa_meta (\<lambda>m x. x\<lparr>sa_meta := m\<rparr>) (\<lambda>x. x) OServiceAccount asServiceAccount
       (CouServiceAccount P) \<and>
     cou_law view crs KRole role_meta (\<lambda>m x. x\<lparr>role_meta := m\<rparr>) (\<lambda>x. x) ORole asRole (CouRole P) \<and>
     cou_law view crs KRoleBinding rb_meta (\<lambda>m x. x\<lparr>rb_meta := m\<rparr>) (\<lambda>x. x) ORoleBinding asRoleBinding
       (CouRoleBinding P) \<and>
     cou_law view crs KConfigMap cm_meta (\<lambda>m x. x\<lparr>cm_meta := m\<rparr>) (\<lambda>x. x) OConfigMap asConfigMap (CouConfigMap P)"

definition cluster_laws :: "'w platform \<Rightarrow> ('w \<Rightarrow> store) \<Rightarrow> ('w \<Rightarrow> cluster_store) \<Rightarrow> bool" where
  "cluster_laws P view crs \<longleftrightarrow>
     get_law P view crs \<and> patch_law P view crs \<and> update_law P view crs \<and>
     status_patch_law P view crs \<and> status_update_law P view crs \<and> read_law P view crs"

definition library_laws :: "'w platform \<Rightarrow> bool" where
  "library_laws P \<longleftrightarrow> condition_law P \<and> owner_law P \<and> finalizer_law P \<and> sort_law P"

definition contract :: "'w platform \<Rightarrow> ('w \<Rightarrow> store) \<Rightarrow> ('w \<Rightarrow> cluster_store) \<Rightarrow> bool" where
  "contract P view crs \<longleftrightarrow> cou_laws P view crs \<and> cluster_laws P view crs \<and> library_laws P"

end
