(* ===== verification/Resources.thy ===== *)
theory Resources
  imports GoStd Contracts
begin

text \<open>
  The controller's helpers and the functions that reconcile one child object each. A function
  \<open>reconcileX\<close> hands \<open>CreateOrUpdate\<close> an empty object with its name and a closure that writes the
  desired state into whatever the cluster has; the closures are the definitions \<open>mutateX\<close>.
\<close>

section \<open>Helpers\<close>

definition roleDecode :: string where "roleDecode = ''decode''"
definition rolePrefill :: string where "rolePrefill = ''prefill''"

definition baseLabels :: "LLMInferenceCluster \<Rightarrow> labels" where
  "baseLabels cluster =
     [''app.kubernetes.io/name'' \<mapsto> ''llm-inference-operator'',
      ''app.kubernetes.io/part-of'' \<mapsto> ''llm-inference-operator'',
      ''inference.llm.io/cluster'' \<mapsto> Name (metadata cluster)]"

definition roleLabels :: "labels \<Rightarrow> string \<Rightarrow> labels" where
  "roleLabels base role = base(''inference.llm.io/role'' \<mapsto> role)"

definition derefInt32 :: "int32 option \<Rightarrow> int32 \<Rightarrow> int32" where
  "derefInt32 v def = (case v of None \<Rightarrow> def | Some x \<Rightarrow> x)"

definition derefString :: "string option \<Rightarrow> string \<Rightarrow> string" where
  "derefString v def = (case v of None \<Rightarrow> def | Some x \<Rightarrow> x)"

text \<open>The caller converts to \<open>int\<close> and this function back to \<open>int32\<close>, which loses nothing.\<close>

definition intstrFromInt :: "int \<Rightarrow> IntOrString" where
  "intstrFromInt i = IntVal (word_of_int i)"

definition servicePortForRole :: "LLMInferenceCluster \<Rightarrow> string \<Rightarrow> int32" where
  "servicePortForRole cluster role =
     (let rt = Runtime (spec cluster) in
      if role = roleDecode \<and> ServicePort (Decode rt) \<noteq> None then the (ServicePort (Decode rt))
      else if role = rolePrefill \<and> ServicePort (Prefill rt) \<noteq> None then the (ServicePort (Prefill rt))
      else 8000)"

definition plainEnv :: "string \<Rightarrow> string \<Rightarrow> CoreEnvVar" where
  "plainEnv n v = \<lparr>env_Name = n, env_Value = v, env_FieldRef = None\<rparr>"

definition buildEnvVars :: "'w platform \<Rightarrow> EnvVar list \<Rightarrow> CoreEnvVar list" where
  "buildEnvVars P vars =
     SliceSort P (\<lambda>a b. env_Name a < env_Name b) (map (\<lambda>e. plainEnv (ev_Name e) (ev_Value e)) vars)"

text \<open>\<open>controllerutil.SetControllerReference\<close> on the object being built.\<close>

definition setOwner ::
  "'w platform \<Rightarrow> LLMInferenceCluster \<Rightarrow> ('o \<Rightarrow> ObjectMeta) \<Rightarrow> (ObjectMeta \<Rightarrow> 'o \<Rightarrow> 'o) \<Rightarrow> 'o \<Rightarrow> 'o go" where
  "setOwner P cluster get put obj =
     (case SetControllerReference P (metadata cluster) (get obj) of Inl e \<Rightarrow> Err e | Inr m \<Rightarrow> Ok (put m obj))"

text \<open>
  The shape of every closure: write the desired fields, then set the owner. The writing part may
  panic (an index out of range, a nil pointer) and is a definition \<open>writeX\<close> of its own.
\<close>

definition withOwner ::
  "'w platform \<Rightarrow> LLMInferenceCluster \<Rightarrow> ('o \<Rightarrow> ObjectMeta) \<Rightarrow> (ObjectMeta \<Rightarrow> 'o \<Rightarrow> 'o) \<Rightarrow> ('o \<Rightarrow> 'o go) \<Rightarrow>
     'o \<Rightarrow> 'o go" where
  "withOwner P cluster get put write obj =
     (case write obj of
        Ok obj \<Rightarrow> setOwner P cluster get put obj
      | Err e \<Rightarrow> Err e
      | Panic \<Rightarrow> Panic)"

section \<open>Services\<close>

definition emptyService :: "string \<Rightarrow> string \<Rightarrow> Service" where
  "emptyService ns n = \<lparr>svc_meta = new_meta ns n, svc_Selector = Map.empty, svc_Ports = []\<rparr>"

abbreviation put_svc_meta :: "ObjectMeta \<Rightarrow> Service \<Rightarrow> Service" where
  "put_svc_meta m x \<equiv> x\<lparr>svc_meta := m\<rparr>"

definition writeRoleService :: "string \<Rightarrow> int32 \<Rightarrow> labels \<Rightarrow> Service \<Rightarrow> Service go" where
  "writeRoleService role port base svc =
     Ok (svc\<lparr>svc_meta := (svc_meta svc)\<lparr>Labels := roleLabels base role\<rparr>,
             svc_Selector := roleLabels base role,
             svc_Ports := [\<lparr>sp_Name = ''http'', sp_Port = port, sp_Protocol = ''TCP'',
               sp_TargetPort = intstrFromInt (sint port)\<rparr>]\<rparr>)"

definition mutateRoleService ::
  "'w platform \<Rightarrow> LLMInferenceCluster \<Rightarrow> string \<Rightarrow> int32 \<Rightarrow> labels \<Rightarrow> Service \<Rightarrow> Service go" where
  "mutateRoleService P cluster role port base =
     withOwner P cluster svc_meta put_svc_meta (writeRoleService role port base)"

definition reconcileRoleService ::
  "'w platform \<Rightarrow> LLMInferenceCluster \<Rightarrow> string \<Rightarrow> string \<Rightarrow> int32 \<Rightarrow> labels \<Rightarrow> ('w world, Service) comp" where
  "reconcileRoleService P cluster role n port base =
     createOrUpdate KService svc_meta (CouService P) (emptyService (Namespace (metadata cluster)) n)
       (mutateRoleService P cluster role port base)"

definition writeRouterService :: "labels \<Rightarrow> Service \<Rightarrow> Service go" where
  "writeRouterService base svc =
     Ok (svc\<lparr>svc_meta := (svc_meta svc)\<lparr>Labels := roleLabels base ''router''\<rparr>,
             svc_Selector := roleLabels base ''router'',
             svc_Ports :=
               [\<lparr>sp_Name = ''http'', sp_Port = 8080, sp_Protocol = ''TCP'',
                 sp_TargetPort = intstrFromInt 8080\<rparr>,
                \<lparr>sp_Name = ''metrics'', sp_Port = 9090, sp_Protocol = ''TCP'',
                 sp_TargetPort = intstrFromInt 9090\<rparr>]\<rparr>)"

definition mutateRouterService ::
  "'w platform \<Rightarrow> LLMInferenceCluster \<Rightarrow> labels \<Rightarrow> Service \<Rightarrow> Service go" where
  "mutateRouterService P cluster base =
     withOwner P cluster svc_meta put_svc_meta (writeRouterService base)"

definition reconcileRouterService ::
  "'w platform \<Rightarrow> LLMInferenceCluster \<Rightarrow> string \<Rightarrow> labels \<Rightarrow> ('w world, Service) comp" where
  "reconcileRouterService P cluster n base =
     createOrUpdate KService svc_meta (CouService P) (emptyService (Namespace (metadata cluster)) n)
       (mutateRouterService P cluster base)"

section \<open>Deployments\<close>

definition emptyDeployment :: "string \<Rightarrow> string \<Rightarrow> Deployment" where
  "emptyDeployment ns n = \<lparr>dep_meta = new_meta ns n, dep_Replicas = None, dep_Selector = None,
     dep_TemplateLabels = Map.empty, dep_ServiceAccountName = [], dep_Containers = None\<rparr>"

definition emptyContainer :: "string \<Rightarrow> Container" where
  "emptyContainer n = \<lparr>ct_Name = n, ct_Image = [], ct_ImagePullPolicy = [], ct_Args = [], ct_Env = [],
     ct_Ports = []\<rparr>"

abbreviation put_dep_meta :: "ObjectMeta \<Rightarrow> Deployment \<Rightarrow> Deployment" where
  "put_dep_meta m x \<equiv> x\<lparr>dep_meta := m\<rparr>"

text \<open>
  \<open>if Containers == nil { Containers = [{Name: n}] }; c := &Containers[0]; \<dots>\<close>: the write goes through
  the pointer into the slice, so the other containers stay; an empty slice that is not nil panics.
\<close>

definition updateFirstContainer ::
  "string \<Rightarrow> (Container \<Rightarrow> Container) \<Rightarrow> Deployment \<Rightarrow> Deployment go" where
  "updateFirstContainer n f dep =
     (case (case dep_Containers dep of None \<Rightarrow> [emptyContainer n] | Some cs \<Rightarrow> cs) of
        [] \<Rightarrow> Panic
      | c # cs \<Rightarrow> Ok (dep\<lparr>dep_Containers := Some (f c # cs)\<rparr>))"

definition roleReplicas :: "LLMInferenceCluster \<Rightarrow> string \<Rightarrow> int32 option \<Rightarrow> int32" where
  "roleReplicas cluster role overrideReplicas =
     (let rt = Runtime (spec cluster);
          replicas = 1;
          replicas = (if role = roleDecode then derefInt32 (Replicas (Decode rt)) replicas else replicas);
          replicas = (if role = rolePrefill then derefInt32 (Replicas (Prefill rt)) replicas else replicas);
          replicas = (if role = roleDecode then derefInt32 overrideReplicas replicas else replicas)
      in replicas)"

definition workerContainer ::
  "'w platform \<Rightarrow> LLMInferenceCluster \<Rightarrow> string \<Rightarrow> string \<Rightarrow> Container \<Rightarrow> Container" where
  "workerContainer P cluster role serviceName c =
     c\<lparr>ct_Name := ''worker'',
       ct_Image := model_Image (Model (spec cluster)),
       ct_ImagePullPolicy := ''IfNotPresent'',
       ct_Args := model_Args (Model (spec cluster)),
       ct_Ports := [\<lparr>cp_Name = ''http'', cp_ContainerPort = servicePortForRole cluster role, cp_Protocol = []\<rparr>],
       ct_Env := buildEnvVars P (model_Env (Model (spec cluster))) @
         [plainEnv ''INFERENCE_ROLE'' role,
          plainEnv ''SERVICE_NAME'' serviceName,
          plainEnv ''KV_SHARDS'' (Itoa (sint (derefInt32 (NumShards (KVCache (spec cluster))) 8)))]\<rparr>"

definition writeRoleDeployment ::
  "'w platform \<Rightarrow> LLMInferenceCluster \<Rightarrow> string \<Rightarrow> string \<Rightarrow> labels \<Rightarrow> int32 option \<Rightarrow>
     Deployment \<Rightarrow> Deployment go" where
  "writeRoleDeployment P cluster role serviceName base overrideReplicas dep =
     (let labels = roleLabels base role;
          dep = dep\<lparr>dep_meta := (dep_meta dep)\<lparr>Labels := labels\<rparr>,
                    dep_Replicas := Some (roleReplicas cluster role overrideReplicas),
                    dep_Selector := Some labels,
                    dep_TemplateLabels := labels\<rparr>
      in updateFirstContainer ''worker'' (workerContainer P cluster role serviceName) dep)"

definition mutateRoleDeployment ::
  "'w platform \<Rightarrow> LLMInferenceCluster \<Rightarrow> string \<Rightarrow> string \<Rightarrow> labels \<Rightarrow> int32 option \<Rightarrow>
     Deployment \<Rightarrow> Deployment go" where
  "mutateRoleDeployment P cluster role serviceName base overrideReplicas =
     withOwner P cluster dep_meta put_dep_meta
       (writeRoleDeployment P cluster role serviceName base overrideReplicas)"

text \<open>What the server stores of the closure's result: the same, defaulted.\<close>

definition storedRoleDeployment ::
  "'w platform \<Rightarrow> LLMInferenceCluster \<Rightarrow> string \<Rightarrow> string \<Rightarrow> labels \<Rightarrow> int32 option \<Rightarrow>
     Deployment \<Rightarrow> Deployment go" where
  "storedRoleDeployment P cluster role serviceName base overrideReplicas dep =
     map_go serverDeployment (mutateRoleDeployment P cluster role serviceName base overrideReplicas dep)"

definition reconcileRoleDeployment ::
  "'w platform \<Rightarrow> LLMInferenceCluster \<Rightarrow> string \<Rightarrow> string \<Rightarrow> labels \<Rightarrow> int32 option \<Rightarrow>
     ('w world, Deployment) comp" where
  "reconcileRoleDeployment P cluster role serviceName base overrideReplicas =
     createOrUpdate KDeployment dep_meta (CouDeployment P)
       (emptyDeployment (Namespace (metadata cluster)) (Name (metadata cluster) @ ''-'' @ role))
       (mutateRoleDeployment P cluster role serviceName base overrideReplicas)"

text \<open>\<open>fmt.Sprintf("%s.%s.svc.cluster.local:%d", \<dots>)\<close>.\<close>

definition serviceDNS :: "string \<Rightarrow> string \<Rightarrow> int32 \<Rightarrow> string" where
  "serviceDNS svc ns port = svc @ ''.'' @ ns @ ''.svc.cluster.local:'' @ Itoa (sint port)"

definition routerContainer ::
  "LLMInferenceCluster \<Rightarrow> string \<Rightarrow> int32 \<Rightarrow> int32 \<Rightarrow> Container \<Rightarrow> Container" where
  "routerContainer cluster shardMapName decodePort prefillPort c =
     (let n = Name (metadata cluster); ns = Namespace (metadata cluster) in
      c\<lparr>ct_Name := ''router'',
        ct_Image := ''llm-inference-router:latest'',
        ct_ImagePullPolicy := ''IfNotPresent'',
        ct_Args := [''--shardmap-configmap'', shardMapName,
                    ''--hash-key'', derefString (HashKey (Routing (spec cluster))) ''conversationId''],
        ct_Ports := [\<lparr>cp_Name = ''http'', cp_ContainerPort = 8080, cp_Protocol = []\<rparr>,
                     \<lparr>cp_Name = ''metrics'', cp_ContainerPort = 9090, cp_Protocol = []\<rparr>],
        ct_Env := [\<lparr>env_Name = ''NAMESPACE'', env_Value = [], env_FieldRef = Some \<lparr>fs_APIVersion = [], fs_FieldPath = ''metadata.namespace''\<rparr>\<rparr>,
                   plainEnv ''DECODE_SERVICE_DNS'' (serviceDNS (n @ ''-decode'') ns decodePort),
                   plainEnv ''PREFILL_SERVICE_DNS'' (serviceDNS (n @ ''-prefill'') ns prefillPort)]\<rparr>)"

definition writeRouterDeployment ::
  "LLMInferenceCluster \<Rightarrow> string \<Rightarrow> string \<Rightarrow> labels \<Rightarrow> Deployment \<Rightarrow> Deployment go" where
  "writeRouterDeployment cluster shardMapName serviceAccountName base dep =
     (let labels = roleLabels base ''router'';
          dep = dep\<lparr>dep_meta := (dep_meta dep)\<lparr>Labels := labels\<rparr>,
                    dep_Selector := Some labels,
                    dep_TemplateLabels := labels,
                    dep_Replicas := RouterReplicas (Routing (spec cluster)),
                    dep_ServiceAccountName := serviceAccountName\<rparr>;
          rt = Runtime (spec cluster)
      in case (deref (ServicePort (Decode rt)), deref (ServicePort (Prefill rt))) of
           (Ok decodePort, Ok prefillPort) \<Rightarrow>
             updateFirstContainer ''router'' (routerContainer cluster shardMapName decodePort prefillPort) dep
         | _ \<Rightarrow> Panic)"

definition mutateRouterDeployment ::
  "'w platform \<Rightarrow> LLMInferenceCluster \<Rightarrow> string \<Rightarrow> string \<Rightarrow> labels \<Rightarrow> Deployment \<Rightarrow> Deployment go" where
  "mutateRouterDeployment P cluster shardMapName serviceAccountName base =
     withOwner P cluster dep_meta put_dep_meta
       (writeRouterDeployment cluster shardMapName serviceAccountName base)"

definition storedRouterDeployment ::
  "'w platform \<Rightarrow> LLMInferenceCluster \<Rightarrow> string \<Rightarrow> string \<Rightarrow> labels \<Rightarrow> Deployment \<Rightarrow> Deployment go" where
  "storedRouterDeployment P cluster shardMapName serviceAccountName base dep =
     map_go serverDeployment (mutateRouterDeployment P cluster shardMapName serviceAccountName base dep)"

definition reconcileRouterDeployment ::
  "'w platform \<Rightarrow> LLMInferenceCluster \<Rightarrow> string \<Rightarrow> string \<Rightarrow> string \<Rightarrow> labels \<Rightarrow>
     ('w world, Deployment) comp" where
  "reconcileRouterDeployment P cluster serviceName shardMapName serviceAccountName base =
     createOrUpdate KDeployment dep_meta (CouDeployment P)
       (emptyDeployment (Namespace (metadata cluster)) (Name (metadata cluster) @ ''-router''))
       (mutateRouterDeployment P cluster shardMapName serviceAccountName base)"

section \<open>The router's RBAC objects\<close>

definition emptyServiceAccount :: "string \<Rightarrow> string \<Rightarrow> ServiceAccount" where
  "emptyServiceAccount ns n = \<lparr>sa_meta = new_meta ns n\<rparr>"

definition emptyRole :: "string \<Rightarrow> string \<Rightarrow> Role" where
  "emptyRole ns n = \<lparr>role_meta = new_meta ns n, role_Rules = []\<rparr>"

definition emptyRoleBinding :: "string \<Rightarrow> string \<Rightarrow> RoleBinding" where
  "emptyRoleBinding ns n = \<lparr>rb_meta = new_meta ns n,
     rb_RoleRef = \<lparr>ref_APIGroup = [], ref_Kind = [], ref_Name = []\<rparr>, rb_Subjects = []\<rparr>"

abbreviation put_sa_meta :: "ObjectMeta \<Rightarrow> ServiceAccount \<Rightarrow> ServiceAccount" where
  "put_sa_meta m x \<equiv> x\<lparr>sa_meta := m\<rparr>"

abbreviation put_role_meta :: "ObjectMeta \<Rightarrow> Role \<Rightarrow> Role" where
  "put_role_meta m x \<equiv> x\<lparr>role_meta := m\<rparr>"

abbreviation put_rb_meta :: "ObjectMeta \<Rightarrow> RoleBinding \<Rightarrow> RoleBinding" where
  "put_rb_meta m x \<equiv> x\<lparr>rb_meta := m\<rparr>"

definition writeServiceAccount :: "labels \<Rightarrow> ServiceAccount \<Rightarrow> ServiceAccount go" where
  "writeServiceAccount base sa = Ok (sa\<lparr>sa_meta := (sa_meta sa)\<lparr>Labels := roleLabels base ''router''\<rparr>\<rparr>)"

definition mutateServiceAccount ::
  "'w platform \<Rightarrow> LLMInferenceCluster \<Rightarrow> labels \<Rightarrow> ServiceAccount \<Rightarrow> ServiceAccount go" where
  "mutateServiceAccount P cluster base =
     withOwner P cluster sa_meta put_sa_meta (writeServiceAccount base)"

definition writeRole :: "labels \<Rightarrow> Role \<Rightarrow> Role go" where
  "writeRole base role =
     Ok (role\<lparr>role_meta := (role_meta role)\<lparr>Labels := roleLabels base ''router''\<rparr>,
              role_Rules := [\<lparr>APIGroups = [''''], Resources = [''configmaps''],
                Verbs = [''get'', ''list'', ''watch'']\<rparr>]\<rparr>)"

definition mutateRole :: "'w platform \<Rightarrow> LLMInferenceCluster \<Rightarrow> labels \<Rightarrow> Role \<Rightarrow> Role go" where
  "mutateRole P cluster base = withOwner P cluster role_meta put_role_meta (writeRole base)"

text \<open>The names of the role and of the account are read from the objects the calls before left.\<close>

definition writeRoleBinding ::
  "labels \<Rightarrow> Role \<Rightarrow> ServiceAccount \<Rightarrow> RoleBinding \<Rightarrow> RoleBinding go" where
  "writeRoleBinding base role sa rb =
     Ok (rb\<lparr>rb_meta := (rb_meta rb)\<lparr>Labels := roleLabels base ''router''\<rparr>,
            rb_RoleRef := \<lparr>ref_APIGroup = ''rbac.authorization.k8s.io'', ref_Kind = ''Role'',
              ref_Name = Name (role_meta role)\<rparr>,
            rb_Subjects := [\<lparr>sub_Kind = ''ServiceAccount'', sub_Name = Name (sa_meta sa),
              sub_Namespace = Namespace (sa_meta sa)\<rparr>]\<rparr>)"

definition mutateRoleBinding ::
  "'w platform \<Rightarrow> LLMInferenceCluster \<Rightarrow> labels \<Rightarrow> Role \<Rightarrow> ServiceAccount \<Rightarrow> RoleBinding \<Rightarrow> RoleBinding go" where
  "mutateRoleBinding P cluster base role sa =
     withOwner P cluster rb_meta put_rb_meta (writeRoleBinding base role sa)"

definition reconcileRouterRBAC ::
  "'w platform \<Rightarrow> LLMInferenceCluster \<Rightarrow> string \<Rightarrow> labels \<Rightarrow> ('w world, RoleBinding) comp" where
  "reconcileRouterRBAC P cluster serviceAccountName base =
     (let ns = Namespace (metadata cluster) in
      andThen (createOrUpdate KServiceAccount sa_meta (CouServiceAccount P)
                (emptyServiceAccount ns serviceAccountName) (mutateServiceAccount P cluster base))
       (\<lambda>sa. andThen (createOrUpdate KRole role_meta (CouRole P)
                (emptyRole ns serviceAccountName) (mutateRole P cluster base))
       (\<lambda>role. createOrUpdate KRoleBinding rb_meta (CouRoleBinding P)
                (emptyRoleBinding ns serviceAccountName) (mutateRoleBinding P cluster base role sa))))"

section \<open>ConfigMaps\<close>

definition emptyConfigMap :: "string \<Rightarrow> string \<Rightarrow> ConfigMap" where
  "emptyConfigMap ns n = \<lparr>cm_meta = new_meta ns n, cm_Data = None\<rparr>"

abbreviation put_cm_meta :: "ObjectMeta \<Rightarrow> ConfigMap \<Rightarrow> ConfigMap" where
  "put_cm_meta m x \<equiv> x\<lparr>cm_meta := m\<rparr>"

definition dataMap :: "ConfigMap \<Rightarrow> string \<rightharpoonup> string" where
  "dataMap cm = (case cm_Data cm of None \<Rightarrow> Map.empty | Some m \<Rightarrow> m)"

definition writeShardMapConfigMap :: "labels \<Rightarrow> string \<Rightarrow> ConfigMap \<Rightarrow> ConfigMap go" where
  "writeShardMapConfigMap base shardMapJSON cm =
     Ok (cm\<lparr>cm_meta := (cm_meta cm)\<lparr>Labels := roleLabels base ''shardmap''\<rparr>,
            cm_Data := Some ((dataMap cm)(''shardmap.json'' \<mapsto> shardMapJSON))\<rparr>)"

definition mutateShardMapConfigMap ::
  "'w platform \<Rightarrow> LLMInferenceCluster \<Rightarrow> labels \<Rightarrow> string \<Rightarrow> ConfigMap \<Rightarrow> ConfigMap go" where
  "mutateShardMapConfigMap P cluster base shardMapJSON =
     withOwner P cluster cm_meta put_cm_meta (writeShardMapConfigMap base shardMapJSON)"

definition reconcileShardMapConfigMap ::
  "'w platform \<Rightarrow> LLMInferenceCluster \<Rightarrow> string \<Rightarrow> labels \<Rightarrow> string \<Rightarrow> ('w world, ConfigMap) comp" where
  "reconcileShardMapConfigMap P cluster n base shardMapJSON =
     createOrUpdate KConfigMap cm_meta (CouConfigMap P)
       (emptyConfigMap (Namespace (metadata cluster)) n)
       (mutateShardMapConfigMap P cluster base shardMapJSON)"

text \<open>\<open>if _, ok := m[k]; !ok { m[k] = v }\<close>.\<close>

definition setDefault :: "string \<Rightarrow> string \<Rightarrow> (string \<rightharpoonup> string) \<Rightarrow> (string \<rightharpoonup> string)" where
  "setDefault k v m = (if m k = None then m(k \<mapsto> v) else m)"

definition writeSignalsConfigMap :: "labels \<Rightarrow> ConfigMap \<Rightarrow> ConfigMap go" where
  "writeSignalsConfigMap base cm =
     Ok (cm\<lparr>cm_meta := (cm_meta cm)\<lparr>Labels := roleLabels base ''signals''\<rparr>,
            cm_Data := Some (setDefault ''memPressure'' ''0'' (setDefault ''tokensPerSecond'' ''0''
              (setDefault ''queueDepth'' ''0'' (dataMap cm))))\<rparr>)"

definition mutateSignalsConfigMap ::
  "'w platform \<Rightarrow> LLMInferenceCluster \<Rightarrow> labels \<Rightarrow> ConfigMap \<Rightarrow> ConfigMap go" where
  "mutateSignalsConfigMap P cluster base =
     withOwner P cluster cm_meta put_cm_meta (writeSignalsConfigMap base)"

definition reconcileSignalsConfigMap ::
  "'w platform \<Rightarrow> LLMInferenceCluster \<Rightarrow> string \<Rightarrow> labels \<Rightarrow> ('w world, ConfigMap) comp" where
  "reconcileSignalsConfigMap P cluster n base =
     createOrUpdate KConfigMap cm_meta (CouConfigMap P)
       (emptyConfigMap (Namespace (metadata cluster)) n)
       (mutateSignalsConfigMap P cluster base)"

section \<open>What the closures have in common\<close>

text \<open>
  The contract between a closure and \<open>CreateOrUpdate\<close>: the writing part touches no metadata but the
  labels and, run again on its own result under any metadata, only restores the labels.
\<close>

locale owned_child =
  fixes P :: "'w platform" and cluster :: LLMInferenceCluster
    and meta :: "'o \<Rightarrow> ObjectMeta" and put :: "ObjectMeta \<Rightarrow> 'o \<Rightarrow> 'o"
    and L :: labels and fill :: "'o \<Rightarrow> 'o go" and mutate :: "'o \<Rightarrow> 'o go"
  assumes meta_put [simp]: "meta (put m x) = m"
    and put_meta [simp]: "put (meta x) x = x"
    and put_put [simp]: "put m (put n x) = put m x"
    and fill_no_error: "fill x \<noteq> Err e"
    and fill_meta: "fill x = Ok y \<Longrightarrow> meta y = (meta x)\<lparr>Labels := L\<rparr>"
    and fill_again: "fill x = Ok y \<Longrightarrow> fill (put m y) = Ok (put (m\<lparr>Labels := L\<rparr>) y)"
    and mutate_eq: "mutate = withOwner P cluster meta put fill"
begin

lemma mutate_cases:
  assumes "mutate x = Ok y"
  obtains z m where "fill x = Ok z" "SetControllerReference P (metadata cluster) (meta z) = Inr m" "y = put m z"
  using assms by (auto simp: mutate_eq withOwner_def setOwner_def split: go.splits sum.splits)

lemma mutate_panic: "mutate x = Panic \<longleftrightarrow> fill x = Panic"
  by (auto simp: mutate_eq withOwner_def setOwner_def split: go.splits sum.splits)

lemma mutate_result:
  assumes "owner_law P" "mutate x = Ok y"
  shows "owned_by (metadata cluster) (meta y)"
    and "meta y = (meta x)\<lparr>Labels := L, OwnerReferences := OwnerReferences (meta y)\<rparr>"
    and "\<exists>z. fill x = Ok z \<and> y = put (meta y) z"
proof -
  obtain z m where z: "fill x = Ok z" "SetControllerReference P (metadata cluster) (meta z) = Inr m" "y = put m z"
    using mutate_cases [OF assms(2)] .
  have m: "m = (meta z)\<lparr>OwnerReferences := OwnerReferences m\<rparr>" "owned_by (metadata cluster) m"
    using assms(1) z(2) unfolding owner_law_def by blast+
  show "owned_by (metadata cluster) (meta y)" using m(2) z(3) by simp
  show "meta y = (meta x)\<lparr>Labels := L, OwnerReferences := OwnerReferences (meta y)\<rparr>"
    using m(1) fill_meta [OF z(1)] z(3) by simp
  show "\<exists>z. fill x = Ok z \<and> y = put (meta y) z" using z by auto
qed

lemma mutate_labels: "owner_law P \<Longrightarrow> mutate x = Ok y \<Longrightarrow> Labels (meta y) = L"
  using arg_cong [OF mutate_result(2), of x y Labels] by simp

text \<open>The closure is a fixpoint on what the server stores of its result.\<close>

lemma mutate_again:
  assumes law: "owner_law P" and res: "mutate x = Ok y" and m: "server_meta (meta y) m"
  shows "mutate (put m y) = Ok (put m y)"
proof -
  obtain z m0 where z: "fill x = Ok z" "SetControllerReference P (metadata cluster) (meta z) = Inr m0" "y = put m0 z"
    using mutate_cases [OF res] .
  have m0: "m0 = (meta z)\<lparr>OwnerReferences := OwnerReferences m0\<rparr>"
    and fix0: "\<And>n. OwnerReferences n = OwnerReferences m0 \<Longrightarrow> Namespace n = Namespace (meta z) \<Longrightarrow>
      SetControllerReference P (metadata cluster) n = Inr n"
    using law z(2) unfolding owner_law_def by blast+
  have mm: "m = m0\<lparr>Generation := Generation m, UID := UID m\<rparr>" using m z(3) by (simp add: server_meta_def)
  have L: "Labels m0 = L" by (subst m0) (simp add: fill_meta [OF z(1)])
  have "m\<lparr>Labels := L\<rparr> = m" by (subst (1 2) mm) (simp add: L [symmetric])
  then have w: "fill (put m y) = Ok (put m y)" using fill_again [OF z(1), of m] z(3) by simp
  have "OwnerReferences m = OwnerReferences m0" by (subst mm) simp
  moreover have "Namespace m = Namespace (meta z)" by (subst mm) (subst m0, simp)
  ultimately show ?thesis using w fix0 [of m] by (simp add: mutate_eq withOwner_def setOwner_def)
qed

lemma mutate_twice: "owner_law P \<Longrightarrow> mutate x = Ok y \<Longrightarrow> mutate y = Ok y"
  using mutate_again [of x y "meta y"] by simp

lemma writes_stable:
  assumes "owner_law P" "writes meta put wrap k (mutate x) st y st'"
  shows "mutate y = Ok y"
  using assms mutate_again unfolding writes_def by metis

end

lemmas write_defs =
  writeRoleService_def writeRouterService_def writeRoleDeployment_def writeRouterDeployment_def
  writeServiceAccount_def writeRole_def writeRoleBinding_def writeShardMapConfigMap_def
  writeSignalsConfigMap_def

lemma updateFirstContainer_Ok:
  "updateFirstContainer n f d = Ok e \<Longrightarrow> \<exists>c cs. e = d\<lparr>dep_Containers := Some (f c # cs)\<rparr>"
  by (auto simp: updateFirstContainer_def split: list.splits)

lemma updateFirstContainer_Some [simp]:
  "dep_Containers d = Some (c # cs) \<Longrightarrow> updateFirstContainer n f d = Ok (d\<lparr>dep_Containers := Some (f c # cs)\<rparr>)"
  by (simp add: updateFirstContainer_def)

lemma updateFirstContainer_not_Err [simp]: "updateFirstContainer n f d \<noteq> Err e"
  by (simp add: updateFirstContainer_def split: list.split)

lemma updateFirstContainer_Panic:
  "updateFirstContainer n f d = Panic \<longleftrightarrow> dep_Containers d = Some []"
  by (auto simp: updateFirstContainer_def split: list.split option.splits)

lemma container_idem [simp]:
  "workerContainer P cluster role n (workerContainer P cluster role n c) = workerContainer P cluster role n c"
  "routerContainer cluster n dp pp (routerContainer cluster n dp pp c) = routerContainer cluster n dp pp c"
  by (simp_all add: workerContainer_def routerContainer_def Let_def)

interpretation roleService: owned_child P cluster svc_meta put_svc_meta "roleLabels base role"
  "writeRoleService role port base" "mutateRoleService P cluster role port base"
  for P cluster role port base
  by unfold_locales (auto simp: write_defs mutateRoleService_def)

interpretation routerService: owned_child P cluster svc_meta put_svc_meta "roleLabels base ''router''"
  "writeRouterService base" "mutateRouterService P cluster base"
  for P cluster base
  by unfold_locales (auto simp: write_defs mutateRouterService_def)

lemma withOwner_server:
  "map_go serverDeployment (withOwner P cluster dep_meta put_dep_meta write x) =
    withOwner P cluster dep_meta put_dep_meta (\<lambda>x. map_go serverDeployment (write x)) x"
  by (simp add: withOwner_def setOwner_def split: go.split sum.split)

lemma serverContainer_idem_update:
  "serverContainer (workerContainer P cluster role n (serverContainer c)) = serverContainer (workerContainer P cluster role n c)"
  "serverContainer (routerContainer cluster n dp pp (serverContainer c)) = serverContainer (routerContainer cluster n dp pp c)"
  by (simp_all add: workerContainer_def routerContainer_def serverContainer_def Let_def)

interpretation roleDeployment: owned_child P cluster dep_meta put_dep_meta "roleLabels base role"
  "\<lambda>x. map_go serverDeployment (writeRoleDeployment P cluster role serviceName base overrideReplicas x)"
  "storedRoleDeployment P cluster role serviceName base overrideReplicas"
  for P cluster role serviceName base overrideReplicas
  by unfold_locales
    (auto simp: write_defs storedRoleDeployment_def [abs_def] mutateRoleDeployment_def withOwner_server Let_def
      map_go_Ok serverDeployment_def serverContainer_idem_update comp_def dest!: updateFirstContainer_Ok)

interpretation routerDeployment: owned_child P cluster dep_meta put_dep_meta "roleLabels base ''router''"
  "\<lambda>x. map_go serverDeployment (writeRouterDeployment cluster shardMapName serviceAccountName base x)"
  "storedRouterDeployment P cluster shardMapName serviceAccountName base"
  for P cluster shardMapName serviceAccountName base
  by unfold_locales
    (auto simp: write_defs storedRouterDeployment_def [abs_def] mutateRouterDeployment_def withOwner_server Let_def
      map_go_Ok serverDeployment_def serverContainer_idem_update comp_def deref_def
      split: option.splits dest!: updateFirstContainer_Ok)

text \<open>The closures of the deployments on their own, without the server between two runs.\<close>

interpretation bareRoleDeployment: owned_child P cluster dep_meta put_dep_meta "roleLabels base role"
  "writeRoleDeployment P cluster role serviceName base overrideReplicas"
  "mutateRoleDeployment P cluster role serviceName base overrideReplicas"
  for P cluster role serviceName base overrideReplicas
  by unfold_locales
    (auto simp: write_defs mutateRoleDeployment_def Let_def comp_def dest!: updateFirstContainer_Ok)

interpretation bareRouterDeployment: owned_child P cluster dep_meta put_dep_meta "roleLabels base ''router''"
  "writeRouterDeployment cluster shardMapName serviceAccountName base"
  "mutateRouterDeployment P cluster shardMapName serviceAccountName base"
  for P cluster shardMapName serviceAccountName base
  by unfold_locales
    (auto simp: write_defs mutateRouterDeployment_def Let_def comp_def deref_def
      split: option.splits dest!: updateFirstContainer_Ok)

text \<open>What the closures leave open in a deployment, and the server closes: the protocol of the first port.\<close>

definition unprotocoled :: "Deployment \<Rightarrow> bool" where
  "unprotocoled d \<longleftrightarrow> (\<exists>c cs p ps. dep_Containers d = Some (c # cs) \<and> ct_Ports c = p # ps \<and> cp_Protocol p = [])"

lemma unprotocoled_server: "\<not> unprotocoled (serverDeployment d)"
  by (auto simp: unprotocoled_def serverDeployment_def serverContainer_def serverPort_def split: if_splits)

lemma mutateRole_unprotocoled: "mutateRoleDeployment P cluster role n base ov x = Ok y \<Longrightarrow> unprotocoled y"
  by (auto simp: mutateRoleDeployment_def withOwner_def setOwner_def write_defs Let_def unprotocoled_def workerContainer_def
    split: go.splits sum.splits dest!: updateFirstContainer_Ok)

lemma mutateRouter_unprotocoled: "mutateRouterDeployment P cluster n san base x = Ok y \<Longrightarrow> unprotocoled y"
  by (auto simp: mutateRouterDeployment_def withOwner_def setOwner_def write_defs Let_def unprotocoled_def routerContainer_def
    split: go.splits sum.splits dest!: updateFirstContainer_Ok)

interpretation serviceAccount: owned_child P cluster sa_meta put_sa_meta "roleLabels base ''router''"
  "writeServiceAccount base" "mutateServiceAccount P cluster base"
  for P cluster base
  by unfold_locales (auto simp: write_defs mutateServiceAccount_def)

interpretation role: owned_child P cluster role_meta put_role_meta "roleLabels base ''router''"
  "writeRole base" "mutateRole P cluster base"
  for P cluster base
  by unfold_locales (auto simp: write_defs mutateRole_def)

interpretation roleBinding: owned_child P cluster rb_meta put_rb_meta "roleLabels base ''router''"
  "writeRoleBinding base r sa" "mutateRoleBinding P cluster base r sa"
  for P cluster base r sa
  by unfold_locales (auto simp: write_defs mutateRoleBinding_def)

interpretation shardMapConfigMap: owned_child P cluster cm_meta put_cm_meta "roleLabels base ''shardmap''"
  "writeShardMapConfigMap base shardMapJSON" "mutateShardMapConfigMap P cluster base shardMapJSON"
  for P cluster base shardMapJSON
  by unfold_locales (auto simp: write_defs mutateShardMapConfigMap_def dataMap_def)

lemma setDefault_set: "m k = Some v \<Longrightarrow> setDefault k d m = m"
  by (simp add: setDefault_def)

lemma setDefault_lookup: "setDefault k d m j = (if j = k \<and> m k = None then Some d else m j)"
  by (simp add: setDefault_def)

lemma setDefault_None: "setDefault k d m j = None \<longleftrightarrow> j \<noteq> k \<and> m j = None"
  by (auto simp: setDefault_def)

lemma setDefault_again:
  "setDefault k d (setDefault k2 d2 (setDefault k3 d3 (setDefault k d (setDefault k2 d2 (setDefault k3 d3 m))))) =
   setDefault k d (setDefault k2 d2 (setDefault k3 d3 m))"
proof -
  define n where "n = setDefault k d (setDefault k2 d2 (setDefault k3 d3 m))"
  have keep: "setDefault j e n = n" if "j \<in> {k, k2, k3}" for j e
    using that by (auto simp: setDefault_def [of j] n_def setDefault_None)
  show ?thesis unfolding n_def [symmetric] by (simp add: keep)
qed

interpretation signalsConfigMap: owned_child P cluster cm_meta put_cm_meta "roleLabels base ''signals''"
  "writeSignalsConfigMap base" "mutateSignalsConfigMap P cluster base"
  for P cluster base
  by unfold_locales (auto simp: write_defs mutateSignalsConfigMap_def dataMap_def setDefault_again)

end
