(* ===== verification/ShardAssign.thy ===== *)
theory ShardAssign
  imports Routing Resources
begin

text \<open>
  \<open>computeShardMap\<close> of the controller: list the decode pods, choose those that may own shards, assign
  every shard through the ring, and print the document the router will read.
\<close>

section \<open>Pods\<close>

fun readyCondition :: "PodCondition list \<Rightarrow> bool" where
  "readyCondition [] = False"
| "readyCondition (c # cs) = (if pc_Type c = ''Ready'' \<and> pc_Status c = ''True'' then True else readyCondition cs)"

definition isPodReady :: "Pod \<Rightarrow> bool" where
  "isPodReady pod = readyCondition (pod_Conditions pod)"

text \<open>The names of the ready pods, or of all pods when none is ready.\<close>

definition ownerCandidates :: "Pod list \<Rightarrow> string list" where
  "ownerCandidates pods =
     (let ready = map (\<lambda>p. Name (pod_meta p)) (filter isPodReady pods)
      in if ready = [] then map (\<lambda>p. Name (pod_meta p)) pods else ready)"

section \<open>The document\<close>

record shardMapEntry =
  sme_ShardID :: int32
  sme_Role :: string
  sme_OwnerPod :: string

record shardMapDoc =
  smd_Version :: "64 word"
  smd_Shards :: "shardMapEntry list"

text \<open>\<open>json.Marshal\<close> with the struct tags: \<open>ownerPod\<close> is left out when empty.\<close>

definition json_of_entry :: "shardMapEntry \<Rightarrow> json" where
  "json_of_entry e =
     JObj ([(''shardID'', JNum (Itoa (sint (sme_ShardID e)))), (''role'', JStr (sme_Role e))] @
       (if sme_OwnerPod e = [] then [] else [(''ownerPod'', JStr (sme_OwnerPod e))]))"

definition json_of_doc :: "shardMapDoc \<Rightarrow> json" where
  "json_of_doc d =
     JObj [(''version'', JNum (Itoa (sint (smd_Version d)))),
           (''shards'', JArr (map json_of_entry (smd_Shards d)))]"

definition marshalDoc :: "shardMapDoc \<Rightarrow> string" where
  "marshalDoc d = print_json (json_of_doc d)"

section \<open>The assignment loop\<close>

definition shardOwner :: "Ring \<Rightarrow> int32 \<Rightarrow> (string \<times> ShardPhase) go" where
  "shardOwner ring i =
     (if Empty ring then Ok ([], ShardPhasePending)
      else case Pick 64 ring i of
        Ok owner \<Rightarrow> Ok (owner, ShardPhaseReady)
      | Err e \<Rightarrow> Err e
      | Panic \<Rightarrow> Panic)"

definition shardStatusOf :: "int32 \<Rightarrow> string \<Rightarrow> ShardPhase \<Rightarrow> Time \<Rightarrow> ShardStatus" where
  "shardStatusOf i owner phase now =
     \<lparr>ss_ShardID = i, ss_Role = roleDecode, ss_OwnerPod = owner, ss_Phase = phase, ss_LastHeartbeat = now\<rparr>"

definition shardEntryOf :: "int32 \<Rightarrow> string \<Rightarrow> shardMapEntry" where
  "shardEntryOf i owner = \<lparr>sme_ShardID = i, sme_Role = roleDecode, sme_OwnerPod = owner\<rparr>"

function shardLoop ::
  "Ring \<Rightarrow> Time \<Rightarrow> int32 \<Rightarrow> int32 \<Rightarrow> ShardStatus list \<Rightarrow> shardMapEntry list \<Rightarrow>
     (ShardStatus list \<times> shardMapEntry list) go" where
  "shardLoop ring now numShards i shards entries =
     (if i <s numShards then
        (case shardOwner ring i of
           Ok (owner, phase) \<Rightarrow>
             shardLoop ring now numShards (i + 1) (shards @ [shardStatusOf i owner phase now])
               (entries @ [shardEntryOf i owner])
         | Err e \<Rightarrow> Err e
         | Panic \<Rightarrow> Panic)
      else Ok (shards, entries))"
  by pat_completeness auto
termination
  by (relation "measure (\<lambda>(ring, now, n, i, ss, es). nat (sint n - sint i))")
    (auto simp: int32_less_add1 int32_less)

declare shardLoop.simps [simp del]

text \<open>\<open>make([]T, 0, n)\<close> panics for a negative capacity.\<close>

definition assignShards :: "Pod list \<Rightarrow> int32 \<Rightarrow> Time \<Rightarrow> (ShardStatus list \<times> string) go" where
  "assignShards pods numShards now =
     (if numShards <s 0 then Panic
      else case shardLoop (NewRing (ownerCandidates pods)) now numShards 0 [] [] of
        Ok (shards, entries) \<Rightarrow> Ok (shards, marshalDoc \<lparr>smd_Version = 1, smd_Shards = entries\<rparr>)
      | Err e \<Rightarrow> Err e
      | Panic \<Rightarrow> Panic)"

definition computeShardMap ::
  "'w platform \<Rightarrow> LLMInferenceCluster \<Rightarrow> labels \<Rightarrow> ('w world, ShardStatus list \<times> string) comp" where
  "computeShardMap P cluster base =
     (let ns = Namespace (metadata cluster); sel = roleLabels base roleDecode in
      andThen (listPods P ns sel)
        (\<lambda>pods. andThen (clock P)
        (\<lambda>now. lift_go (assignShards pods (derefInt32 (NumShards (KVCache (spec cluster))) 8) now))))"

section \<open>The loop as a map over the shard numbers\<close>

definition shardIDs :: "int32 \<Rightarrow> int32 list" where
  "shardIDs n = map word_of_nat [0..<nat (sint n)]"

text \<open>The owner and the phase every shard gets, with no loop and no panic.\<close>

definition ownerOf :: "string list \<Rightarrow> int32 \<Rightarrow> string" where
  "ownerOf ns i =
     (if ns = [] then []
      else sort ns ! nat (uint (fnv32a (Itoa (sint i))) mod int (length ns)))"

definition phaseOf :: "string list \<Rightarrow> ShardPhase" where
  "phaseOf ns = (if ns = [] then ShardPhasePending else ShardPhaseReady)"

lemma shardOwner_spec: "shardOwner (NewRing ns) i = Ok (ownerOf ns i, phaseOf ns)"
  using ring64.empty_iff [of ns] Pick_64 [of "NewRing ns" i]
  by (auto simp: shardOwner_def ownerOf_def phaseOf_def NewRing_def)

lemma shardLoop_spec:
  "shardLoop (NewRing ns) now n i ss es =
    Ok (ss @ map (\<lambda>k. shardStatusOf (i + word_of_nat k) (ownerOf ns (i + word_of_nat k)) (phaseOf ns) now)
          [0..<nat (sint n - sint i)],
        es @ map (\<lambda>k. shardEntryOf (i + word_of_nat k) (ownerOf ns (i + word_of_nat k)))
          [0..<nat (sint n - sint i)])"
proof (induction "nat (sint n - sint i)" arbitrary: i ss es)
  case 0
  then show ?case by (simp add: shardLoop.simps [of _ _ n i] int32_less)
next
  case (Suc m)
  then have lt: "i <s n" by (simp add: int32_less)
  have m: "m = nat (sint n - sint (i + 1))"
    using Suc.hyps(2) by (simp add: int32_less_add1 [OF lt])
  have upt: "[0..<Suc m] = 0 # map Suc [0..<m]"
    by (simp add: upt_conv_Cons map_Suc_upt del: upt_Suc)
  show ?case
    by (simp add: shardLoop.simps [of _ _ n i] lt shardOwner_spec Suc.hyps(1) [OF m]
      m [symmetric] Suc.hyps(2) [symmetric] upt add.assoc del: upt_Suc)
qed

lemma assignShards_spec:
  assumes "0 \<le> sint n"
  shows "assignShards pods n now =
    Ok (map (\<lambda>i. shardStatusOf i (ownerOf (ownerCandidates pods) i) (phaseOf (ownerCandidates pods)) now)
          (shardIDs n),
        marshalDoc \<lparr>smd_Version = 1,
          smd_Shards = map (\<lambda>i. shardEntryOf i (ownerOf (ownerCandidates pods) i)) (shardIDs n)\<rparr>)"
  using assms by (simp add: assignShards_def shardLoop_spec shardIDs_def int32_less comp_def)

lemma assignShards_negative: "sint n < 0 \<Longrightarrow> assignShards pods n now = Panic"
  by (simp add: assignShards_def int32_less)

lemma ownerOf_member: "ns \<noteq> [] \<Longrightarrow> ownerOf ns i \<in> set ns"
  using ring64.pick_member [of ns i] Pick_64 [of "NewRing ns" i]
  by (auto simp: ownerOf_def NewRing_def)

lemma ownerOf_perm: "mset ns = mset ms \<Longrightarrow> ownerOf ns i = ownerOf ms i"
  using sort_perm_eq [of ns ms] mset_eq_length [of ns ms] by (auto simp: ownerOf_def)

lemma sint_word_of_nat32: "k < 2147483648 \<Longrightarrow> sint (word_of_nat k :: int32) = int k"
  using sint32_of_int [of "int k"] by simp

lemma shardIDs_nth: "k < length (shardIDs n) \<Longrightarrow> sint (shardIDs n ! k) = int k"
  using sint32_bounds(2) [of n] by (simp add: shardIDs_def sint_word_of_nat32)

lemma length_shardIDs: "length (shardIDs n) = nat (sint n)"
  by (simp add: shardIDs_def)

lemma distinct_shardIDs: "distinct (shardIDs n)"
  unfolding distinct_conv_nth using shardIDs_nth by (metis of_nat_eq_iff)

lemma set_shardIDs: "set (shardIDs n) = {i :: int32. 0 \<le> sint i \<and> sint i < sint n}"
proof (intro equalityI subsetI)
  fix i :: int32 assume "i \<in> set (shardIDs n)"
  then obtain k where "k < length (shardIDs n)" "i = shardIDs n ! k" by (metis in_set_conv_nth)
  then show "i \<in> {i. 0 \<le> sint i \<and> sint i < sint n}"
    using shardIDs_nth [of k n] by (simp add: length_shardIDs)
next
  fix i :: int32 assume "i \<in> {i. 0 \<le> sint i \<and> sint i < sint n}"
  then have k: "nat (sint i) < length (shardIDs n)" "0 \<le> sint i" by (simp_all add: length_shardIDs)
  then have "sint (shardIDs n ! nat (sint i)) = sint i" using shardIDs_nth by simp
  then have "shardIDs n ! nat (sint i) = i" by (rule signed_word_eqI)
  then show "i \<in> set (shardIDs n)" using k by (metis nth_mem)
qed

section \<open>The router reads what the controller prints\<close>

definition assignmentOf :: "shardMapEntry \<Rightarrow> ShardAssignment" where
  "assignmentOf e = \<lparr>sa_ShardID = sme_ShardID e, sa_Role = sme_Role e, sa_OwnerPod = sme_OwnerPod e\<rparr>"

definition shardMapOf :: "shardMapDoc \<Rightarrow> ShardMap" where
  "shardMapOf d = \<lparr>sm_Version = smd_Version d, sm_Shards = map assignmentOf (smd_Shards d)\<rparr>"

definition utf8_doc :: "shardMapDoc \<Rightarrow> bool" where
  "utf8_doc d \<longleftrightarrow> list_all (\<lambda>e. valid_utf8 (sme_Role e) \<and> valid_utf8 (sme_OwnerPod e)) (smd_Shards d)"

lemma field_names:
  "\<not> key_matches ''version'' ''shards''" "\<not> key_matches ''shardID'' ''role''"
  "\<not> key_matches ''shardID'' ''ownerPod''" "\<not> key_matches ''role'' ''ownerPod''"
  by code_simp+

lemma field_names_utf8:
  "valid_utf8 ''version''" "valid_utf8 ''shards''" "valid_utf8 ''shardID''" "valid_utf8 ''role''"
  "valid_utf8 ''ownerPod''"
  by code_simp+

lemma json_of_doc_printable:
  assumes "utf8_doc d"
  shows "printable (json_of_doc d)" and "json_depth (json_of_doc d) \<le> maxNestingDepth"
proof -
  show "printable (json_of_doc d)"
    using assms by (auto simp: json_of_doc_def json_of_entry_def utf8_doc_def field_names_utf8 list_all_iff
      simp del: valid_utf8.simps(2))
  have depth: "foldr max (map (json_depth \<circ> json_of_entry) es) 0 \<le> 1" for es
    by (induction es) (auto simp: json_of_entry_def)
  show "json_depth (json_of_doc d) \<le> maxNestingDepth"
    using depth [of "smd_Shards d"] by (simp add: json_of_doc_def maxNestingDepth_def)
qed

lemma decode_Itoa:
  "decode_int 32 (JNum (Itoa (sint (v :: int32)))) old = Some (sint v)"
  "decode_int 64 (JNum (Itoa (sint (u :: 64 word)))) old = Some (sint u)"
  using sint_ge [of v] sint_lt [of v] sint_ge [of u] sint_lt [of u]
  by (simp_all add: decode_int_def ParseInt_Itoa)

lemma decode_entry:
  "decode_struct shard_field (json_of_entry e) zero_shard =
    Some \<lparr>raw_ShardID = sme_ShardID e, raw_Role = sme_Role e, raw_OwnerPod = sme_OwnerPod e\<rparr>"
  by (simp add: decode_struct_def json_of_entry_def shard_field_def field_names decode_Itoa
    decode_string_def zero_shard_def)

lemma decode_doc:
  "decode_struct doc_field (json_of_doc d) zero_doc =
    Some \<lparr>raw_Version = smd_Version d,
      raw_Shards = map (\<lambda>e. \<lparr>raw_ShardID = sme_ShardID e, raw_Role = sme_Role e, raw_OwnerPod = sme_OwnerPod e\<rparr>)
        (smd_Shards d)\<rparr>"
proof -
  have "decode_slice (decode_struct shard_field) zero_shard (JArr (map json_of_entry (smd_Shards d))) [] =
      Some (map (\<lambda>e. \<lparr>raw_ShardID = sme_ShardID e, raw_Role = sme_Role e, raw_OwnerPod = sme_OwnerPod e\<rparr>)
        (smd_Shards d))"
    by (simp add: decode_slice_def decode_elems_fresh comp_def decode_entry those_map_Some)
  then show ?thesis
    by (simp add: decode_struct_def [of doc_field] json_of_doc_def doc_field_def field_names decode_Itoa
      zero_doc_def)
qed

lemma print_json_Obj_nonempty: "print_json (JObj ms) \<noteq> []"
  by simp

lemma Parse_marshal:
  assumes "utf8_doc d"
  shows "ParseShardMapJSON (marshalDoc d) = Inr (shardMapOf d)"
proof -
  have "json_parse (marshalDoc d) = Some (json_of_doc d)"
    using json_parse_print json_of_doc_printable [OF assms] by (simp add: marshalDoc_def)
  moreover have "marshalDoc d \<noteq> []" by (simp add: marshalDoc_def json_of_doc_def)
  ultimately show ?thesis
    by (simp add: ParseShardMapJSON_def decode_doc shardMapOf_def assignmentOf_def)
qed

lemma assignShards_perm:
  assumes "mset pods = mset pods'"
  shows "assignShards pods n now = assignShards pods' n now"
proof -
  have "mset (filter isPodReady pods) = mset (filter isPodReady pods')" using assms by (simp add: mset_filter)
  moreover from this have "filter isPodReady pods = [] \<longleftrightarrow> filter isPodReady pods' = []" by (metis mset_zero_iff)
  ultimately have m: "mset (ownerCandidates pods) = mset (ownerCandidates pods')"
    using assms by (simp add: ownerCandidates_def Let_def)
  then have "NewRing (ownerCandidates pods) = NewRing (ownerCandidates pods')" by (rule ring64.order_irrelevant)
  then show ?thesis by (simp add: assignShards_def)
qed

text \<open>The document does not carry the time.\<close>

lemma assignShards_document:
  assumes "assignShards pods n t = Ok (shards, json)" "assignShards pods' n t' = Ok (shards', json')" "mset pods = mset pods'"
  shows "json = json'"
proof -
  have "0 \<le> sint n" using assms(1) assignShards_negative [of n pods t] by force
  then show ?thesis
    using assms(1,2) assignShards_perm [OF assms(3), of n t] by (simp add: assignShards_spec)
qed

lemma ownerCandidates_Nil: "ownerCandidates pods = [] \<longleftrightarrow> pods = []"
  by (auto simp: ownerCandidates_def Let_def)

lemma owner_ready_pod:
  assumes "pods \<noteq> []"
  shows "\<exists>p \<in> set pods. ownerOf (ownerCandidates pods) i = Name (pod_meta p) \<and> (isPodReady p \<or> \<not> list_ex isPodReady pods)"
proof -
  have "ownerOf (ownerCandidates pods) i \<in> set (ownerCandidates pods)"
    using assms by (intro ownerOf_member) (simp add: ownerCandidates_Nil)
  then show ?thesis
    by (auto simp: ownerCandidates_def Let_def list_ex_iff filter_empty_conv split: if_splits)
qed

section \<open>Properties\<close>

text \<open>
  C15: Every shard is assigned. For a shard count that is not negative the assignment succeeds; the
  published shards are numbered 0, 1, ... in order; each satisfies the CRD's validation; each is owned by
  one of the listed pods and Ready, and that pod is ready unless no pod is; without pods each shard is
  Pending and has no owner.
\<close>

theorem shards_assigned:
  assumes "0 \<le> sint n"
  shows "\<exists>shards json. assignShards pods n now = Ok (shards, json) \<and>
    map (\<lambda>sh. sint (ss_ShardID sh)) shards = map int [0..<nat (sint n)] \<and>
    (\<forall>sh \<in> set shards. valid_ShardStatus sh \<and>
       (if pods = [] then ss_OwnerPod sh = [] \<and> ss_Phase sh = ShardPhasePending
        else ss_Phase sh = ShardPhaseReady \<and>
          (\<exists>p \<in> set pods. ss_OwnerPod sh = Name (pod_meta p) \<and> (isPodReady p \<or> \<not> list_ex isPodReady pods))))"
proof -
  let ?sh = "\<lambda>i. shardStatusOf i (ownerOf (ownerCandidates pods) i) (phaseOf (ownerCandidates pods)) now"
  have ids: "map (\<lambda>sh. sint (ss_ShardID sh)) (map ?sh (shardIDs n)) = map int [0..<nat (sint n)]"
    by (rule nth_equalityI) (simp_all add: length_shardIDs shardStatusOf_def shardIDs_nth)
  have "valid_ShardStatus (?sh i) \<and>
      (if pods = [] then ss_OwnerPod (?sh i) = [] \<and> ss_Phase (?sh i) = ShardPhasePending
       else ss_Phase (?sh i) = ShardPhaseReady \<and>
         (\<exists>p \<in> set pods. ss_OwnerPod (?sh i) = Name (pod_meta p) \<and> (isPodReady p \<or> \<not> list_ex isPodReady pods)))"
    if "i \<in> set (shardIDs n)" for i
  proof -
    have "valid_ShardStatus (?sh i)"
      using that by (auto simp: valid_ShardStatus_def shardStatusOf_def set_shardIDs roleDecode_def phaseOf_def)
    moreover note owner_ready_pod [of pods i]
    ultimately show ?thesis by (auto simp: shardStatusOf_def phaseOf_def ownerOf_def ownerCandidates_def Let_def)
  qed
  then show ?thesis using assignShards_spec [OF assms, of pods now] ids by auto
qed

theorem shards_assigned_witness:
  "\<exists>shards json. assignShards [\<lparr>pod_meta = new_meta ''ns'' ''p'', pod_Conditions = []\<rparr>] 3 7 = Ok (shards, json) \<and>
    map (\<lambda>sh. sint (ss_ShardID sh)) shards = [0, 1, 2] \<and> (\<forall>sh \<in> set shards. ss_OwnerPod sh = ''p'')"
proof -
  have "map int [0..<nat (sint (3 :: int32))] = [0, 1, 2]" by code_simp
  then show ?thesis using shards_assigned [of 3 "[\<lparr>pod_meta = new_meta ''ns'' ''p'', pod_Conditions = []\<rparr>]" 7] by auto
qed

text \<open>
  C16: The assignment is stable. It depends on which pods are listed, not on the order in which the API
  server lists them: two lists with the same pods give the same shards and the same document, byte for
  byte.
\<close>

theorem shards_stable:
  assumes "mset pods = mset pods'"
  shows "assignShards pods n now = assignShards pods' n now"
  using assms by (rule assignShards_perm)

theorem shards_stable_witness:
  "let p = (\<lambda>n. \<lparr>pod_meta = new_meta ''ns'' n, pod_Conditions = []\<rparr>) in
   assignShards [p ''a'', p ''b''] 4 7 = assignShards [p ''b'', p ''a''] 4 7"
  unfolding Let_def by (rule shards_stable) simp

text \<open>
  C17: The loop is a map. The loop over the shard numbers with its two growing slices computes what a
  single pass over the numbers 0 to \<open>numShards - 1\<close> gives, for the status and for the document; it
  panics exactly for a negative count, which the CRD's validation excludes.
\<close>

theorem shard_loop_reference:
  "assignShards pods n now =
    (if sint n < 0 then Panic
     else let ns = ownerCandidates pods in
       Ok (map (\<lambda>i. shardStatusOf i (ownerOf ns i) (phaseOf ns) now) (shardIDs n),
           marshalDoc \<lparr>smd_Version = 1, smd_Shards = map (\<lambda>i. shardEntryOf i (ownerOf ns i)) (shardIDs n)\<rparr>))"
  using assignShards_negative [of n pods now] assignShards_spec [of n pods now] by (simp add: Let_def)

text \<open>
  C18: Round trip. The router's parser reads back the document the controller prints, for every document
  with UTF-8 names: the version, and every shard with its number, role and owner.
\<close>

theorem shardmap_roundtrip:
  assumes "utf8_doc d"
  shows "ParseShardMapJSON (marshalDoc d) = Inr (shardMapOf d)"
  by (rule Parse_marshal [OF assms])

theorem shardmap_roundtrip_witness:
  "ParseShardMapJSON (marshalDoc \<lparr>smd_Version = 1,
      smd_Shards = [\<lparr>sme_ShardID = 0, sme_Role = ''decode'', sme_OwnerPod = ''p<1>''\<rparr>]\<rparr>) =
    Inr \<lparr>sm_Version = 1, sm_Shards = [\<lparr>sa_ShardID = 0, sa_Role = ''decode'', sa_OwnerPod = ''p<1>''\<rparr>]\<rparr>"
proof -
  let ?d = "\<lparr>smd_Version = 1, smd_Shards = [\<lparr>sme_ShardID = 0, sme_Role = ''decode'', sme_OwnerPod = ''p<1>''\<rparr>]\<rparr> :: shardMapDoc"
  have "utf8_doc ?d" by code_simp
  from shardmap_roundtrip [OF this] show ?thesis by (simp add: shardMapOf_def assignmentOf_def)
qed

end
