(* ===== verification/Defaults.thy ===== *)
theory Defaults
  imports Types
begin

text \<open>
  The defaulting that \<open>Reconcile\<close> applies to the spec before it does anything else, and what the
  rest of the function relies on: every pointer it later reads is set.
\<close>

definition orDefault :: "'a option \<Rightarrow> 'a \<Rightarrow> 'a option" where
  "orDefault p d = (case p of None \<Rightarrow> Some d | Some v \<Rightarrow> Some v)"

definition orNonEmpty :: "string \<Rightarrow> string \<Rightarrow> string" where
  "orNonEmpty s d = (if s = [] then d else s)"

definition applyDefaults :: "LLMInferenceClusterSpec \<Rightarrow> LLMInferenceClusterSpec" where
  "applyDefaults s =
     s\<lparr>Routing := (Routing s)\<lparr>Mode := orNonEmpty (Mode (Routing s)) RoutingModeSessionAffinity,
         HashKey := orDefault (HashKey (Routing s)) ''conversationId'',
         RouterReplicas := orDefault (RouterReplicas (Routing s)) 1\<rparr>,
       Runtime := (Runtime s)\<lparr>
         Decode := (Decode (Runtime s))\<lparr>ServicePort := orDefault (ServicePort (Decode (Runtime s))) 8000\<rparr>,
         Prefill := (Prefill (Runtime s))\<lparr>ServicePort := orDefault (ServicePort (Prefill (Runtime s))) 8001\<rparr>\<rparr>,
       KVCache := (KVCache s)\<lparr>Strategy := orNonEmpty (Strategy (KVCache s)) KVCacheStrategySharded,
         NumShards := orDefault (NumShards (KVCache s)) 8,
         kv_EvictionPolicy := orNonEmpty (kv_EvictionPolicy (KVCache s)) EvictionPolicyLRU,
         WarmCache := orNonEmpty (WarmCache (KVCache s)) WarmCacheNone\<rparr>\<rparr>"

definition defaulted :: "LLMInferenceClusterSpec \<Rightarrow> bool" where
  "defaulted s \<longleftrightarrow>
     Mode (Routing s) \<noteq> [] \<and> HashKey (Routing s) \<noteq> None \<and> RouterReplicas (Routing s) \<noteq> None \<and>
     ServicePort (Decode (Runtime s)) \<noteq> None \<and> ServicePort (Prefill (Runtime s)) \<noteq> None \<and>
     Strategy (KVCache s) \<noteq> [] \<and> NumShards (KVCache s) \<noteq> None \<and>
     kv_EvictionPolicy (KVCache s) \<noteq> [] \<and> WarmCache (KVCache s) \<noteq> []"

lemma orDefault_simps [simp]:
  "orDefault None d = Some d" "orDefault (Some v) d = Some v" "orDefault p d \<noteq> None"
  by (simp_all add: orDefault_def split: option.split)

lemma orDefault_idem [simp]: "orDefault (orDefault p d) d = orDefault p d"
  by (cases p) simp_all

lemma orNonEmpty_idem [simp]: "orNonEmpty (orNonEmpty s d) d = orNonEmpty s d"
  by (simp add: orNonEmpty_def)

lemma orNonEmpty_nonempty: "d \<noteq> [] \<Longrightarrow> orNonEmpty s d \<noteq> []"
  by (simp add: orNonEmpty_def)

lemma defaulted_applyDefaults: "defaulted (applyDefaults s)"
  by (simp add: defaulted_def applyDefaults_def orNonEmpty_nonempty string_constants)

lemma applyDefaults_idem: "applyDefaults (applyDefaults s) = applyDefaults s"
  by (simp add: applyDefaults_def)

lemma applyDefaults_id: "defaulted s \<Longrightarrow> applyDefaults s = s"
  by (auto simp: defaulted_def applyDefaults_def orNonEmpty_def)

lemma valid_orDefault:
  "at_least b p \<Longrightarrow> b \<le> sint d \<Longrightarrow> at_least b (orDefault p d)"
  "at_most b p \<Longrightarrow> sint d \<le> b \<Longrightarrow> at_most b (orDefault p d)"
  by (cases p; simp add: at_least_def at_most_def)+

lemma valid_applyDefaults:
  assumes "valid_Spec s" shows "valid_Spec (applyDefaults s)"
proof -
  note defs = applyDefaults_def orNonEmpty_def string_constants
  have "valid_RuntimeSpec (Runtime (applyDefaults s))"
    using assms by (simp add: defs valid_Spec_def valid_RuntimeSpec_def valid_WorkloadRoleSpec_def valid_orDefault)
  moreover have "valid_KVCacheSpec (KVCache (applyDefaults s))"
    using assms by (auto simp: defs valid_Spec_def valid_KVCacheSpec_def valid_orDefault)
  moreover have "valid_RoutingSpec (Routing (applyDefaults s))"
    using assms
    by (cases "HashKey (Routing s)") (auto simp: defs valid_Spec_def valid_RoutingSpec_def valid_orDefault)
  ultimately show ?thesis
    using assms by (simp add: valid_Spec_def) (simp add: applyDefaults_def)
qed

text \<open>What the CRD's validation says about the number of shards, with the default.\<close>

lemma valid_NumShards: "valid_Spec s \<Longrightarrow> NumShards (KVCache s) = Some n \<Longrightarrow> 1 \<le> sint n"
  by (simp add: valid_Spec_def valid_KVCacheSpec_def at_least_def)

section \<open>Property\<close>

text \<open>
  C29: Defaults. Defaulting sets every field the reconciliation later reads through a pointer and changes a
  spec only if something was missing. Each of the nine fields it looks at keeps the user's value where
  there is one and gets its default where there is none; with these fields put back the spec is the
  user's, so nothing else changes. A valid spec stays valid.
\<close>

theorem defaults_complete:
  "let d = applyDefaults s in
   defaulted d \<and> (d = s \<longleftrightarrow> defaulted s) \<and>
   Mode (Routing d) = (if Mode (Routing s) = [] then ''sessionAffinity'' else Mode (Routing s)) \<and>
   HashKey (Routing d) = (if HashKey (Routing s) = None then Some ''conversationId'' else HashKey (Routing s)) \<and>
   RouterReplicas (Routing d) = (if RouterReplicas (Routing s) = None then Some 1 else RouterReplicas (Routing s)) \<and>
   ServicePort (Decode (Runtime d)) =
     (if ServicePort (Decode (Runtime s)) = None then Some 8000 else ServicePort (Decode (Runtime s))) \<and>
   ServicePort (Prefill (Runtime d)) =
     (if ServicePort (Prefill (Runtime s)) = None then Some 8001 else ServicePort (Prefill (Runtime s))) \<and>
   Strategy (KVCache d) = (if Strategy (KVCache s) = [] then ''sharded'' else Strategy (KVCache s)) \<and>
   NumShards (KVCache d) = (if NumShards (KVCache s) = None then Some 8 else NumShards (KVCache s)) \<and>
   kv_EvictionPolicy (KVCache d) = (if kv_EvictionPolicy (KVCache s) = [] then ''lru'' else kv_EvictionPolicy (KVCache s)) \<and>
   WarmCache (KVCache d) = (if WarmCache (KVCache s) = [] then ''none'' else WarmCache (KVCache s)) \<and>
   d\<lparr>Routing := Routing s, KVCache := KVCache s,
     Runtime := (Runtime d)\<lparr>Decode := (Decode (Runtime d))\<lparr>ServicePort := ServicePort (Decode (Runtime s))\<rparr>,
       Prefill := (Prefill (Runtime d))\<lparr>ServicePort := ServicePort (Prefill (Runtime s))\<rparr>\<rparr>\<rparr> = s \<and>
   (valid_Spec s \<longrightarrow> valid_Spec d)"
proof -
  have "applyDefaults s = s \<longleftrightarrow> defaulted s" using applyDefaults_id [of s] defaulted_applyDefaults [of s] by metis
  moreover note defaulted_applyDefaults [of s] valid_applyDefaults [of s]
  ultimately show ?thesis
    unfolding Let_def
    by (intro conjI impI) (simp_all add: applyDefaults_def orNonEmpty_def orDefault_def string_constants split: option.split)
qed

theorem defaults_complete_witness:
  "let s = \<lparr>Model = \<lparr>model_Name = ''m'', model_Image = ''i'', model_Args = [], model_Env = []\<rparr>,
      Runtime = (let r = \<lparr>Replicas = Some 2, ServicePort = None, PodLabels = Map.empty\<rparr> in \<lparr>Prefill = r, Decode = r\<rparr>),
      KVCache = \<lparr>Strategy = [], NumShards = Some 2, kv_EvictionPolicy = [], WarmCache = []\<rparr>,
      Routing = \<lparr>Mode = [], HashKey = None, RouterReplicas = None\<rparr>,
      Autoscaling = \<lparr>Enabled = None, MinReplicas = None, MaxReplicas = None,
         as_Signals = \<lparr>Source = [], PrometheusURL = None\<rparr>\<rparr>\<rparr>
   in valid_Spec s \<and> valid_Spec (applyDefaults s)"
  unfolding Let_def
  by (rule conjI [OF _ defaults_complete [unfolded Let_def, THEN conjunct2, THEN conjunct2, THEN conjunct2, THEN conjunct2,
    THEN conjunct2, THEN conjunct2, THEN conjunct2, THEN conjunct2, THEN conjunct2, THEN conjunct2, THEN conjunct2,
    THEN conjunct2, THEN mp]]) (simp_all add: validation_defs)

end
