(* ===== verification/Controller.thy ===== *)
theory Controller
  imports Autoscaler ShardAssign Defaults
begin

text \<open>
  \<open>LLMInferenceClusterReconciler\<close>: the condition helpers and \<open>Reconcile\<close> itself, in the order of the
  source. The definition is cut at the source's own blank lines; the parts are composed by passing
  the rest of the function as an argument, so an early return skips it.
\<close>

section \<open>Conditions\<close>

definition llmInferenceClusterFinalizer :: string where
  "llmInferenceClusterFinalizer = ''inference.llm.io/finalizer''"

definition conditionReady :: string where "conditionReady = ''Ready''"
definition conditionDegraded :: string where "conditionDegraded = ''Degraded''"
definition conditionScaling :: string where "conditionScaling = ''Scaling''"

definition setCondition ::
  "'w platform \<Rightarrow> LLMInferenceCluster \<Rightarrow> Condition \<Rightarrow> LLMInferenceCluster" where
  "setCondition P cluster cond =
     cluster\<lparr>status := (status cluster)\<lparr>Conditions := SetStatusCondition P (Conditions (status cluster)) cond\<rparr>\<rparr>"

definition condition :: "LLMInferenceCluster \<Rightarrow> string \<Rightarrow> string \<Rightarrow> string \<Rightarrow> string \<Rightarrow> Time \<Rightarrow> Condition" where
  "condition cluster ty st reason message now =
     \<lparr>cond_Type = ty, cond_Status = st, cond_Reason = reason, cond_Message = message,
      cond_ObservedGeneration = Generation (metadata cluster), cond_LastTransitionTime = now\<rparr>"

section \<open>Results\<close>

text \<open>\<open>ctrl.Result\<close> with the requeue delay in seconds, and the error returned beside it.\<close>

record Result =
  RequeueAfter :: nat

type_synonym reconcile_result = "Result \<times> error option"

definition noRequeue :: Result where
  "noRequeue = \<lparr>RequeueAfter = 0\<rparr>"

definition requeueDegraded ::
  "'w platform \<Rightarrow> LLMInferenceCluster \<Rightarrow> error \<Rightarrow> ('w world, reconcile_result) comp" where
  "requeueDegraded P cluster err =
     andThen (clock P) (\<lambda>now.
       let cluster = setCondition P cluster
             (condition cluster conditionReady ''False'' ''Error'' (Error err) now)
       in andThen (clock P) (\<lambda>now.
       let cluster = setCondition P cluster
             (condition cluster conditionDegraded ''True'' ''ReconcileError'' (Error err) now)
       in onErr (invoke (CallStatusUpdate cluster) (StatusUpdate P cluster))
            (\<lambda>_. ret (\<lparr>RequeueAfter = 5\<rparr>, Some err))
            (\<lambda>_. ret (\<lparr>RequeueAfter = 5\<rparr>, Some err))))"

section \<open>Reconcile, from the end\<close>

text \<open>The last part: publish shards, endpoints and conditions in the status.\<close>

definition finishStatus ::
  "'w platform \<Rightarrow> LLMInferenceCluster \<Rightarrow> LLMInferenceCluster \<Rightarrow> int32 \<Rightarrow> int32 \<Rightarrow>
     ('w world, reconcile_result) comp" where
  "finishStatus P original cluster decodePort prefillPort =
     (let n = Name (metadata cluster); ns = Namespace (metadata cluster);
          cluster = cluster\<lparr>status := (status cluster)\<lparr>
            ObservedGeneration := Generation (metadata cluster),
            Endpoints := \<lparr>RouterURL = ''http://'' @ n @ ''-router.'' @ ns @ ''.svc.cluster.local:8080'',
                          DecodeService = serviceDNS (n @ ''-decode'') ns decodePort,
                          PrefillService = serviceDNS (n @ ''-prefill'') ns prefillPort\<rparr>\<rparr>\<rparr>
      in andThen (clock P) (\<lambda>now.
         let cluster = setCondition P cluster
               (condition cluster conditionReady ''True'' ''Reconciled'' ''Resources are reconciled'' now)
         in andThen (clock P) (\<lambda>now.
         let cluster = setCondition P cluster
               (condition cluster conditionDegraded ''False'' ''Healthy'' ''No reconciliation errors'' now)
         in onErr (invoke (CallStatusPatch cluster original) (StatusPatch P cluster original))
              (\<lambda>e. ret (noRequeue, Some e))
              (\<lambda>_. ret (\<lparr>RequeueAfter = 30\<rparr>, None)))))"

definition reconcileShards ::
  "'w platform \<Rightarrow> LLMInferenceCluster \<Rightarrow> LLMInferenceCluster \<Rightarrow> labels \<Rightarrow> int32 \<Rightarrow> int32 \<Rightarrow>
     ('w world, reconcile_result) comp" where
  "reconcileShards P original cluster labels decodePort prefillPort =
     onErr (computeShardMap P cluster labels) (requeueDegraded P cluster) (\<lambda>(shards, shardMapJSON).
       let cluster = cluster\<lparr>status := (status cluster)\<lparr>Shards := shards\<rparr>\<rparr>
       in onErr (reconcileShardMapConfigMap P cluster (Name (metadata cluster) @ ''-shardmap'') labels shardMapJSON)
            (requeueDegraded P cluster)
            (\<lambda>_. finishStatus P original cluster decodePort prefillPort))"

text \<open>
  The child objects: services, RBAC, deployments, in this order. The service ports are read through
  their pointers where the calls are made.
\<close>

definition reconcileChildren ::
  "'w platform \<Rightarrow> LLMInferenceCluster \<Rightarrow> LLMInferenceCluster \<Rightarrow> labels \<Rightarrow> int32 option \<Rightarrow>
     ('w world, reconcile_result) comp" where
  "reconcileChildren P original cluster labels decodeOverrideReplicas =
     (let n = Name (metadata cluster);
          decodeSvcName = n @ ''-decode''; prefillSvcName = n @ ''-prefill'';
          routerSvcName = n @ ''-router''; routerSAName = n @ ''-router''; shardMapName = n @ ''-shardmap'';
          fail = requeueDegraded P cluster
      in andThen (lift_go (deref (ServicePort (Decode (Runtime (spec cluster)))))) (\<lambda>decodePort.
         onErr (reconcileRoleService P cluster roleDecode decodeSvcName decodePort labels) fail (\<lambda>_.
         andThen (lift_go (deref (ServicePort (Prefill (Runtime (spec cluster)))))) (\<lambda>prefillPort.
         onErr (reconcileRoleService P cluster rolePrefill prefillSvcName prefillPort labels) fail (\<lambda>_.
         onErr (reconcileRouterService P cluster routerSvcName labels) fail (\<lambda>_.
         onErr (reconcileRouterRBAC P cluster routerSAName labels) fail (\<lambda>_.
         onErr (reconcileRoleDeployment P cluster roleDecode decodeSvcName labels decodeOverrideReplicas) fail (\<lambda>_.
         onErr (reconcileRoleDeployment P cluster rolePrefill prefillSvcName labels None) fail (\<lambda>_.
         onErr (reconcileRouterDeployment P cluster routerSvcName shardMapName routerSAName labels) fail (\<lambda>_.
         reconcileShards P original cluster labels decodePort prefillPort))))))))))"

text \<open>Autoscaling, when the spec enables it: \<open>k\<close> is what follows.\<close>

definition scalingCondition :: "LLMInferenceCluster \<Rightarrow> int32 \<Rightarrow> bool \<Rightarrow> Time \<Rightarrow> Condition" where
  "scalingCondition cluster replicas scaling now =
     (if scaling then condition cluster conditionScaling ''True'' ''Autoscaling''
        (''Autoscaling decode replicas to '' @ Itoa (sint replicas)) now
      else condition cluster conditionScaling ''False'' ''Stable'' ''No autoscaling change required'' now)"

definition withAutoscaling ::
  "'w platform \<Rightarrow> LLMInferenceCluster \<Rightarrow> labels \<Rightarrow>
     (LLMInferenceCluster \<Rightarrow> int32 option \<Rightarrow> ('w world, reconcile_result) comp) \<Rightarrow>
     ('w world, reconcile_result) comp" where
  "withAutoscaling P cluster labels k =
     (let signalsCMName = Name (metadata cluster) @ ''-signals'' in
      if Enabled (Autoscaling (spec cluster)) = Some True then
        onErr (reconcileSignalsConfigMap P cluster signalsCMName labels) (requeueDegraded P cluster) (\<lambda>_.
        onErr (computeDecodeReplicas P cluster signalsCMName) (requeueDegraded P cluster) (\<lambda>(replicas, scaling).
        andThen (clock P) (\<lambda>now.
        k (setCondition P cluster (scalingCondition cluster replicas scaling now)) (Some replicas))))
      else k cluster None)"

definition hasFinalizer :: "'w platform \<Rightarrow> LLMInferenceCluster \<Rightarrow> bool" where
  "hasFinalizer P cluster = ContainsFinalizer P (Finalizers (metadata cluster)) llmInferenceClusterFinalizer"

definition putFinalizers :: "string list \<Rightarrow> LLMInferenceCluster \<Rightarrow> LLMInferenceCluster" where
  "putFinalizers fs cluster = cluster\<lparr>metadata := (metadata cluster)\<lparr>Finalizers := fs\<rparr>\<rparr>"

text \<open>The cluster is being deleted: drop the finalizer and stop.\<close>

definition reconcileDelete ::
  "'w platform \<Rightarrow> LLMInferenceCluster \<Rightarrow> ('w world, reconcile_result) comp" where
  "reconcileDelete P cluster =
     (if hasFinalizer P cluster then
        (let cluster = putFinalizers
               (RemoveFinalizer P (Finalizers (metadata cluster)) llmInferenceClusterFinalizer) cluster
         in onErr (invoke (CallUpdate cluster) (ClientUpdate P cluster))
              (\<lambda>e. ret (noRequeue, Some e)) (\<lambda>_. ret (noRequeue, None)))
      else ret (noRequeue, None))"

definition ensureFinalizer ::
  "'w platform \<Rightarrow> LLMInferenceCluster \<Rightarrow> (LLMInferenceCluster \<Rightarrow> ('w world, reconcile_result) comp) \<Rightarrow>
     ('w world, reconcile_result) comp" where
  "ensureFinalizer P cluster k =
     (if hasFinalizer P cluster then k cluster
      else let cluster = putFinalizers
             (AddFinalizer P (Finalizers (metadata cluster)) llmInferenceClusterFinalizer) cluster
           in onErr (invoke (CallUpdate cluster) (ClientUpdate P cluster))
                (\<lambda>e. ret (noRequeue, Some e)) k)"

text \<open>The resource is not being deleted and has the finalizer.\<close>

definition reconcileLive ::
  "'w platform \<Rightarrow> LLMInferenceCluster \<Rightarrow> LLMInferenceCluster \<Rightarrow> ('w world, reconcile_result) comp" where
  "reconcileLive P original cluster =
     (let labels = baseLabels cluster in
      withAutoscaling P cluster labels (\<lambda>cluster decodeOverrideReplicas.
        reconcileChildren P original cluster labels decodeOverrideReplicas))"

text \<open>The defaults are persisted.\<close>

definition reconcilePatched ::
  "'w platform \<Rightarrow> LLMInferenceCluster \<Rightarrow> LLMInferenceCluster \<Rightarrow> ('w world, reconcile_result) comp" where
  "reconcilePatched P original cluster =
     (if DeletionTimestamp (metadata cluster) \<noteq> None then reconcileDelete P cluster
      else ensureFinalizer P cluster (reconcileLive P original))"

definition Reconcile :: "'w platform \<Rightarrow> NamespacedName \<Rightarrow> ('w world, reconcile_result) comp" where
  "Reconcile P req =
     onErr (invoke (CallGet req) (ClientGet P req))
       (\<lambda>e. if IsNotFound e then ret (noRequeue, None) else ret (noRequeue, Some e))
       (\<lambda>original. let cluster = original\<lparr>spec := applyDefaults (spec original)\<rparr> in
        onErr (invoke (CallPatch cluster original) (ClientPatch P cluster original))
          (\<lambda>e. ret (noRequeue, Some e))
          (reconcilePatched P original))"

section \<open>Conditions that were set\<close>

definition has_condition :: "LLMInferenceCluster \<Rightarrow> string \<Rightarrow> string \<Rightarrow> string \<Rightarrow> string \<Rightarrow> bool" where
  "has_condition c ty st reason msg \<longleftrightarrow>
     (\<exists>now. find_condition ty (Conditions (status c)) = Some (condition c ty st reason msg now))"

lemma setCondition_simps [simp]:
  "metadata (setCondition P c k) = metadata c" "spec (setCondition P c k) = spec c"
  "Shards (status (setCondition P c k)) = Shards (status c)"
  "Endpoints (status (setCondition P c k)) = Endpoints (status c)"
  "ObservedGeneration (status (setCondition P c k)) = ObservedGeneration (status c)"
  by (simp_all add: setCondition_def)

lemma condition_simps [simp]:
  "cond_Type (condition c ty st reason msg now) = ty"
  "cond_Status (condition c ty st reason msg now) = st"
  "cond_Message (condition c ty st reason msg now) = msg"
  by (simp_all add: condition_def)

lemma condition_cong:
  "Generation (metadata c) = Generation (metadata d) \<Longrightarrow>
    condition c ty st reason msg now = condition d ty st reason msg now"
  by (simp add: condition_def)

lemma has_condition_set:
  assumes "condition_law P" "Generation (metadata d) = Generation (metadata c)"
  shows "has_condition (setCondition P c (condition d ty st reason msg now)) ty st reason msg"
proof -
  obtain u where "find_condition ty (SetStatusCondition P (Conditions (status c)) (condition d ty st reason msg now)) =
      Some ((condition d ty st reason msg now)\<lparr>cond_LastTransitionTime := u\<rparr>)"
    using assms(1) unfolding condition_law_def by (metis condition_simps(1))
  then show ?thesis using assms(2) by (auto simp: has_condition_def setCondition_def condition_def)
qed

lemma has_condition_other:
  assumes "condition_law P" "ty \<noteq> cond_Type k"
  shows "has_condition (setCondition P c k) ty st reason msg \<longleftrightarrow> has_condition c ty st reason msg"
  using assms by (simp add: condition_law_def has_condition_def setCondition_def condition_def)

lemmas condition_types = conditionReady_def conditionDegraded_def conditionScaling_def

section \<open>The log of a run\<close>

lemma appends_requeueDegraded [appends_rules]: "appends (requeueDegraded P c e)"
  unfolding requeueDegraded_def Let_def by (intro appends_rules)

lemma appends_finishStatus [appends_rules]: "appends (finishStatus P original c dp pp)"
  unfolding finishStatus_def Let_def by (intro appends_rules)

lemma appends_publishShards:
  "appends (onErr (reconcileShardMapConfigMap P d n base json) (requeueDegraded P d) (\<lambda>_. finishStatus P original d dp pp))"
  unfolding reconcileShardMapConfigMap_def by (intro appends_rules)

lemma appends_Read [appends_rules]: "appends (Read P a)"
  by (cases a) (simp_all add: FakeConfigMapAdapter_Read_def PrometheusAdapter_Read_def appends_rules)

lemma appends_Reconcile: "appends (Reconcile P req)"
  unfolding Reconcile_def reconcilePatched_def [abs_def] reconcileDelete_def ensureFinalizer_def reconcileLive_def [abs_def]
    withAutoscaling_def reconcileChildren_def reconcileShards_def computeShardMap_def computeDecodeReplicas_def
    computeDesired_def reconcileRoleService_def reconcileRouterService_def reconcileRouterRBAC_def
    reconcileRoleDeployment_def reconcileRouterDeployment_def reconcileShardMapConfigMap_def
    reconcileSignalsConfigMap_def Let_def
  by (intro appends_rules)

end
