(* ===== verification/Guarantees.thy ===== *)
theory Guarantees
  imports Controller
begin

text \<open>
  What a reconciliation guarantees of the server's state, under the platform's contract: which
  objects exist afterwards and that each is a fixpoint of its closure, what the status says, and
  that the controller does not panic. The proofs carry a list of facts about stored objects through
  the calls; each call adds one fact and keeps the others.
\<close>

section \<open>Facts about the store\<close>

type_synonym fact = "object_key \<times> (object \<Rightarrow> bool)"

definition holds :: "fact list \<Rightarrow> store \<Rightarrow> bool" where
  "holds fs st \<longleftrightarrow> list_all (\<lambda>(k, Q). \<exists>x. st k = Some x \<and> Q x) fs"

lemma holds_Nil [simp]: "holds [] st"
  by (simp add: holds_def)

lemma holds_write:
  "holds fs st \<Longrightarrow> k \<notin> fst ` set fs \<Longrightarrow> Q x \<Longrightarrow> holds ((k, Q) # fs) (st(k \<mapsto> x))"
  by (auto simp: holds_def list_all_iff image_iff split: prod.splits)

lemma holds_fact: "holds fs st \<Longrightarrow> (k, Q) \<in> set fs \<Longrightarrow> \<exists>x. st k = Some x \<and> Q x"
  by (auto simp: holds_def list_all_iff)

text \<open>A stored object is a fixpoint of its closure: nothing is left to write.\<close>

definition converged :: "(object \<Rightarrow> 'o option) \<Rightarrow> ('o \<Rightarrow> 'o go) \<Rightarrow> object \<Rightarrow> bool" where
  "converged unwrap mutate x \<longleftrightarrow> (\<exists>y. unwrap x = Some y \<and> mutate y = Ok y)"

text \<open>Every stored deployment has a container, as the API server requires.\<close>

definition deployments_ok :: "store \<Rightarrow> bool" where
  "deployments_ok st \<longleftrightarrow> (\<forall>k d. stored asDeployment k st = Some d \<longrightarrow> dep_Containers d \<noteq> Some [])"

lemma deployments_okD:
  "deployments_ok st \<Longrightarrow> stored asDeployment k st = Some d \<Longrightarrow> dep_Containers d \<noteq> Some []"
  unfolding deployments_ok_def by blast

lemma deployments_ok_write:
  "deployments_ok st \<Longrightarrow> (\<And>d. asDeployment x = Some d \<Longrightarrow> dep_Containers d \<noteq> Some []) \<Longrightarrow>
    deployments_ok (st(k \<mapsto> x))"
  by (simp add: deployments_ok_def stored_def)

text \<open>The state between two calls: the facts so far, the custom resources, the deployments.\<close>

definition between :: "('w \<Rightarrow> store) \<Rightarrow> ('w \<Rightarrow> cluster_store) \<Rightarrow> cluster_store \<Rightarrow> fact list \<Rightarrow> 'w world \<Rightarrow> bool" where
  "between view crs C fs w \<longleftrightarrow>
     holds fs (view (env w)) \<and> crs (env w) = C \<and> deployments_ok (view (env w))"

lemma between_Nil: "between view crs C fs w \<Longrightarrow> between view crs C [] w"
  by (simp add: between_def)

section \<open>One call\<close>

text \<open>
  The step lemma for \<open>CreateOrUpdate\<close> with a closure that ends in a fixpoint: the new fact is that the
  stored object is one.
\<close>

lemma always_createOrUpdate:
  assumes law: "cou_law view crs kd meta put server wrap unwrap f"
    and M: "\<And>x. M x = map_go server (mutate x)"
    and k: "k = (kd, key_of (meta obj))" "k \<notin> fst ` set fs"
    and wrap: "\<And>x. unwrap (wrap x) = Some x"
    and stable: "\<And>x y st st'. writes meta put wrap k (M x) st y st' \<Longrightarrow> M y = Ok y"
    and nopanic: "\<And>x st. deployments_ok st \<Longrightarrow> x = obj \<or> stored unwrap k st = Some x \<Longrightarrow> mutate x \<noteq> Panic"
    and dep: "\<And>y. M y = Ok y \<Longrightarrow> asDeployment (wrap y) = None \<or>
       (\<exists>d. asDeployment (wrap y) = Some d \<and> dep_Containers d \<noteq> Some [])"
  shows "always (createOrUpdate kd meta f obj mutate) (between view crs C fs)
    (\<lambda>r w. case r of
       Ok y \<Rightarrow> between view crs C ((k, converged unwrap M) # fs) w \<and>
         key_of (meta y) = snd k
     | Err e \<Rightarrow> between view crs C [] w
     | Panic \<Rightarrow> False)"
proof (rule alwaysI)
  fix w r w'
  assume pre: "between view crs C fs w" and run: "createOrUpdate kd meta f obj mutate w = (r, w')"
  let ?res = "M (case stored unwrap k (view (env w)) of None \<Rightarrow> obj | Some o0 \<Rightarrow> o0)"
  have call: "f obj mutate (env w) = (r, env w')"
    using run by (auto simp: createOrUpdate_def split: prod.splits)
  have C: "crs (env w') = C" using law call pre unfolding cou_law_def between_def by blast
  have post: "case r of
      Ok o' \<Rightarrow> writes meta put wrap k ?res (view (env w)) o' (view (env w'))
    | Err e \<Rightarrow> view (env w') = view (env w) \<or> (\<exists>o'. writes meta put wrap k ?res (view (env w)) o' (view (env w')))
    | Panic \<Rightarrow> ?res = Panic \<and> view (env w') = view (env w)"
    using law call unfolding cou_law_def Let_def k(1) M by blast
  have np: "?res \<noteq> Panic"
    using nopanic [of "view (env w)"] pre by (cases "stored unwrap k (view (env w))") (auto simp: between_def M)
  have dok: "deployments_ok (view (env w'))"
    if "writes meta put wrap k ?res (view (env w)) y (view (env w'))" for y
  proof -
    have "M y = Ok y" using stable that by blast
    from dep [OF this] show ?thesis
      using that pre by (auto simp: writes_def between_def intro!: deployments_ok_write)
  qed
  show "case r of
      Ok y \<Rightarrow> between view crs C ((k, converged unwrap M) # fs) w' \<and> key_of (meta y) = snd k
    | Err e \<Rightarrow> between view crs C [] w'
    | Panic \<Rightarrow> False"
  proof (cases r)
    case (Ok y)
    then have w: "writes meta put wrap k ?res (view (env w)) y (view (env w'))" using post by simp
    have fp: "converged unwrap M (wrap y)" using stable [OF w] wrap by (auto simp: converged_def)
    have "holds ((k, converged unwrap M) # fs) (view (env w'))"
      using w pre k(2) fp holds_write [of fs "view (env w)" k "converged unwrap M" "wrap y"]
      by (auto simp: writes_def between_def)
    moreover have "key_of (meta y) = snd k"
      using w by (auto simp: writes_def server_metaD)
    ultimately show ?thesis using Ok C dok [OF w] by (simp add: between_def)
  next
    case (Err e)
    then show ?thesis using post pre C dok by (auto simp: between_def)
  next
    case Panic
    then show ?thesis using post np by simp
  qed
qed

text \<open>What a step leaves: the new fact before the old ones; after an error the bare invariant.\<close>

definition step_post ::
  "('w \<Rightarrow> store) \<Rightarrow> ('w \<Rightarrow> cluster_store) \<Rightarrow> cluster_store \<Rightarrow> fact list \<Rightarrow> 'a go \<Rightarrow> 'w world \<Rightarrow> bool" where
  "step_post view crs C fs r w \<longleftrightarrow>
     (case r of
        Ok y \<Rightarrow> between view crs C fs w
      | Err e \<Rightarrow> between view crs C [] w
      | Panic \<Rightarrow> False)"

text \<open>Composing steps: one lemma per combinator.\<close>

lemma step_andThen:
  assumes m: "always m (between view crs C fs)
      (\<lambda>r w. step_post view crs C gs r w \<and> (\<forall>y. r = Ok y \<longrightarrow> R y))"
    and f: "\<And>y. R y \<Longrightarrow> always (f y) (between view crs C gs) (step_post view crs C hs)"
  shows "always (andThen m f) (between view crs C fs) (step_post view crs C hs)"
proof (rule always_andThen [where I = "\<lambda>y w. between view crs C gs w \<and> R y"])
  show "always m (between view crs C fs) (\<lambda>r t. case r of
      Ok y \<Rightarrow> between view crs C gs t \<and> R y
    | Err e \<Rightarrow> step_post view crs C hs (Err e) t
    | Panic \<Rightarrow> step_post view crs C hs Panic t)"
    by (rule always_post [OF m]) (auto simp: step_post_def split: go.splits)
qed (use f in \<open>blast intro: always_assume\<close>)

lemma step_onErr:
  assumes m: "always m (between view crs C fs) (step_post view crs C gs)"
    and h: "\<And>e. always (h e) (between view crs C []) Q"
    and f: "\<And>y. always (f y) (between view crs C gs) Q"
  shows "always (onErr m h f) (between view crs C fs) Q"
proof (rule always_onErr [where I = "\<lambda>y. between view crs C gs" and H = "\<lambda>e. between view crs C []"])
  show "always m (between view crs C fs) (\<lambda>r t. case r of
      Ok y \<Rightarrow> between view crs C gs t
    | Err e \<Rightarrow> between view crs C [] t
    | Panic \<Rightarrow> Q Panic t)"
    by (rule always_post [OF m]) (auto simp: step_post_def split: go.splits)
qed (use h f in blast)+

context owned_child
begin

lemma always_stored:
  assumes law: "owner_law P" "cou_law view crs kd meta put server wrap unwrap f"
    and closure: "\<And>x. mutate x = map_go server (closure x)"
    and k: "k = (kd, key_of (meta obj))" "k \<notin> fst ` set fs"
    and wrap: "\<And>x. unwrap (wrap x) = Some x"
    and nopanic: "\<And>x st. deployments_ok st \<Longrightarrow> x = obj \<or> stored unwrap k st = Some x \<Longrightarrow> fill x \<noteq> Panic"
    and dep: "\<And>y. fill y \<noteq> Panic \<Longrightarrow> asDeployment (wrap y) = None \<or>
       (\<exists>d. asDeployment (wrap y) = Some d \<and> dep_Containers d \<noteq> Some [])"
  shows "always (createOrUpdate kd meta f obj closure) (between view crs C fs)
    (\<lambda>r w. step_post view crs C ((k, converged unwrap mutate) # fs) r w \<and>
       (\<forall>y. r = Ok y \<longrightarrow> key_of (meta y) = snd k))"
proof (rule always_weaken [OF always_createOrUpdate [OF law(2) closure k wrap]])
  show "mutate y = Ok y" if "writes meta put wrap k (mutate x) st y st'" for x y st st'
    using writes_stable [OF law(1) that] .
  show "closure x \<noteq> Panic" if "deployments_ok st" "x = obj \<or> stored unwrap k st = Some x" for x st
    using nopanic [OF that] closure [of x] by (simp flip: mutate_panic)
  show "asDeployment (wrap y) = None \<or> (\<exists>d. asDeployment (wrap y) = Some d \<and> dep_Containers d \<noteq> Some [])"
    if "mutate y = Ok y" for y
    using dep [of y] that mutate_panic [of y] by auto
qed (auto simp: step_post_def split: go.splits)

lemmas always_step = always_stored [where server = "\<lambda>x. x" and closure = mutate, unfolded go.map_ident, OF _ _ refl]

end

lemmas contract_defs = contract_def cou_laws_def cluster_laws_def library_laws_def

lemma contractD:
  assumes "contract P view crs"
  shows "owner_law P" and "condition_law P" and "finalizer_law P" and "sort_law P"
    and "get_law P view crs" and "patch_law P view crs" and "update_law P view crs"
    and "status_patch_law P view crs" and "status_update_law P view crs" and "read_law P view crs"
  using assms by (simp_all add: contract_defs)

lemma contract_cou:
  assumes "contract P view crs"
  shows "cou_law view crs KService svc_meta put_svc_meta (\<lambda>x. x) OService asService (CouService P)"
    and "cou_law view crs KDeployment dep_meta put_dep_meta serverDeployment ODeployment asDeployment (CouDeployment P)"
    and "cou_law view crs KServiceAccount sa_meta put_sa_meta (\<lambda>x. x) OServiceAccount asServiceAccount
      (CouServiceAccount P)"
    and "cou_law view crs KRole role_meta put_role_meta (\<lambda>x. x) ORole asRole (CouRole P)"
    and "cou_law view crs KRoleBinding rb_meta put_rb_meta (\<lambda>x. x) ORoleBinding asRoleBinding (CouRoleBinding P)"
    and "cou_law view crs KConfigMap cm_meta put_cm_meta (\<lambda>x. x) OConfigMap asConfigMap (CouConfigMap P)"
  using assms by (simp_all add: contract_defs)

lemma writeRoleDeployment_Panic:
  "writeRoleDeployment P cluster role n base ov d = Panic \<longleftrightarrow> dep_Containers d = Some []"
  by (simp add: writeRoleDeployment_def Let_def updateFirstContainer_Panic)

lemma writeRouterDeployment_Panic:
  "defaulted (spec cluster) \<Longrightarrow>
    writeRouterDeployment cluster n san base d = Panic \<longleftrightarrow> dep_Containers d = Some []"
  by (auto simp: writeRouterDeployment_def Let_def updateFirstContainer_Panic defaulted_def)

subsection \<open>The functions that reconcile one object\<close>

lemma always_roleService:
  assumes "contract P view crs" "k = (KService, Namespace (metadata cluster), n)" "k \<notin> fst ` set fs"
  shows "always (reconcileRoleService P cluster role n port base) (between view crs C fs)
    (step_post view crs C ((k, converged asService (mutateRoleService P cluster role port base)) # fs))"
  unfolding reconcileRoleService_def
  by (rule always_weaken [OF roleService.always_step [OF contractD(1) contract_cou(1)]])
    (use assms in \<open>auto simp: emptyService_def writeRoleService_def\<close>)

lemma always_routerService:
  assumes "contract P view crs" "k = (KService, Namespace (metadata cluster), n)" "k \<notin> fst ` set fs"
  shows "always (reconcileRouterService P cluster n base) (between view crs C fs)
    (step_post view crs C ((k, converged asService (mutateRouterService P cluster base)) # fs))"
  unfolding reconcileRouterService_def
  by (rule always_weaken [OF routerService.always_step [OF contractD(1) contract_cou(1)]])
    (use assms in \<open>auto simp: emptyService_def writeRouterService_def\<close>)

lemma always_roleDeployment:
  assumes "contract P view crs" "k = (KDeployment, Namespace (metadata cluster), Name (metadata cluster) @ ''-'' @ role)"
    "k \<notin> fst ` set fs"
  shows "always (reconcileRoleDeployment P cluster role n base ov) (between view crs C fs)
    (step_post view crs C ((k, converged asDeployment (storedRoleDeployment P cluster role n base ov)) # fs))"
  unfolding reconcileRoleDeployment_def
  by (rule always_weaken [OF roleDeployment.always_stored [OF contractD(1) contract_cou(2) storedRoleDeployment_def]])
    (use assms in \<open>auto simp: emptyDeployment_def writeRoleDeployment_Panic dest: deployments_okD\<close>)

lemma always_routerDeployment:
  assumes "contract P view crs" "k = (KDeployment, Namespace (metadata cluster), Name (metadata cluster) @ ''-router'')"
    "k \<notin> fst ` set fs" "defaulted (spec cluster)"
  shows "always (reconcileRouterDeployment P cluster sn n san base) (between view crs C fs)
    (step_post view crs C ((k, converged asDeployment (storedRouterDeployment P cluster n san base)) # fs))"
  unfolding reconcileRouterDeployment_def
  by (rule always_weaken [OF routerDeployment.always_stored [OF contractD(1) contract_cou(2) storedRouterDeployment_def]])
    (use assms in \<open>auto simp: emptyDeployment_def writeRouterDeployment_Panic dest: deployments_okD\<close>)

lemma always_shardMapConfigMap:
  assumes "contract P view crs" "k = (KConfigMap, Namespace (metadata cluster), n)" "k \<notin> fst ` set fs"
  shows "always (reconcileShardMapConfigMap P cluster n base json) (between view crs C fs)
    (step_post view crs C ((k, converged asConfigMap (mutateShardMapConfigMap P cluster base json)) # fs))"
  unfolding reconcileShardMapConfigMap_def
  by (rule always_weaken [OF shardMapConfigMap.always_step [OF contractD(1) contract_cou(6)]])
    (use assms in \<open>auto simp: emptyConfigMap_def writeShardMapConfigMap_def\<close>)

lemma always_signalsConfigMap:
  assumes "contract P view crs" "k = (KConfigMap, Namespace (metadata cluster), n)" "k \<notin> fst ` set fs"
  shows "always (reconcileSignalsConfigMap P cluster n base) (between view crs C fs)
    (step_post view crs C ((k, converged asConfigMap (mutateSignalsConfigMap P cluster base)) # fs))"
  unfolding reconcileSignalsConfigMap_def
  by (rule always_weaken [OF signalsConfigMap.always_step [OF contractD(1) contract_cou(6)]])
    (use assms in \<open>auto simp: emptyConfigMap_def writeSignalsConfigMap_def\<close>)

lemma mutateRoleBinding_names:
  "key_of (role_meta r) = (ns, n) \<Longrightarrow> key_of (sa_meta a) = (ns, n) \<Longrightarrow>
    mutateRoleBinding P cluster base r a =
    mutateRoleBinding P cluster base (emptyRole ns n) (emptyServiceAccount ns n)"
  by (simp add: mutateRoleBinding_def writeRoleBinding_def [abs_def] key_of_def emptyRole_def emptyServiceAccount_def)

definition rbacFacts :: "'w platform \<Rightarrow> LLMInferenceCluster \<Rightarrow> string \<Rightarrow> labels \<Rightarrow> fact list" where
  "rbacFacts P cluster n base =
     (let ns = Namespace (metadata cluster) in
      [((KRoleBinding, ns, n),
         converged asRoleBinding (mutateRoleBinding P cluster base (emptyRole ns n) (emptyServiceAccount ns n))),
       ((KRole, ns, n), converged asRole (mutateRole P cluster base)),
       ((KServiceAccount, ns, n), converged asServiceAccount (mutateServiceAccount P cluster base))])"

lemma always_serviceAccount:
  assumes "contract P view crs" "k = (KServiceAccount, ns, n)" "k \<notin> fst ` set fs"
  shows "always (createOrUpdate KServiceAccount sa_meta (CouServiceAccount P) (emptyServiceAccount ns n)
      (mutateServiceAccount P cluster base)) (between view crs C fs)
    (\<lambda>r w. step_post view crs C ((k, converged asServiceAccount (mutateServiceAccount P cluster base)) # fs) r w \<and>
      (\<forall>y. r = Ok y \<longrightarrow> key_of (sa_meta y) = (ns, n)))"
  by (rule always_weaken [OF serviceAccount.always_step [OF contractD(1) contract_cou(3)]])
    (use assms in \<open>auto simp: emptyServiceAccount_def writeServiceAccount_def\<close>)

lemma always_role:
  assumes "contract P view crs" "k = (KRole, ns, n)" "k \<notin> fst ` set fs"
  shows "always (createOrUpdate KRole role_meta (CouRole P) (emptyRole ns n)
      (mutateRole P cluster base)) (between view crs C fs)
    (\<lambda>r w. step_post view crs C ((k, converged asRole (mutateRole P cluster base)) # fs) r w \<and>
      (\<forall>y. r = Ok y \<longrightarrow> key_of (role_meta y) = (ns, n)))"
  by (rule always_weaken [OF role.always_step [OF contractD(1) contract_cou(4)]])
    (use assms in \<open>auto simp: emptyRole_def writeRole_def\<close>)

lemma always_roleBinding:
  assumes "contract P view crs" "k = (KRoleBinding, ns, n)" "k \<notin> fst ` set fs"
  shows "always (createOrUpdate KRoleBinding rb_meta (CouRoleBinding P) (emptyRoleBinding ns n)
      (mutateRoleBinding P cluster base r a)) (between view crs C fs)
    (step_post view crs C ((k, converged asRoleBinding (mutateRoleBinding P cluster base r a)) # fs))"
  by (rule always_weaken [OF roleBinding.always_step [OF contractD(1) contract_cou(5)]])
    (use assms in \<open>auto simp: emptyRoleBinding_def writeRoleBinding_def\<close>)

lemma always_routerRBAC:
  assumes law: "contract P view crs"
    and fs: "\<And>kd. kd \<in> {KServiceAccount, KRole, KRoleBinding} \<Longrightarrow> (kd, Namespace (metadata cluster), n) \<notin> fst ` set fs"
  shows "always (reconcileRouterRBAC P cluster n base) (between view crs C fs)
    (step_post view crs C (rbacFacts P cluster n base @ fs))"
proof -
  define ns where "ns = Namespace (metadata cluster)"
  define f1 where "f1 = ((KServiceAccount, ns, n), converged asServiceAccount (mutateServiceAccount P cluster base)) # fs"
  define f2 where "f2 = ((KRole, ns, n), converged asRole (mutateRole P cluster base)) # f1"
  have new: "(KServiceAccount, ns, n) \<notin> fst ` set fs" "(KRole, ns, n) \<notin> fst ` set f1"
    "(KRoleBinding, ns, n) \<notin> fst ` set f2"
    using fs by (auto simp: f1_def f2_def ns_def)
  have binding: "always (createOrUpdate KRoleBinding rb_meta (CouRoleBinding P) (emptyRoleBinding ns n)
      (mutateRoleBinding P cluster base r a)) (between view crs C f2)
      (step_post view crs C (rbacFacts P cluster n base @ fs))"
    if "key_of (role_meta r) = (ns, n)" "key_of (sa_meta a) = (ns, n)" for r a
    using always_roleBinding [OF law refl new(3), of cluster base r a C]
    unfolding mutateRoleBinding_names [OF that]
    by (simp add: rbacFacts_def Let_def f1_def f2_def ns_def)
  have roles: "always (andThen (createOrUpdate KRole role_meta (CouRole P) (emptyRole ns n) (mutateRole P cluster base))
      (\<lambda>r. createOrUpdate KRoleBinding rb_meta (CouRoleBinding P) (emptyRoleBinding ns n)
        (mutateRoleBinding P cluster base r a))) (between view crs C f1)
      (step_post view crs C (rbacFacts P cluster n base @ fs))"
    if "key_of (sa_meta a) = (ns, n)" for a
    by (rule step_andThen [OF always_role [OF law refl new(2), of cluster base C, folded f2_def] binding])
      (use that in simp_all)
  show ?thesis
    unfolding reconcileRouterRBAC_def Let_def ns_def [symmetric]
    by (rule step_andThen [OF always_serviceAccount [OF law refl new(1), of cluster base C, folded f1_def] roles])
qed

section \<open>The last calls\<close>

text \<open>
  The outcome of a run: it always returns a result, the deployments stay well-formed, and after a
  result without an error \<open>S\<close> holds of the final state and the next run is in 30 seconds.
\<close>

definition run_post :: "('w \<Rightarrow> store) \<Rightarrow> ('w world \<Rightarrow> bool) \<Rightarrow> reconcile_result go \<Rightarrow> 'w world \<Rightarrow> bool" where
  "run_post view S r w \<longleftrightarrow>
     deployments_ok (view (env w)) \<and>
     (case r of
        Ok (res, None) \<Rightarrow> RequeueAfter res = 30 \<and> S w
      | Ok (res, Some e) \<Rightarrow> True
      | _ \<Rightarrow> False)"

lemma run_post_mono: "run_post view S r w \<Longrightarrow> (S w \<Longrightarrow> S' w) \<Longrightarrow> run_post view S' r w"
  by (auto simp: run_post_def split: go.splits prod.splits option.splits)

text \<open>The status a successful run publishes for the cluster \<open>c\<close>, seen on the stored resource \<open>c'\<close>.\<close>

definition published :: "LLMInferenceCluster \<Rightarrow> int32 \<Rightarrow> int32 \<Rightarrow> LLMInferenceCluster \<Rightarrow> bool" where
  "published c dp pp c' \<longleftrightarrow>
     (let n = Name (metadata c); ns = Namespace (metadata c) in
      metadata c' = metadata c \<and> spec c' = spec c \<and>
      Shards (status c') = Shards (status c) \<and>
      ObservedGeneration (status c') = Generation (metadata c) \<and>
      RouterURL (Endpoints (status c')) = ''http://'' @ n @ ''-router.'' @ ns @ ''.svc.cluster.local:8080'' \<and>
      DecodeService (Endpoints (status c')) = serviceDNS (n @ ''-decode'') ns dp \<and>
      PrefillService (Endpoints (status c')) = serviceDNS (n @ ''-prefill'') ns pp \<and>
      has_condition c' ''Ready'' ''True'' ''Reconciled'' ''Resources are reconciled'' \<and>
      has_condition c' ''Degraded'' ''False'' ''Healthy'' ''No reconciliation errors'')"

lemma between_clock:
  assumes "contract P view crs"
  shows "always (clock P) (between view crs C fs) (\<lambda>r w. case r of
      Ok t \<Rightarrow> between view crs C fs w | Err e \<Rightarrow> Q (Err e) w | Panic \<Rightarrow> Q Panic w)"
  using contractD(10) [OF assms] by (intro always_clock) (auto simp: between_def read_law_def)

lemma get_lawD:
  assumes "get_law P view crs" "ClientGet P key x = (r, x')"
  shows "view x' = view x" "crs x' = crs x"
    and "r = Inr c \<Longrightarrow> crs x key = Some c \<and> key_of (metadata c) = key"
    and "r = Inl e \<Longrightarrow> IsNotFound e \<Longrightarrow> crs x key = None"
  using assms unfolding get_law_def by blast+

lemma update_lawD:
  assumes "update_law P view crs" "ClientUpdate P c x = (r, x')"
  shows "view x' = view x"
    and "r = Inr c' \<Longrightarrow> crs x (key_of (metadata c)) = Some old \<Longrightarrow>
      spec c' = spec c \<and> status c' = status old \<and> server_meta (metadata c) (metadata c') \<and>
      crs x' = (crs x)(key_of (metadata c) :=
        (if DeletionTimestamp (metadata c) \<noteq> None \<and> Finalizers (metadata c) = [] then None else Some c'))"
  using assms unfolding update_law_def by blast+

lemma patch_lawD:
  assumes "patch_law P view crs" "ClientPatch P c orig x = (r, x')"
  shows "view x' = view x"
    and "r = Inr c' \<Longrightarrow> crs x (key_of (metadata c)) = Some orig \<Longrightarrow>
      spec c' = spec c \<and> status c' = status orig \<and> server_meta (metadata c) (metadata c') \<and>
      crs x' = (crs x)(key_of (metadata c) \<mapsto> c')"
  using assms unfolding patch_law_def by blast+

lemma always_requeueDegraded:
  assumes "contract P view crs"
  shows "always (requeueDegraded P c e) (between view crs C []) (run_post view S)"
  unfolding requeueDegraded_def Let_def
proof (rule always_andThen [OF between_clock [OF assms]])
  fix now
  show "always (andThen (clock P) (\<lambda>now'. onErr (invoke (CallStatusUpdate (k now')) (StatusUpdate P (k now')))
      (\<lambda>_. ret (\<lparr>RequeueAfter = 5\<rparr>, Some e)) (\<lambda>_. ret (\<lparr>RequeueAfter = 5\<rparr>, Some e))))
      (between view crs C []) (run_post view S)" for k
  proof (rule always_andThen [OF between_clock [OF assms]])
    fix now'
    have "always (invoke (CallStatusUpdate (k now')) (StatusUpdate P (k now'))) (between view crs C [])
      (\<lambda>r w. case r of Ok a \<Rightarrow> deployments_ok (view (env w)) | Err e \<Rightarrow> deployments_ok (view (env w))
        | Panic \<Rightarrow> run_post view S Panic w)"
      using contractD(9) [OF assms]
      by (intro always_invoke) (auto simp: between_def status_update_law_def of_sum_def split: sum.splits)
    then show "always (onErr (invoke (CallStatusUpdate (k now')) (StatusUpdate P (k now')))
      (\<lambda>_. ret (\<lparr>RequeueAfter = 5\<rparr>, Some e)) (\<lambda>_. ret (\<lparr>RequeueAfter = 5\<rparr>, Some e)))
      (between view crs C []) (run_post view S)"
      by (rule always_onErr) (auto intro!: always_ret simp: run_post_def)
  qed
qed

lemma always_statusPatch:
  assumes law: "contract P view crs" and old: "C (key_of (metadata c)) = Some old" "status old = status original"
  shows "always (onErr (invoke (CallStatusPatch c original) (StatusPatch P c original))
      (\<lambda>e. ret (noRequeue, Some e)) (\<lambda>_. ret (\<lparr>RequeueAfter = 30\<rparr>, None)))
    (between view crs C fs)
    (run_post view (\<lambda>w. holds fs (view (env w)) \<and> crs (env w) = C(key_of (metadata c) \<mapsto> old\<lparr>status := status c\<rparr>)))"
proof (rule always_onErr)
  show "always (invoke (CallStatusPatch c original) (StatusPatch P c original)) (between view crs C fs)
    (\<lambda>r w. case r of
       Ok a \<Rightarrow> holds fs (view (env w)) \<and> deployments_ok (view (env w)) \<and>
         crs (env w) = C(key_of (metadata c) \<mapsto> old\<lparr>status := status c\<rparr>)
     | Err e \<Rightarrow> deployments_ok (view (env w))
     | Panic \<Rightarrow> run_post view S Panic w)" for S
    using contractD(8) [OF law] old
    by (intro always_invoke) (fastforce simp: between_def status_patch_law_def of_sum_def split: sum.splits)
qed (auto intro!: always_ret simp: run_post_def)

lemma always_finishStatus:
  assumes law: "contract P view crs"
    and old: "C (key_of (metadata c)) = Some old" "status old = status original"
      "metadata old = metadata c" "spec old = spec c"
  shows "always (finishStatus P original c dp pp) (between view crs C fs)
    (run_post view (\<lambda>w. holds fs (view (env w)) \<and>
       (\<exists>c'. published c dp pp c' \<and> crs (env w) = C(key_of (metadata c) \<mapsto> c'))))"
  unfolding finishStatus_def Let_def
proof (intro always_andThen [OF between_clock [OF law]])
  fix now1 now2
  define c1 where "c1 = c\<lparr>status := (status c)\<lparr>ObservedGeneration := Generation (metadata c),
    Endpoints := \<lparr>RouterURL = ''http://'' @ Name (metadata c) @ ''-router.'' @ Namespace (metadata c) @
        ''.svc.cluster.local:8080'',
      DecodeService = serviceDNS (Name (metadata c) @ ''-decode'') (Namespace (metadata c)) dp,
      PrefillService = serviceDNS (Name (metadata c) @ ''-prefill'') (Namespace (metadata c)) pp\<rparr>\<rparr>\<rparr>"
  define c2 where "c2 = setCondition P c1
    (condition c1 conditionReady ''True'' ''Reconciled'' ''Resources are reconciled'' now1)"
  define c3 where "c3 = setCondition P c2
    (condition c2 conditionDegraded ''False'' ''Healthy'' ''No reconciliation errors'' now2)"
  have meta: "metadata c3 = metadata c" "spec c3 = spec c" by (simp_all add: c3_def c2_def c1_def)
  have "has_condition c3 ''Ready'' ''True'' ''Reconciled'' ''Resources are reconciled''"
    using has_condition_set [OF contractD(2) [OF law], of c1 c1 conditionReady] contractD(2) [OF law]
    unfolding c3_def c2_def by (subst has_condition_other) (simp_all add: condition_types)
  moreover have "has_condition c3 ''Degraded'' ''False'' ''Healthy'' ''No reconciliation errors''"
    using has_condition_set [OF contractD(2) [OF law], of c2 c2 conditionDegraded]
    unfolding c3_def by (simp add: condition_types)
  ultimately have pub: "published c dp pp c3"
    unfolding published_def Let_def by (simp add: meta) (simp add: c3_def c2_def c1_def)
  have eq: "old\<lparr>status := status c3\<rparr> = c3" using old(3,4) meta by simp
  show "always (onErr (invoke (CallStatusPatch c3 original) (StatusPatch P c3 original))
      (\<lambda>e. ret (noRequeue, Some e)) (\<lambda>_. ret (\<lparr>RequeueAfter = 30\<rparr>, None)))
    (between view crs C fs)
    (run_post view (\<lambda>w. holds fs (view (env w)) \<and>
       (\<exists>c'. published c dp pp c' \<and> crs (env w) = C(key_of (metadata c) \<mapsto> c'))))"
    using always_statusPatch [OF law, of C c3 old original fs] old pub
    unfolding meta eq by (auto elim!: always_post run_post_mono)
qed

text \<open>A list of pods that the API server gives for the decode role, and the log entry of such an answer.\<close>

definition podList :: "'w platform \<Rightarrow> LLMInferenceCluster \<Rightarrow> labels \<Rightarrow> Pod list \<Rightarrow> bool" where
  "podList P c base pods \<longleftrightarrow>
     list_all (listed (Namespace (metadata c)) (roleLabels base roleDecode)) pods \<and>
     (\<exists>x. fst (ListPods P (Namespace (metadata c)) (roleLabels base roleDecode) x) = Inr pods)"

definition listedPods :: "LLMInferenceCluster \<Rightarrow> labels \<Rightarrow> Pod list \<Rightarrow> 'w world \<Rightarrow> bool" where
  "listedPods c base pods w \<longleftrightarrow>
     CallListPods (Namespace (metadata c)) (roleLabels base roleDecode) (Inr pods) \<in> set (calls w)"

lemma listPods_run:
  assumes "read_law P view crs"
    and "ListPods P (Namespace (metadata c)) (roleLabels base roleDecode) x = (r, x')"
  shows "view x' = view x" "crs x' = crs x" "r = Inr pods \<Longrightarrow> podList P c base pods"
  using assms unfolding read_law_def podList_def by (blast, blast, metis fst_conv)

lemma always_computeShardMap:
  assumes law: "contract P view crs" and n: "N = derefInt32 (NumShards (KVCache (spec c))) 8" "0 \<le> sint N"
  shows "always (computeShardMap P c base) (between view crs C fs)
    (\<lambda>r w. case r of
       Ok x \<Rightarrow> between view crs C fs w \<and>
         (\<exists>pods now. podList P c base pods \<and> listedPods c base pods w \<and> assignShards pods N now = Ok x)
     | Err e \<Rightarrow> between view crs C [] w
     | Panic \<Rightarrow> False)"
    (is "always _ _ ?Q")
  unfolding computeShardMap_def Let_def
proof (rule always_andThen)
  show "always (listPods P (Namespace (metadata c)) (roleLabels base roleDecode)) (between view crs C fs)
    (\<lambda>r w. case r of
       Ok pods \<Rightarrow> (between view crs C fs w \<and> listedPods c base pods w) \<and> podList P c base pods
     | Err e \<Rightarrow> ?Q (Err e) w | Panic \<Rightarrow> ?Q Panic w)"
    using listPods_run [OF contractD(10) [OF law]]
    by (intro always_listPods) (fastforce simp: between_def listedPods_def of_sum_def split: sum.split)
next
  fix pods
  let ?assign = "andThen (clock P) (\<lambda>now. lift_go (assignShards pods (derefInt32 (NumShards (KVCache (spec c))) 8) now))"
  have "always ?assign (between view crs C fs)
      (\<lambda>r w. between view crs C fs w \<and> (\<exists>x now. r = Ok x \<and> assignShards pods N now = Ok x))"
    using n by (intro always_andThen [OF between_clock [OF law]] always_lift_go) (auto simp: assignShards_spec)
  moreover have "always ?assign (listedPods c base pods) (\<lambda>_. listedPods c base pods)"
    unfolding listedPods_def by (intro appends_keep appends_rules)
  ultimately have "always ?assign (\<lambda>w. between view crs C fs w \<and> listedPods c base pods w) ?Q" if "podList P c base pods"
    by (rule always_post [OF always_conj]) (use that in \<open>fastforce split: go.split\<close>)
  then show "always ?assign (\<lambda>w. (between view crs C fs w \<and> listedPods c base pods w) \<and> podList P c base pods) ?Q"
    by (rule always_assume)
qed

lemma mutateShardMapConfigMap_status [simp]:
  "mutateShardMapConfigMap P (c\<lparr>status := s\<rparr>) = mutateShardMapConfigMap P c"
  by (rule ext)+ (simp add: mutateShardMapConfigMap_def withOwner_def setOwner_def split: go.split)

text \<open>What a successful run leaves of the shards: one assignment, in the status and in the ConfigMap.\<close>

definition shardsPublished ::
  "('w \<Rightarrow> store) \<Rightarrow> ('w \<Rightarrow> cluster_store) \<Rightarrow> 'w platform \<Rightarrow> cluster_store \<Rightarrow> LLMInferenceCluster \<Rightarrow> labels \<Rightarrow>
     int32 \<Rightarrow> int32 \<Rightarrow> fact list \<Rightarrow> 'w world \<Rightarrow> bool" where
  "shardsPublished view crs P C c base dp pp fs w \<longleftrightarrow>
     (\<exists>pods now shards json c'.
        podList P c base pods \<and> listedPods c base pods w \<and>
        assignShards pods (derefInt32 (NumShards (KVCache (spec c))) 8) now = Ok (shards, json) \<and>
        holds (((KConfigMap, Namespace (metadata c), Name (metadata c) @ ''-shardmap''),
           converged asConfigMap (mutateShardMapConfigMap P c base json)) # fs) (view (env w)) \<and>
        published (c\<lparr>status := (status c)\<lparr>Shards := shards\<rparr>\<rparr>) dp pp c' \<and>
        crs (env w) = C(key_of (metadata c) \<mapsto> c'))"

lemma always_publishShards:
  assumes law: "contract P view crs"
    and old: "C (key_of (metadata d)) = Some old" "status old = status original"
      "metadata old = metadata d" "spec old = spec d"
    and k: "(KConfigMap, Namespace (metadata d), Name (metadata d) @ ''-shardmap'') \<notin> fst ` set fs"
  shows "always (onErr (reconcileShardMapConfigMap P d (Name (metadata d) @ ''-shardmap'') base json)
      (requeueDegraded P d) (\<lambda>_. finishStatus P original d dp pp)) (between view crs C fs)
    (run_post view (\<lambda>w. holds (((KConfigMap, Namespace (metadata d), Name (metadata d) @ ''-shardmap''),
         converged asConfigMap (mutateShardMapConfigMap P d base json)) # fs) (view (env w)) \<and>
       (\<exists>c'. published d dp pp c' \<and> crs (env w) = C(key_of (metadata d) \<mapsto> c'))))"
  by (rule step_onErr [OF always_shardMapConfigMap [OF law refl k] always_requeueDegraded [OF law]])
    (rule always_finishStatus [OF law, of C d old original], use old in simp_all)

lemma always_reconcileShards:
  assumes law: "contract P view crs"
    and old: "C (key_of (metadata c)) = Some old" "status old = status original"
      "metadata old = metadata c" "spec old = spec c"
    and n: "0 \<le> sint (derefInt32 (NumShards (KVCache (spec c))) 8)"
    and k: "(KConfigMap, Namespace (metadata c), Name (metadata c) @ ''-shardmap'') \<notin> fst ` set fs"
  shows "always (reconcileShards P original c base dp pp) (between view crs C fs)
    (run_post view (shardsPublished view crs P C c base dp pp fs))"
  unfolding reconcileShards_def
proof (rule always_onErr)
  show "always (computeShardMap P c base) (between view crs C fs)
    (\<lambda>r w. case r of
       Ok x \<Rightarrow> between view crs C fs w \<and>
         (\<exists>pods now. podList P c base pods \<and> listedPods c base pods w \<and>
            assignShards pods (derefInt32 (NumShards (KVCache (spec c))) 8) now = Ok x)
     | Err e \<Rightarrow> between view crs C [] w
     | Panic \<Rightarrow> run_post view (shardsPublished view crs P C c base dp pp fs) Panic w)"
    using always_computeShardMap [OF law refl n, of base C fs] by (rule always_post) (auto split: go.splits)
next
  fix e
  show "always (requeueDegraded P c e) (between view crs C [])
    (run_post view (shardsPublished view crs P C c base dp pp fs))"
    using always_requeueDegraded [OF law] .
next
  fix x :: "ShardStatus list \<times> string"
  obtain shards json where x: "x = (shards, json)" by fastforce
  define d where "d = c\<lparr>status := (status c)\<lparr>Shards := shards\<rparr>\<rparr>"
  let ?rest = "onErr (reconcileShardMapConfigMap P d (Name (metadata d) @ ''-shardmap'') base json)
      (requeueDegraded P d) (\<lambda>_. finishStatus P original d dp pp)"
  let ?known = "\<lambda>w. \<exists>pods now. podList P c base pods \<and> listedPods c base pods w \<and>
      assignShards pods (derefInt32 (NumShards (KVCache (spec c))) 8) now = Ok x"
  have "always ?rest (between view crs C fs)
      (run_post view (\<lambda>w. holds (((KConfigMap, Namespace (metadata d), Name (metadata d) @ ''-shardmap''),
           converged asConfigMap (mutateShardMapConfigMap P d base json)) # fs) (view (env w)) \<and>
        (\<exists>c'. published d dp pp c' \<and> crs (env w) = C(key_of (metadata d) \<mapsto> c'))))"
    by (rule always_publishShards [OF law, where old = old]) (use old k in \<open>simp_all add: d_def\<close>)
  moreover have "always ?rest ?known (\<lambda>_. ?known)"
    using appends_keep [OF appends_publishShards] unfolding always_def listedPods_def by blast
  ultimately have "always ?rest (\<lambda>w. between view crs C fs w \<and> ?known w)
      (run_post view (shardsPublished view crs P C c base dp pp fs))"
    by (rule always_post [OF always_conj])
      (elim conjE, erule run_post_mono, simp add: shardsPublished_def d_def x, blast)
  then show "always (case x of (shards, json) \<Rightarrow>
      let cluster = c\<lparr>status := (status c)\<lparr>Shards := shards\<rparr>\<rparr>
      in onErr (reconcileShardMapConfigMap P cluster (Name (metadata cluster) @ ''-shardmap'') base json)
           (requeueDegraded P cluster) (\<lambda>_. finishStatus P original cluster dp pp))
    (\<lambda>w. between view crs C fs w \<and> ?known w) (run_post view (shardsPublished view crs P C c base dp pp fs))"
    by (simp add: x Let_def d_def)
qed

section \<open>The child objects\<close>

text \<open>The facts after all children, for the name \<open>n\<close> and the namespace \<open>ns\<close>.\<close>

definition childFacts ::
  "'w platform \<Rightarrow> LLMInferenceCluster \<Rightarrow> labels \<Rightarrow> int32 option \<Rightarrow> int32 \<Rightarrow> int32 \<Rightarrow> fact list" where
  "childFacts P c base ov dp pp =
     (let n = Name (metadata c); ns = Namespace (metadata c) in
      [((KDeployment, ns, n @ ''-router''),
         converged asDeployment (storedRouterDeployment P c (n @ ''-shardmap'') (n @ ''-router'') base)),
       ((KDeployment, ns, n @ ''-'' @ rolePrefill),
         converged asDeployment (storedRoleDeployment P c rolePrefill (n @ ''-prefill'') base None)),
       ((KDeployment, ns, n @ ''-'' @ roleDecode),
         converged asDeployment (storedRoleDeployment P c roleDecode (n @ ''-decode'') base ov))] @
      rbacFacts P c (n @ ''-router'') base @
      [((KService, ns, n @ ''-router''), converged asService (mutateRouterService P c base)),
       ((KService, ns, n @ ''-prefill''), converged asService (mutateRoleService P c rolePrefill pp base)),
       ((KService, ns, n @ ''-decode''), converged asService (mutateRoleService P c roleDecode dp base))])"

lemma always_reconcileChildren:
  assumes law: "contract P view crs"
    and old: "C (key_of (metadata c)) = Some old" "status old = status original"
      "metadata old = metadata c" "spec old = spec c"
    and n: "0 \<le> sint (derefInt32 (NumShards (KVCache (spec c))) 8)"
    and ports: "ServicePort (Decode (Runtime (spec c))) = Some dp"
      "ServicePort (Prefill (Runtime (spec c))) = Some pp"
    and "defaulted (spec c)"
    and fs: "\<forall>k \<in> fst ` set fs. k = (KConfigMap, Namespace (metadata c), Name (metadata c) @ ''-signals'')"
  shows "always (reconcileChildren P original c base ov) (between view crs C fs)
    (run_post view (shardsPublished view crs P C c base dp pp (childFacts P c base ov dp pp @ fs)))"
proof -
  have k: "k \<notin> fst ` set fs" if "k \<noteq> (KConfigMap, Namespace (metadata c), Name (metadata c) @ ''-signals'')" for k
    using fs that by blast
  note fail = always_requeueDegraded [OF law]
  define f1 where "f1 = ((KService, Namespace (metadata c), Name (metadata c) @ ''-decode''),
    converged asService (mutateRoleService P c roleDecode dp base)) # fs"
  define f2 where "f2 = ((KService, Namespace (metadata c), Name (metadata c) @ ''-prefill''),
    converged asService (mutateRoleService P c rolePrefill pp base)) # f1"
  define f3 where "f3 = ((KService, Namespace (metadata c), Name (metadata c) @ ''-router''),
    converged asService (mutateRouterService P c base)) # f2"
  define f4 where "f4 = rbacFacts P c (Name (metadata c) @ ''-router'') base @ f3"
  define f5 where "f5 = ((KDeployment, Namespace (metadata c), Name (metadata c) @ ''-'' @ roleDecode),
    converged asDeployment (storedRoleDeployment P c roleDecode (Name (metadata c) @ ''-decode'') base ov)) # f4"
  define f6 where "f6 = ((KDeployment, Namespace (metadata c), Name (metadata c) @ ''-'' @ rolePrefill),
    converged asDeployment (storedRoleDeployment P c rolePrefill (Name (metadata c) @ ''-prefill'') base None)) # f5"
  define f7 where "f7 = ((KDeployment, Namespace (metadata c), Name (metadata c) @ ''-router''),
    converged asDeployment (storedRouterDeployment P c (Name (metadata c) @ ''-shardmap'')
      (Name (metadata c) @ ''-router'') base)) # f6"
  note fdefs = f1_def f2_def f3_def f4_def f5_def f6_def f7_def rbacFacts_def Let_def roleDecode_def rolePrefill_def
  have eq: "childFacts P c base ov dp pp @ fs = f7" by (simp add: childFacts_def fdefs)
  show ?thesis
    unfolding reconcileChildren_def Let_def ports deref_simps andThen_lift_Ok eq
  proof (intro step_onErr fail)
    show "always (reconcileRoleService P c roleDecode (Name (metadata c) @ ''-decode'') dp base)
        (between view crs C fs) (step_post view crs C f1)"
      unfolding f1_def by (rule always_roleService [OF law refl k]) simp
    show "always (reconcileRoleService P c rolePrefill (Name (metadata c) @ ''-prefill'') pp base)
        (between view crs C f1) (step_post view crs C f2)"
      unfolding f2_def by (rule always_roleService [OF law refl]) (simp add: f1_def k)
    show "always (reconcileRouterService P c (Name (metadata c) @ ''-router'') base)
        (between view crs C f2) (step_post view crs C f3)"
      unfolding f3_def by (rule always_routerService [OF law refl]) (simp add: f1_def f2_def k)
    show "always (reconcileRouterRBAC P c (Name (metadata c) @ ''-router'') base)
        (between view crs C f3) (step_post view crs C f4)"
      unfolding f4_def by (rule always_routerRBAC [OF law]) (auto simp: f1_def f2_def f3_def k)
    show "always (reconcileRoleDeployment P c roleDecode (Name (metadata c) @ ''-decode'') base ov)
        (between view crs C f4) (step_post view crs C f5)"
      unfolding f5_def by (rule always_roleDeployment [OF law refl]) (simp add: fdefs k)
    show "always (reconcileRoleDeployment P c rolePrefill (Name (metadata c) @ ''-prefill'') base None)
        (between view crs C f5) (step_post view crs C f6)"
      unfolding f6_def by (rule always_roleDeployment [OF law refl]) (simp add: fdefs k)
    show "always (reconcileRouterDeployment P c (Name (metadata c) @ ''-router'') (Name (metadata c) @ ''-shardmap'')
          (Name (metadata c) @ ''-router'') base)
        (between view crs C f6) (step_post view crs C f7)"
      unfolding f7_def
      by (rule always_routerDeployment [OF law refl]) (use \<open>defaulted (spec c)\<close> in \<open>simp_all add: fdefs k\<close>)
    show "always (reconcileShards P original c base dp pp) (between view crs C f7)
        (run_post view (shardsPublished view crs P C c base dp pp f7))"
      by (rule always_reconcileShards [OF law, of C c old]) (use old n in \<open>simp_all add: fdefs k\<close>)
  qed
qed

section \<open>Autoscaling\<close>

text \<open>With autoscaling, the signals ConfigMap is a fixpoint of its closure and its numbers decide \<open>ov\<close>.\<close>

definition decides :: "LLMInferenceCluster \<Rightarrow> int32 option \<Rightarrow> object \<Rightarrow> bool" where
  "decides c ov x \<longleftrightarrow> (\<exists>cm. asConfigMap x = Some cm \<and> ov = Some (desiredReplicas (replicaBounds c) (signalsOf cm)))"

definition signalsFacts :: "'w platform \<Rightarrow> LLMInferenceCluster \<Rightarrow> labels \<Rightarrow> int32 option \<Rightarrow> fact list" where
  "signalsFacts P c base ov =
     (if Enabled (Autoscaling (spec c)) = Some True
      then [((KConfigMap, Namespace (metadata c), Name (metadata c) @ ''-signals''),
              \<lambda>x. converged asConfigMap (mutateSignalsConfigMap P c base) x \<and> decides c ov x)]
      else [])"

text \<open>The override handed to the decode deployment: present exactly when autoscaling is on.\<close>

definition override_ok :: "LLMInferenceCluster \<Rightarrow> int32 option \<Rightarrow> bool" where
  "override_ok c ov \<longleftrightarrow>
     (if Enabled (Autoscaling (spec c)) = Some True
      then \<exists>s. ov = Some (desiredReplicas (replicaBounds c) s)
      else ov = None)"

lemma computeDecodeReplicas_run:
  assumes law: "read_law P view crs" and run: "computeDecodeReplicas P c n w = (r, w')"
  shows "view (env w') = view (env w)" "crs (env w') = crs (env w)" "r \<noteq> Panic"
    and "r = Ok (k, scaling) \<Longrightarrow> \<exists>cm. stored asConfigMap (KConfigMap, Namespace (metadata c), n) (view (env w)) = Some cm \<and>
      k = desiredReplicas (replicaBounds c) (signalsOf cm)"
proof -
  have read: "view (env u') = view (env u) \<and> crs (env u') = crs (env u)" if "Read P a u = (q, u')" for a u u' q
    using that law
    by (cases a) (auto simp: FakeConfigMapAdapter_Read_def PrometheusAdapter_Read_def comp_defs invoke_def
      read_law_def split: prod.splits sum.splits)
  show "view (env w') = view (env w)" "crs (env w') = crs (env w)"
    using run read
    by (fastforce simp: computeDecodeReplicas_def computeDesired_def comp_defs split: prod.splits go.splits)+
  show "r \<noteq> Panic"
    using adapter.computeDesired_no_panic [of P "selectAdapter c n" "replicaBounds c" w r w'] run
    by (simp add: computeDecodeReplicas_def)
  have adapter: "selectAdapter c n = FakeConfigMapAdapter (Namespace (metadata c)) n \<or> (\<exists>url. selectAdapter c n = PrometheusAdapter url)"
    by (auto simp: selectAdapter_def Let_def)
  have fake: "\<exists>cm. stored asConfigMap (KConfigMap, ns, m) (view (env w)) = Some cm \<and> s = signalsOf cm"
    if "FakeConfigMapAdapter_Read P ns m w = (Ok s, u)" for ns m s u
    using that law by (auto simp: FakeConfigMapAdapter_Read_def comp_defs invoke_def read_law_def split: prod.splits sum.splits)
  assume "r = Ok (k, scaling)"
  then obtain s u where "Read P (selectAdapter c n) w = (Ok s, u)" "k = desiredReplicas (replicaBounds c) s"
    using run by (auto simp: computeDecodeReplicas_def computeDesired_def comp_defs split: prod.splits go.splits)
  then show "\<exists>cm. stored asConfigMap (KConfigMap, Namespace (metadata c), n) (view (env w)) = Some cm \<and>
      k = desiredReplicas (replicaBounds c) (signalsOf cm)"
    using adapter fake [of "Namespace (metadata c)" n s u] by (auto simp: PrometheusAdapter_Read_def comp_defs)
qed

text \<open>The replica count read from the signals ConfigMap is the one its stored numbers decide.\<close>

lemma always_computeDecodeReplicas:
  assumes law: "contract P view crs" and on: "Enabled (Autoscaling (spec c)) = Some True"
  shows "always (computeDecodeReplicas P c (Name (metadata c) @ ''-signals''))
    (between view crs C [((KConfigMap, Namespace (metadata c), Name (metadata c) @ ''-signals''),
       converged asConfigMap (mutateSignalsConfigMap P c base))])
    (\<lambda>r w. case r of
       Ok x \<Rightarrow> between view crs C (signalsFacts P c base (Some (fst x))) w \<and> override_ok c (Some (fst x))
     | Err e \<Rightarrow> between view crs C [] w
     | Panic \<Rightarrow> False)"
    (is "always ?f (between view crs C ?fs) _")
proof (rule alwaysI)
  fix w r w'
  assume pre: "between view crs C ?fs w" and run: "?f w = (r, w')"
  note R = computeDecodeReplicas_run [OF contractD(10) [OF law] run]
  have "between view crs C (signalsFacts P c base (Some (fst x))) w' \<and> override_ok c (Some (fst x))" if "r = Ok x" for x
    using R(1,2) R(4) [of "fst x" "snd x"] that pre on
    by (auto simp: between_def override_ok_def signalsFacts_def holds_def decides_def stored_def bind_eq_Some_conv)
  then show "case r of
       Ok x \<Rightarrow> between view crs C (signalsFacts P c base (Some (fst x))) w' \<and> override_ok c (Some (fst x))
     | Err e \<Rightarrow> between view crs C [] w'
     | Panic \<Rightarrow> False"
    using R(1-3) pre by (auto simp: between_def split: go.split)
qed

lemma always_withAutoscaling:
  assumes law: "contract P view crs"
    and k: "\<And>d ov. metadata d = metadata c \<Longrightarrow> spec d = spec c \<Longrightarrow> override_ok c ov \<Longrightarrow>
      always (k d ov) (between view crs C (signalsFacts P c base ov)) (run_post view S)"
  shows "always (withAutoscaling P c base k) (between view crs C []) (run_post view S)"
proof (cases "Enabled (Autoscaling (spec c)) = Some True")
  case False
  then have "always (k c None) (between view crs C []) (run_post view S)"
    using k [of c None] by (simp add: signalsFacts_def override_ok_def)
  then show ?thesis using False by (simp add: withAutoscaling_def)
next
  case True
  define fs where "fs = [((KConfigMap, Namespace (metadata c), Name (metadata c) @ ''-signals''),
    converged asConfigMap (mutateSignalsConfigMap P c base))]"
  have signals: "always (reconcileSignalsConfigMap P c (Name (metadata c) @ ''-signals'') base)
      (between view crs C []) (step_post view crs C fs)"
    using always_signalsConfigMap [OF law refl, of c _ "[]"] by (simp add: fs_def)
  have rest: "always (andThen (clock P) (\<lambda>now. k (setCondition P c (scalingCondition c replicas scaling now)) (Some replicas)))
      (between view crs C (signalsFacts P c base (Some replicas))) (run_post view S)"
    if "override_ok c (Some replicas)" for replicas scaling
    using k [OF _ _ that] by (intro always_andThen [OF between_clock [OF law]]) simp
  have "always (onErr (computeDecodeReplicas P c (Name (metadata c) @ ''-signals'')) (requeueDegraded P c)
      (\<lambda>(replicas, scaling). andThen (clock P) (\<lambda>now.
        k (setCondition P c (scalingCondition c replicas scaling now)) (Some replicas))))
      (between view crs C fs) (run_post view S)"
  proof (rule always_onErr [where I = "\<lambda>x w. between view crs C (signalsFacts P c base (Some (fst x))) w \<and> override_ok c (Some (fst x))"
        and H = "\<lambda>e. between view crs C []"])
    show "always (computeDecodeReplicas P c (Name (metadata c) @ ''-signals'')) (between view crs C fs)
      (\<lambda>r w. case r of
         Ok x \<Rightarrow> between view crs C (signalsFacts P c base (Some (fst x))) w \<and> override_ok c (Some (fst x))
       | Err e \<Rightarrow> between view crs C [] w
       | Panic \<Rightarrow> run_post view S Panic w)"
      unfolding fs_def by (rule always_post [OF always_computeDecodeReplicas [OF law True]]) (auto split: go.splits)
  next
    fix x :: "int32 \<times> bool"
    show "always (case x of (replicas, scaling) \<Rightarrow> andThen (clock P) (\<lambda>now.
        k (setCondition P c (scalingCondition c replicas scaling now)) (Some replicas)))
      (\<lambda>w. between view crs C (signalsFacts P c base (Some (fst x))) w \<and> override_ok c (Some (fst x))) (run_post view S)"
      by (cases x) (use rest in \<open>auto intro: always_assume\<close>)
  qed (rule always_requeueDegraded [OF law])
  then show ?thesis
    unfolding withAutoscaling_def Let_def using True step_onErr [OF signals always_requeueDegraded [OF law]]
    by simp
qed

section \<open>The whole function\<close>

text \<open>The final state of a successful run for the stored resource \<open>c0\<close>.\<close>

definition reconciled ::
  "('w \<Rightarrow> store) \<Rightarrow> ('w \<Rightarrow> cluster_store) \<Rightarrow> 'w platform \<Rightarrow> cluster_store \<Rightarrow> LLMInferenceCluster \<Rightarrow> 'w world \<Rightarrow> bool" where
  "reconciled view crs P C c0 w \<longleftrightarrow>
     (\<exists>c ov dp pp.
        spec c = applyDefaults (spec c0) \<and> key_of (metadata c) = key_of (metadata c0) \<and>
        DeletionTimestamp (metadata c) = None \<and>
        llmInferenceClusterFinalizer \<in> set (Finalizers (metadata c)) \<and>
        ServicePort (Decode (Runtime (spec c))) = Some dp \<and>
        ServicePort (Prefill (Runtime (spec c))) = Some pp \<and>
        override_ok c ov \<and>
        shardsPublished view crs P C c (baseLabels c) dp pp
          (childFacts P c (baseLabels c) ov dp pp @ signalsFacts P c (baseLabels c) ov) w)"

lemma status_only:
  assumes "metadata d = metadata c" "spec d = spec c"
  shows "baseLabels d = baseLabels c" "override_ok d = override_ok c"
    "signalsFacts P d base ov = signalsFacts P c base ov"
proof -
  have "replicaBounds d = replicaBounds c" "mutateSignalsConfigMap P d base = mutateSignalsConfigMap P c base"
    unfolding replicaBounds_def mutateSignalsConfigMap_def withOwner_def [abs_def] setOwner_def [abs_def] assms by (rule refl)+
  then show "baseLabels d = baseLabels c" "override_ok d = override_ok c" "signalsFacts P d base ov = signalsFacts P c base ov"
    using assms by (simp_all add: baseLabels_def override_ok_def [abs_def] signalsFacts_def decides_def [abs_def])
qed

lemma always_afterFinalizer:
  assumes law: "contract P view crs"
    and c: "spec c = applyDefaults (spec c0)" "key_of (metadata c) = key_of (metadata c0)"
      "llmInferenceClusterFinalizer \<in> set (Finalizers (metadata c))" "status c = status original"
      "DeletionTimestamp (metadata c) = None"
    and n: "0 \<le> sint (derefInt32 (NumShards (KVCache (spec c0))) 8)"
    and C: "C1 = C(key_of (metadata c) \<mapsto> c)"
  shows "always (reconcileLive P original c) (between view crs C1 []) (run_post view (reconciled view crs P C c0))"
  unfolding reconcileLive_def Let_def
proof (rule always_withAutoscaling [OF law])
  fix d :: LLMInferenceCluster and ov
  assume d: "metadata d = metadata c" "spec d = spec c" and ov: "override_ok c ov"
  have dflt: "defaulted (spec d)" using c(1) d(2) by (simp add: defaulted_applyDefaults)
  then obtain dp pp where ports: "ServicePort (Decode (Runtime (spec d))) = Some dp"
      "ServicePort (Prefill (Runtime (spec d))) = Some pp"
    by (auto simp: defaulted_def)
  have N: "0 \<le> sint (derefInt32 (NumShards (KVCache (spec d))) 8)"
    using n c(1) d(2) by (simp add: applyDefaults_def derefInt32_def split: option.splits)
  have "always (reconcileChildren P original d (baseLabels c) ov)
      (between view crs C1 (signalsFacts P c (baseLabels c) ov))
      (run_post view (shardsPublished view crs P C1 d (baseLabels c) dp pp
        (childFacts P d (baseLabels c) ov dp pp @ signalsFacts P c (baseLabels c) ov)))"
    by (rule always_reconcileChildren [OF law _ _ _ _ N ports dflt, of C1 c])
      (use c C d in \<open>simp_all add: signalsFacts_def\<close>)
  then show "always (reconcileChildren P original d (baseLabels c) ov)
      (between view crs C1 (signalsFacts P c (baseLabels c) ov)) (run_post view (reconciled view crs P C c0))"
  proof (rule always_post, elim run_post_mono)
    fix w
    assume "shardsPublished view crs P C1 d (baseLabels c) dp pp
      (childFacts P d (baseLabels c) ov dp pp @ signalsFacts P c (baseLabels c) ov) w"
    then have "shardsPublished view crs P C d (baseLabels d) dp pp
      (childFacts P d (baseLabels d) ov dp pp @ signalsFacts P d (baseLabels d) ov) w"
      using C d by (simp add: status_only [OF d] shardsPublished_def)
    then show "reconciled view crs P C c0 w"
      unfolding reconciled_def using c d ov ports status_only(2) [OF d] by metis
  qed
qed

lemma always_ensureFinalizer:
  assumes law: "contract P view crs"
    and c: "spec c = applyDefaults (spec c0)" "key_of (metadata c) = key_of (metadata c0)" "status c = status c0"
      "DeletionTimestamp (metadata c) = None"
    and n: "0 \<le> sint (derefInt32 (NumShards (KVCache (spec c0))) 8)"
    and C: "C1 = C(key_of (metadata c) \<mapsto> c)"
  shows "always (ensureFinalizer P c (reconcileLive P c0)) (between view crs C1 [])
    (run_post view (reconciled view crs P C c0))"
proof (cases "hasFinalizer P c")
  case True
  then have "llmInferenceClusterFinalizer \<in> set (Finalizers (metadata c))"
    using contractD(3) [OF law] by (simp add: hasFinalizer_def finalizer_law_def)
  then show ?thesis
    using always_afterFinalizer [OF law c(1,2) _ c(3,4) n C] True by (simp add: ensureFinalizer_def Let_def)
next
  case False
  define d where "d = putFinalizers (AddFinalizer P (Finalizers (metadata c)) llmInferenceClusterFinalizer) c"
  have d: "spec d = spec c" "key_of (metadata d) = key_of (metadata c)" "DeletionTimestamp (metadata d) = None"
      "llmInferenceClusterFinalizer \<in> set (Finalizers (metadata d))"
    using contractD(3) [OF law] c(4) by (auto simp: d_def putFinalizers_def key_of_def finalizer_law_def)
  have "always (onErr (invoke (CallUpdate d) (ClientUpdate P d)) (\<lambda>e. ret (noRequeue, Some e)) (reconcileLive P c0))
      (between view crs C1 []) (run_post view (reconciled view crs P C c0))"
  proof (rule always_onErr)
    show "always (invoke (CallUpdate d) (ClientUpdate P d)) (between view crs C1 [])
      (\<lambda>r w. case r of
         Ok c' \<Rightarrow> between view crs (C(key_of (metadata c') \<mapsto> c')) [] w \<and>
           (spec c' = spec d \<and> status c' = status c0 \<and> server_meta (metadata d) (metadata c'))
       | Err e \<Rightarrow> deployments_ok (view (env w))
       | Panic \<Rightarrow> run_post view (reconciled view crs P C c0) Panic w)"
      using contractD(7) [OF law] c C d
      by (intro always_invoke)
        (fastforce simp: between_def update_law_def of_sum_def server_metaD split: sum.splits)
  next
    fix c'
    show "always (reconcileLive P c0 c') (\<lambda>w. between view crs (C(key_of (metadata c') \<mapsto> c')) [] w \<and>
         (spec c' = spec d \<and> status c' = status c0 \<and> server_meta (metadata d) (metadata c')))
      (run_post view (reconciled view crs P C c0))"
      by (rule always_assume, rule always_afterFinalizer [OF law])
        (use c d n in \<open>auto simp: server_metaD\<close>)
  qed (auto intro!: always_ret simp: run_post_def)
  then show ?thesis using False by (simp add: ensureFinalizer_def d_def Let_def)
qed

text \<open>
  How a run for a stored resource begins: it stops at one of its first two calls with their error, or
  the resource is read and patched with its defaults.
\<close>

lemma Reconcile_start:
  assumes law: "contract P view crs" and c0: "crs (env w) req = Some c0" and run: "Reconcile P req w = (r, w')"
  obtains (stopped) e t where "r = Ok (noRequeue, Some e)" "view (env w') = view (env w)" "calls w' = calls w @ t"
      "t = [CallGet req] \<or> t = [CallGet req, CallPatch (c0\<lparr>spec := applyDefaults (spec c0)\<rparr>) c0]"
  | (patched) c u x where "reconcilePatched P c0 c u = (r, w')" "key_of (metadata c0) = req"
      "spec c = applyDefaults (spec c0)" "status c = status c0" "server_meta (metadata c0) (metadata c)"
      "view (env u) = view (env w)" "crs (env u) = (crs (env w))(req \<mapsto> c)"
      "calls u = calls w @ [CallGet req, CallPatch (c0\<lparr>spec := applyDefaults (spec c0)\<rparr>) c0]"
      "crs x req = Some c0" "ClientPatch P (c0\<lparr>spec := applyDefaults (spec c0)\<rparr>) c0 x = (Inr c, env u)"
proof -
  define d where "d = c0\<lparr>spec := applyDefaults (spec c0)\<rparr>"
  obtain q x where get: "ClientGet P req (env w) = (q, x)" by fastforce
  note G = get_lawD [OF contractD(5) [OF law] get]
  define w1 where "w1 = w\<lparr>env := x, calls := calls w @ [CallGet req]\<rparr>"
  show thesis
  proof (cases q)
    case (Inl e)
    then have "\<not> IsNotFound e" using G(4) [of e] c0 by auto
    then have "r = Ok (noRequeue, Some e)" "w' = w1"
      using run get Inl by (auto simp: Reconcile_def comp_defs invoke_def w1_def)
    then show thesis using stopped [of e "[CallGet req]"] G(1) by (simp add: w1_def)
  next
    case (Inr c)
    then have c: "c = c0" "key_of (metadata c0) = req" using G(3) [of c] c0 by auto
    obtain q2 x2 where patch: "ClientPatch P d c0 x = (q2, x2)" by fastforce
    define w2 where "w2 = w1\<lparr>env := x2, calls := calls w1 @ [CallPatch d c0]\<rparr>"
    have rest: "(case q2 of Inl e \<Rightarrow> (Ok (noRequeue, Some e), w2) | Inr c \<Rightarrow> reconcilePatched P c0 c w2) = (r, w')"
      using run get Inr c(1) patch
      by (auto simp: Reconcile_def Let_def comp_defs invoke_def w1_def w2_def d_def [symmetric] split: sum.splits)
    note U = patch_lawD [OF contractD(6) [OF law] patch]
    show thesis
    proof (cases q2)
      case (Inl e)
      then have "r = Ok (noRequeue, Some e)" "w' = w2" using rest by simp_all
      then show thesis
        using stopped [of e "[CallGet req, CallPatch d c0]"] U(1) G(1) by (simp add: w2_def w1_def d_def)
    next
      case (Inr c1)
      have "spec c1 = spec d \<and> status c1 = status c0 \<and> server_meta (metadata c0) (metadata c1) \<and> crs x2 = (crs x)(req \<mapsto> c1)"
        using U(2) [OF Inr] G(2) c0 c(2) by (simp add: d_def)
      then show thesis
        using patched [of c1 w2 x] rest Inr U(1) G(1,2) c(2) c0 patch by (simp add: w2_def w1_def d_def)
    qed
  qed
qed

text \<open>
  The main lemma: a run for a stored resource that is not being deleted returns a result and does
  not panic, keeps the deployments well-formed, and after a result without error the cluster is
  reconciled.
\<close>

lemma Reconcile_run:
  assumes law: "contract P view crs"
    and c0: "crs (env w) req = Some c0" "DeletionTimestamp (metadata c0) = None"
    and n: "0 \<le> sint (derefInt32 (NumShards (KVCache (spec c0))) 8)"
    and dep: "deployments_ok (view (env w))"
    and run: "Reconcile P req w = (r, w')"
  shows "run_post view (reconciled view crs P (crs (env w)) c0) r w'"
  using law c0(1) run
proof (cases rule: Reconcile_start)
  case (stopped e t)
  then show ?thesis using dep by (simp add: run_post_def)
next
  case (patched c u x)
  note M = server_metaD [OF patched(5)]
  have "ensureFinalizer P c (reconcileLive P c0) u = (r, w')"
    using patched(1) M(7) c0(2) by (simp add: reconcilePatched_def)
  moreover have "between view crs ((crs (env w))(key_of (metadata c) \<mapsto> c)) [] u"
    using patched(2,6,7) M(3) dep by (simp add: between_def)
  ultimately show ?thesis
    using alwaysD [OF always_ensureFinalizer [OF law, of c c0, OF _ _ _ _ n refl]] patched(3,4) M(3,7) c0(2) by metis
qed

section \<open>Deletion\<close>

text \<open>A run that touched no child object and read nothing but the resource itself.\<close>

definition untouched :: "('w \<Rightarrow> store) \<Rightarrow> 'w world \<Rightarrow> 'w world \<Rightarrow> bool" where
  "untouched view w w' \<longleftrightarrow>
     view (env w') = view (env w) \<and>
     (\<exists>t. calls w' = calls w @ t \<and> list_all (\<lambda>c. case c of CallGet _ \<Rightarrow> True | CallPatch _ _ \<Rightarrow> True
        | CallUpdate _ \<Rightarrow> True | _ \<Rightarrow> False) t)"

lemma untouched_refl: "untouched view w w"
  by (simp add: untouched_def)

lemma untouched_call:
  "untouched view w u \<Longrightarrow> view x = view (env u) \<Longrightarrow>
    (case c of CallGet _ \<Rightarrow> True | CallPatch _ _ \<Rightarrow> True | CallUpdate _ \<Rightarrow> True | _ \<Rightarrow> False) \<Longrightarrow>
    untouched view w (u\<lparr>env := x, calls := calls u @ [c]\<rparr>)"
  by (auto simp: untouched_def)

definition finalized :: "LLMInferenceCluster option \<Rightarrow> bool" where
  "finalized p \<longleftrightarrow>
     (case p of None \<Rightarrow> True | Some c \<Rightarrow> llmInferenceClusterFinalizer \<notin> set (Finalizers (metadata c)))"

lemma delete_run:
  assumes law: "contract P view crs"
    and c: "crs (env u) (key_of (metadata c)) = Some c" "DeletionTimestamp (metadata c) \<noteq> None"
    and u: "untouched view w u" and run: "reconcileDelete P c u = (r, w')"
  shows "untouched view w w' \<and> (\<exists>e. r = Ok (noRequeue, e)) \<and>
    (r = Ok (noRequeue, None) \<longrightarrow> finalized (crs (env w') (key_of (metadata c))) \<and>
      (set (Finalizers (metadata c)) \<subseteq> {llmInferenceClusterFinalizer} \<longrightarrow>
        Finalizers (metadata c) \<noteq> [] \<longrightarrow> crs (env w') (key_of (metadata c)) = None))"
proof (cases "hasFinalizer P c")
  case False
  then have "llmInferenceClusterFinalizer \<notin> set (Finalizers (metadata c))"
    using contractD(3) [OF law] by (simp add: hasFinalizer_def finalizer_law_def)
  then show ?thesis
    using False run c u by (auto simp: reconcileDelete_def ret_def finalized_def subset_singleton_iff)
next
  case True
  define d where "d = putFinalizers (RemoveFinalizer P (Finalizers (metadata c)) llmInferenceClusterFinalizer) c"
  have fin: "Finalizers (metadata d) = filter (\<lambda>g. g \<noteq> llmInferenceClusterFinalizer) (Finalizers (metadata c))"
    and key: "key_of (metadata d) = key_of (metadata c)"
    and del: "DeletionTimestamp (metadata d) \<noteq> None"
    using contractD(3) [OF law] c(2) by (auto simp: d_def putFinalizers_def finalizer_law_def key_of_def)
  obtain q x where upd: "ClientUpdate P d (env u) = (q, x)" by fastforce
  have w': "w' = u\<lparr>env := x, calls := calls u @ [CallUpdate d]\<rparr>"
    and r: "r = (case q of Inl e \<Rightarrow> Ok (noRequeue, Some e) | Inr _ \<Rightarrow> Ok (noRequeue, None))"
    using run True upd
    by (auto simp: reconcileDelete_def Let_def d_def [symmetric] comp_defs invoke_def split: sum.splits)
  note U = update_lawD [OF contractD(7) [OF law] upd]
  have cx: "crs x = (crs (env u))(key_of (metadata c) :=
      (if Finalizers (metadata d) = [] then None else Some c'))"
      "server_meta (metadata d) (metadata c')" if "q = Inr c'" for c'
    using U(2) [OF that, of c] c(1) del key by auto
  have "finalized (crs x (key_of (metadata c)))" if "q = Inr c'" for c'
    using cx [OF that] fin server_metaD(6) [of "metadata d" "metadata c'"] by (auto simp: finalized_def)
  moreover have "crs x (key_of (metadata c)) = None"
    if "q = Inr c'" "set (Finalizers (metadata c)) \<subseteq> {llmInferenceClusterFinalizer}" for c'
    using cx(1) [OF that(1)] fin that(2) by (auto simp: filter_empty_conv)
  ultimately show ?thesis
    using untouched_call [OF u U(1), of "CallUpdate d"] by (auto simp: w' r split: sum.splits)
qed

lemma Reconcile_deleted:
  assumes law: "contract P view crs"
    and c0: "crs (env w) req = Some c0" "DeletionTimestamp (metadata c0) \<noteq> None"
    and run: "Reconcile P req w = (r, w')"
  shows "untouched view w w' \<and> (\<exists>e. r = Ok (noRequeue, e)) \<and>
    (r = Ok (noRequeue, None) \<longrightarrow> finalized (crs (env w') req) \<and>
      (Finalizers (metadata c0) = [llmInferenceClusterFinalizer] \<longrightarrow> crs (env w') req = None))"
  using law c0(1) run
proof (cases rule: Reconcile_start)
  case (stopped e t)
  then show ?thesis by (auto simp: untouched_def)
next
  case (patched c u x)
  note M = server_metaD [OF patched(5)]
  have "untouched view w u" using patched(6,8) by (auto simp: untouched_def)
  moreover have "reconcileDelete P c u = (r, w')" using patched(1) M(7) c0(2) by (simp add: reconcilePatched_def)
  ultimately show ?thesis
    using delete_run [OF law, of u c w r w'] patched(2,7) M(3,6,7) c0(2) by simp
qed

end
