(* ===== verification/Deployed.thy ===== *)
theory Deployed
  imports Guarantees
begin

text \<open>
  The deployed system, as a specification of the stored objects that does not mention the closures:
  services, deployments and RBAC objects by their visible fields. A fixpoint of a closure meets the
  specification of its object, so a successful reconciliation deploys the system.
\<close>

section \<open>The specification\<close>

definition service_spec :: "ObjectMeta \<Rightarrow> labels \<Rightarrow> (string \<times> int32) list \<Rightarrow> Service \<Rightarrow> bool" where
  "service_spec owner sel ports svc \<longleftrightarrow>
     Labels (svc_meta svc) = sel \<and> svc_Selector svc = sel \<and> owned_by owner (svc_meta svc) \<and>
     map (\<lambda>p. (sp_Name p, sp_Port p)) (svc_Ports svc) = ports \<and>
     list_all (\<lambda>p. sp_Protocol p = ''TCP'' \<and> sp_TargetPort p = IntVal (sp_Port p)) (svc_Ports svc)"

definition deployment_spec ::
  "ObjectMeta \<Rightarrow> labels \<Rightarrow> int32 option \<Rightarrow> (Container \<Rightarrow> bool) \<Rightarrow> Deployment \<Rightarrow> bool" where
  "deployment_spec owner sel replicas ct dep \<longleftrightarrow>
     Labels (dep_meta dep) = sel \<and> dep_Selector dep = Some sel \<and> dep_TemplateLabels dep = sel \<and>
     dep_Replicas dep = replicas \<and> owned_by owner (dep_meta dep) \<and>
     (\<exists>c cs. dep_Containers dep = Some (c # cs) \<and> ct c)"

definition worker_spec :: "LLMInferenceCluster \<Rightarrow> string \<Rightarrow> int32 \<Rightarrow> Container \<Rightarrow> bool" where
  "worker_spec c role port ct \<longleftrightarrow>
     ct_Name ct = ''worker'' \<and> ct_Image ct = model_Image (Model (spec c)) \<and>
     ct_ImagePullPolicy ct = ''IfNotPresent'' \<and> ct_Args ct = model_Args (Model (spec c)) \<and>
     ct_Ports ct = [\<lparr>cp_Name = ''http'', cp_ContainerPort = port, cp_Protocol = ''TCP''\<rparr>] \<and>
     (\<exists>us. ct_Env ct = us @
          [plainEnv ''INFERENCE_ROLE'' role, plainEnv ''SERVICE_NAME'' (Name (metadata c) @ ''-'' @ role),
           plainEnv ''KV_SHARDS'' (Itoa (sint (derefInt32 (NumShards (KVCache (spec c))) 8)))] \<and>
        mset us = mset (map (\<lambda>e. plainEnv (ev_Name e) (ev_Value e)) (model_Env (Model (spec c)))) \<and>
        sorted (map env_Name us))"

definition router_spec :: "LLMInferenceCluster \<Rightarrow> int32 \<Rightarrow> int32 \<Rightarrow> Container \<Rightarrow> bool" where
  "router_spec c dp pp ct \<longleftrightarrow>
     (let n = Name (metadata c); ns = Namespace (metadata c) in
      ct_Name ct = ''router'' \<and> ct_Image ct = ''llm-inference-router:latest'' \<and> ct_ImagePullPolicy ct = ''IfNotPresent'' \<and>
      ct_Args ct = [''--shardmap-configmap'', n @ ''-shardmap'',
        ''--hash-key'', derefString (HashKey (Routing (spec c))) ''conversationId''] \<and>
      ct_Ports ct = [\<lparr>cp_Name = ''http'', cp_ContainerPort = 8080, cp_Protocol = ''TCP''\<rparr>,
        \<lparr>cp_Name = ''metrics'', cp_ContainerPort = 9090, cp_Protocol = ''TCP''\<rparr>] \<and>
      ct_Env ct = [\<lparr>env_Name = ''NAMESPACE'', env_Value = [],
          env_FieldRef = Some \<lparr>fs_APIVersion = ''v1'', fs_FieldPath = ''metadata.namespace''\<rparr>\<rparr>,
        plainEnv ''DECODE_SERVICE_DNS'' (serviceDNS (n @ ''-decode'') ns dp),
        plainEnv ''PREFILL_SERVICE_DNS'' (serviceDNS (n @ ''-prefill'') ns pp)])"

text \<open>The role may read ConfigMaps, and the binding gives it to the router's account.\<close>

definition rbac_spec :: "LLMInferenceCluster \<Rightarrow> store \<Rightarrow> bool" where
  "rbac_spec c st \<longleftrightarrow>
     (let k = (Namespace (metadata c), Name (metadata c) @ ''-router'') in
      \<exists>a r b. stored asServiceAccount (KServiceAccount, k) st = Some a \<and>
        stored asRole (KRole, k) st = Some r \<and> stored asRoleBinding (KRoleBinding, k) st = Some b \<and>
        owned_by (metadata c) (sa_meta a) \<and> owned_by (metadata c) (role_meta r) \<and> owned_by (metadata c) (rb_meta b) \<and>
        role_Rules r = [\<lparr>APIGroups = [''''], Resources = [''configmaps''], Verbs = [''get'', ''list'', ''watch'']\<rparr>] \<and>
        rb_RoleRef b = \<lparr>ref_APIGroup = ''rbac.authorization.k8s.io'', ref_Kind = ''Role'', ref_Name = snd k\<rparr> \<and>
        rb_Subjects b = [\<lparr>sub_Kind = ''ServiceAccount'', sub_Name = snd k, sub_Namespace = fst k\<rparr>])"

definition object_spec :: "(object \<Rightarrow> 'o option) \<Rightarrow> object_key \<Rightarrow> ('o \<Rightarrow> bool) \<Rightarrow> store \<Rightarrow> bool" where
  "object_spec unwrap k Q st \<longleftrightarrow> (\<exists>x. stored unwrap k st = Some x \<and> Q x)"

definition decodeReplicas :: "LLMInferenceCluster \<Rightarrow> int32 option \<Rightarrow> int32" where
  "decodeReplicas c ov =
     (case ov of Some v \<Rightarrow> v | None \<Rightarrow> derefInt32 (Replicas (Decode (Runtime (spec c)))) 1)"

definition deployed :: "LLMInferenceCluster \<Rightarrow> int32 option \<Rightarrow> int32 \<Rightarrow> int32 \<Rightarrow> store \<Rightarrow> bool" where
  "deployed c ov dp pp st \<longleftrightarrow>
     (let n = Name (metadata c); ns = Namespace (metadata c); sel = roleLabels (baseLabels c); o1 = metadata c in
      object_spec asService (KService, ns, n @ ''-decode'') (service_spec o1 (sel ''decode'') [(''http'', dp)]) st \<and>
      object_spec asService (KService, ns, n @ ''-prefill'') (service_spec o1 (sel ''prefill'') [(''http'', pp)]) st \<and>
      object_spec asService (KService, ns, n @ ''-router'')
        (service_spec o1 (sel ''router'') [(''http'', 8080), (''metrics'', 9090)]) st \<and>
      object_spec asDeployment (KDeployment, ns, n @ ''-decode'')
        (deployment_spec o1 (sel ''decode'') (Some (decodeReplicas c ov)) (worker_spec c ''decode'' dp)) st \<and>
      object_spec asDeployment (KDeployment, ns, n @ ''-prefill'')
        (deployment_spec o1 (sel ''prefill'') (Some (derefInt32 (Replicas (Prefill (Runtime (spec c)))) 1))
          (worker_spec c ''prefill'' pp)) st \<and>
      object_spec asDeployment (KDeployment, ns, n @ ''-router'')
        (\<lambda>x. deployment_spec o1 (sel ''router'') (RouterReplicas (Routing (spec c))) (router_spec c dp pp) x \<and>
          dep_ServiceAccountName x = n @ ''-router'') st \<and>
      rbac_spec c st)"

section \<open>Fixpoints meet it\<close>

context owned_child
begin

lemma fixpoint:
  assumes "owner_law P" "mutate x = Ok x"
  shows "owned_by (metadata cluster) (meta x)" "Labels (meta x) = L" "fill x = Ok x"
proof -
  note R = mutate_result [OF assms]
  show "owned_by (metadata cluster) (meta x)" "Labels (meta x) = L"
    using R(1) mutate_labels [OF assms] by simp_all
  obtain z where z: "fill x = Ok z" "x = put (meta x) z" using R(3) by blast
  have "meta z = meta x" using fill_meta [OF z(1)] mutate_labels [OF assms] by simp
  then have "z = x" using z(2) put_meta [of z] by simp
  then show "fill x = Ok x" using z(1) by simp
qed

end

lemma roleService_spec:
  assumes "owner_law P" "mutateRoleService P c role port base x = Ok x"
  shows "service_spec (metadata c) (roleLabels base role) [(''http'', port)] x"
proof -
  note F = roleService.fixpoint [OF assms]
  have "svc_Selector x = roleLabels base role"
    "svc_Ports x = [\<lparr>sp_Name = ''http'', sp_Port = port, sp_Protocol = ''TCP'', sp_TargetPort = intstrFromInt (sint port)\<rparr>]"
    using arg_cong [OF F(3), of "map_go svc_Selector"] arg_cong [OF F(3), of "map_go svc_Ports"]
    by (simp_all add: writeRoleService_def)
  then show ?thesis using F(1,2) by (simp add: service_spec_def intstrFromInt_def)
qed

lemma routerService_spec:
  assumes "owner_law P" "mutateRouterService P c base x = Ok x"
  shows "service_spec (metadata c) (roleLabels base ''router'') [(''http'', 8080), (''metrics'', 9090)] x"
proof -
  note F = routerService.fixpoint [OF assms]
  have "svc_Selector x = roleLabels base ''router''"
    "svc_Ports x = [\<lparr>sp_Name = ''http'', sp_Port = 8080, sp_Protocol = ''TCP'', sp_TargetPort = intstrFromInt 8080\<rparr>,
      \<lparr>sp_Name = ''metrics'', sp_Port = 9090, sp_Protocol = ''TCP'', sp_TargetPort = intstrFromInt 9090\<rparr>]"
    using arg_cong [OF F(3), of "map_go svc_Selector"] arg_cong [OF F(3), of "map_go svc_Ports"]
    by (simp_all add: writeRouterService_def)
  then show ?thesis using F(1,2) by (simp add: service_spec_def intstrFromInt_def)
qed

lemma env_order: "strict_weak_order (\<lambda>a b. env_Name a < env_Name b)"
  by (auto simp: strict_weak_order_def not_less)

lemma buildEnvVars_props:
  assumes "sort_law P"
  shows "mset (buildEnvVars P vars) = mset (map (\<lambda>e. plainEnv (ev_Name e) (ev_Value e)) vars)"
    and "sorted (map env_Name (buildEnvVars P vars))"
    and "set (buildEnvVars P vars) = (\<lambda>e. plainEnv (ev_Name e) (ev_Value e)) ` set vars"
proof -
  show m: "mset (buildEnvVars P vars) = mset (map (\<lambda>e. plainEnv (ev_Name e) (ev_Value e)) vars)"
    and "sorted (map env_Name (buildEnvVars P vars))"
    using assms env_order by (auto simp: sort_law_def buildEnvVars_def sorted_map not_less)
  show "set (buildEnvVars P vars) = (\<lambda>e. plainEnv (ev_Name e) (ev_Value e)) ` set vars"
    using arg_cong [OF m, of set_mset] by simp
qed

lemma server_plainEnv:
  assumes "sort_law P"
  shows "map (\<lambda>e. e\<lparr>env_FieldRef := map_option serverFieldRef (env_FieldRef e)\<rparr>) (buildEnvVars P vars) = buildEnvVars P vars"
  using buildEnvVars_props(3) [OF assms, of vars] by (intro map_idI) (auto simp: plainEnv_def)

text \<open>With distinct names the order of the variables does not matter.\<close>

lemma buildEnvVars_perm:
  assumes "sort_law P" "mset vs = mset us" "distinct (map ev_Name us)"
  shows "buildEnvVars P vs = buildEnvVars P us"
proof (rule map_sorted_distinct_set_unique [where f = env_Name])
  note U = buildEnvVars_props [OF assms(1), of us] and V = buildEnvVars_props [OF assms(1), of vs]
  have m: "mset (buildEnvVars P vs) = mset (buildEnvVars P us)" using U(1) V(1) assms(2) by simp
  have "distinct (map env_Name (map (\<lambda>e. plainEnv (ev_Name e) (ev_Value e)) us))"
    using assms(3) by (simp add: plainEnv_def comp_def)
  then have d: "distinct (map env_Name (buildEnvVars P us))"
    using U(1) by (metis mset_eq_imp_distinct_iff mset_map)
  then show "distinct (map env_Name (buildEnvVars P us))" .
  show "distinct (map env_Name (buildEnvVars P vs))" using d m by (metis mset_eq_imp_distinct_iff mset_map)
  have "set (buildEnvVars P vs) = set (buildEnvVars P us)" using m by (rule mset_eq_setD)
  moreover have "inj_on env_Name (set (buildEnvVars P us))" using d by (simp add: distinct_map)
  ultimately show "inj_on env_Name (set (buildEnvVars P vs) \<union> set (buildEnvVars P us))"
    "set (buildEnvVars P vs) = set (buildEnvVars P us)" by simp_all
qed (use buildEnvVars_props(2) [OF assms(1)] in simp_all)

lemma worker_fields:
  assumes "sort_law P"
  shows "worker_spec c role (servicePortForRole c role)
    (serverContainer (workerContainer P c role (Name (metadata c) @ ''-'' @ role) ct))"
  using buildEnvVars_props(1,2) [OF assms] server_plainEnv [OF assms]
  by (simp add: worker_spec_def workerContainer_def serverContainer_def serverPort_def) (simp add: plainEnv_def)

lemma router_fields:
  "router_spec c dp pp (serverContainer (routerContainer c (Name (metadata c) @ ''-shardmap'') dp pp ct))"
  by (simp add: router_spec_def routerContainer_def serverContainer_def serverPort_def serverFieldRef_def plainEnv_def Let_def)

lemma roleDeployment_spec:
  assumes "owner_law P" "sort_law P" "storedRoleDeployment P c role (Name (metadata c) @ ''-'' @ role) base ov x = Ok x"
  shows "deployment_spec (metadata c) (roleLabels base role) (Some (roleReplicas c role ov))
    (worker_spec c role (servicePortForRole c role)) x"
proof -
  note F = roleDeployment.fixpoint [OF assms(1,3)]
  obtain y where y: "writeRoleDeployment P c role (Name (metadata c) @ ''-'' @ role) base ov x = Ok y" "x = serverDeployment y"
    using F(3) by (auto simp: map_go_Ok)
  obtain ct cs where "y = x\<lparr>dep_meta := (dep_meta x)\<lparr>Labels := roleLabels base role\<rparr>,
      dep_Replicas := Some (roleReplicas c role ov), dep_Selector := Some (roleLabels base role),
      dep_TemplateLabels := roleLabels base role, dep_Containers := Some (workerContainer P c role (Name (metadata c) @ ''-'' @ role) ct # cs)\<rparr>"
    using updateFirstContainer_Ok [OF y(1) [unfolded writeRoleDeployment_def Let_def]] by auto
  note eq = y(2) [unfolded this]
  show ?thesis
    using F(1,2) worker_fields [OF assms(2), of c role ct]
      arg_cong [OF eq, of dep_Replicas] arg_cong [OF eq, of dep_Selector]
      arg_cong [OF eq, of dep_TemplateLabels] arg_cong [OF eq, of dep_Containers]
    by (simp add: deployment_spec_def serverDeployment_def)
qed

lemma routerDeployment_spec:
  assumes "owner_law P" "storedRouterDeployment P c (Name (metadata c) @ ''-shardmap'') san base x = Ok x"
    "ServicePort (Decode (Runtime (spec c))) = Some dp" "ServicePort (Prefill (Runtime (spec c))) = Some pp"
  shows "deployment_spec (metadata c) (roleLabels base ''router'') (RouterReplicas (Routing (spec c))) (router_spec c dp pp) x \<and>
    dep_ServiceAccountName x = san"
proof -
  note F = routerDeployment.fixpoint [OF assms(1,2)]
  obtain y where y: "writeRouterDeployment c (Name (metadata c) @ ''-shardmap'') san base x = Ok y" "x = serverDeployment y"
    using F(3) by (auto simp: map_go_Ok)
  obtain ct cs where "y = x\<lparr>dep_meta := (dep_meta x)\<lparr>Labels := roleLabels base ''router''\<rparr>,
      dep_Selector := Some (roleLabels base ''router''), dep_TemplateLabels := roleLabels base ''router'',
      dep_Replicas := RouterReplicas (Routing (spec c)), dep_ServiceAccountName := san,
      dep_Containers := Some (routerContainer c (Name (metadata c) @ ''-shardmap'') dp pp ct # cs)\<rparr>"
    using y(1) assms(3,4) by (auto simp: writeRouterDeployment_def Let_def dest: updateFirstContainer_Ok)
  note eq = y(2) [unfolded this]
  show ?thesis
    using F(1,2) router_fields [of c dp pp ct] arg_cong [OF eq, of dep_Replicas] arg_cong [OF eq, of dep_Selector]
      arg_cong [OF eq, of dep_TemplateLabels] arg_cong [OF eq, of dep_Containers] arg_cong [OF eq, of dep_ServiceAccountName]
    by (simp add: deployment_spec_def serverDeployment_def)
qed

lemma stored_converged:
  assumes "holds fs st" "(k, converged unwrap mutate) \<in> set fs"
  obtains x where "stored unwrap k st = Some x" "mutate x = Ok x"
  using holds_fact [OF assms] that by (auto simp: converged_def stored_def)

lemma rbac_deployed:
  assumes law: "owner_law P" and h: "holds fs st"
    and sub: "set (rbacFacts P c (Name (metadata c) @ ''-router'') base) \<subseteq> set fs"
  shows "rbac_spec c st"
proof -
  let ?n = "Name (metadata c) @ ''-router''" and ?ns = "Namespace (metadata c)"
  have mems: "((KServiceAccount, ?ns, ?n), converged asServiceAccount (mutateServiceAccount P c base)) \<in> set fs"
      "((KRole, ?ns, ?n), converged asRole (mutateRole P c base)) \<in> set fs"
      "((KRoleBinding, ?ns, ?n), converged asRoleBinding
         (mutateRoleBinding P c base (emptyRole ?ns ?n) (emptyServiceAccount ?ns ?n))) \<in> set fs"
    using sub by (simp_all add: rbacFacts_def Let_def)
  obtain a where a: "stored asServiceAccount (KServiceAccount, ?ns, ?n) st = Some a" "mutateServiceAccount P c base a = Ok a"
    using stored_converged [OF h mems(1)] .
  obtain r where r: "stored asRole (KRole, ?ns, ?n) st = Some r" "mutateRole P c base r = Ok r"
    using stored_converged [OF h mems(2)] .
  obtain b where b: "stored asRoleBinding (KRoleBinding, ?ns, ?n) st = Some b"
      "mutateRoleBinding P c base (emptyRole ?ns ?n) (emptyServiceAccount ?ns ?n) b = Ok b"
    using stored_converged [OF h mems(3)] .
  note fa = serviceAccount.fixpoint [OF law a(2)] and fr = role.fixpoint [OF law r(2)]
    and fb = roleBinding.fixpoint [OF law b(2)]
  have "role_Rules r = [\<lparr>APIGroups = [''''], Resources = [''configmaps''], Verbs = [''get'', ''list'', ''watch'']\<rparr>]"
    using arg_cong [OF fr(3), of "map_go role_Rules"] by (simp add: writeRole_def)
  moreover have "rb_RoleRef b = \<lparr>ref_APIGroup = ''rbac.authorization.k8s.io'', ref_Kind = ''Role'', ref_Name = ?n\<rparr>"
      "rb_Subjects b = [\<lparr>sub_Kind = ''ServiceAccount'', sub_Name = ?n, sub_Namespace = ?ns\<rparr>]"
    using arg_cong [OF fb(3), of "map_go rb_RoleRef"] arg_cong [OF fb(3), of "map_go rb_Subjects"]
    by (simp_all add: writeRoleBinding_def emptyRole_def emptyServiceAccount_def)
  ultimately show ?thesis
    unfolding rbac_spec_def Let_def using a(1) r(1) b(1) fa(1) fr(1) fb(1) by (intro exI [of _ a] exI [of _ r] exI [of _ b]) simp
qed

lemma object_specI:
  assumes "holds fs st" "(k, converged unwrap mutate) \<in> set fs" "\<And>x. mutate x = Ok x \<Longrightarrow> Q x"
  shows "object_spec unwrap k Q st"
  using stored_converged [OF assms(1,2)] assms(3) unfolding object_spec_def by metis

lemma childFacts_deployed:
  assumes law: "owner_law P" "sort_law P" and h: "holds fs st"
    and sub: "set (childFacts P c (baseLabels c) ov dp pp) \<subseteq> set fs"
    and ports: "ServicePort (Decode (Runtime (spec c))) = Some dp" "ServicePort (Prefill (Runtime (spec c))) = Some pp"
  shows "deployed c ov dp pp st"
proof -
  let ?n = "Name (metadata c)" and ?ns = "Namespace (metadata c)" and ?base = "baseLabels c"
  have eqs: "servicePortForRole c ''decode'' = dp" "servicePortForRole c ''prefill'' = pp"
      "roleReplicas c ''decode'' ov = decodeReplicas c ov"
      "roleReplicas c ''prefill'' None = derefInt32 (Replicas (Prefill (Runtime (spec c)))) 1"
    using ports by (simp_all add: servicePortForRole_def roleReplicas_def decodeReplicas_def derefInt32_def
      roleDecode_def rolePrefill_def Let_def split: option.split)
  have mems:
      "((KService, ?ns, ?n @ ''-decode''), converged asService (mutateRoleService P c ''decode'' dp ?base)) \<in> set fs"
      "((KService, ?ns, ?n @ ''-prefill''), converged asService (mutateRoleService P c ''prefill'' pp ?base)) \<in> set fs"
      "((KService, ?ns, ?n @ ''-router''), converged asService (mutateRouterService P c ?base)) \<in> set fs"
      "((KDeployment, ?ns, ?n @ ''-decode''),
         converged asDeployment (storedRoleDeployment P c ''decode'' (?n @ ''-decode'') ?base ov)) \<in> set fs"
      "((KDeployment, ?ns, ?n @ ''-prefill''),
         converged asDeployment (storedRoleDeployment P c ''prefill'' (?n @ ''-prefill'') ?base None)) \<in> set fs"
      "((KDeployment, ?ns, ?n @ ''-router''),
         converged asDeployment (storedRouterDeployment P c (?n @ ''-shardmap'') (?n @ ''-router'') ?base)) \<in> set fs"
    and rbac: "set (rbacFacts P c (?n @ ''-router'') ?base) \<subseteq> set fs"
    using sub by (simp_all add: childFacts_def Let_def roleDecode_def rolePrefill_def)
  show ?thesis
    unfolding deployed_def Let_def
    by (intro conjI rbac_deployed [OF law(1) h rbac],
        rule object_specI [OF h mems(1)], erule roleService_spec [OF law(1)],
        rule object_specI [OF h mems(2)], erule roleService_spec [OF law(1)],
        rule object_specI [OF h mems(3)], erule routerService_spec [OF law(1)],
        rule object_specI [OF h mems(4)],
        erule roleDeployment_spec [OF law, where c = c and role = "''decode''" and ov = ov, unfolded eqs, simplified append.simps],
        rule object_specI [OF h mems(5)],
        erule roleDeployment_spec [OF law, where c = c and role = "''prefill''" and ov = None, unfolded eqs, simplified append.simps],
        rule object_specI [OF h mems(6)], erule routerDeployment_spec [OF law(1) _ ports])
qed

section \<open>Reconciled means deployed\<close>

lemma valid_numShards_pos: "valid_Spec s \<Longrightarrow> 1 \<le> sint (derefInt32 (NumShards (KVCache s)) 8)"
  using valid_NumShards [of s] by (simp add: derefInt32_def split: option.split)

lemma valid_numShards: "valid_Spec s \<Longrightarrow> 0 \<le> sint (derefInt32 (NumShards (KVCache s)) 8)"
  using valid_numShards_pos [of s] by simp

text \<open>
  The number of decode replicas handed to the deployment: with autoscaling it is the decision for the
  numbers in the stored signals ConfigMap, otherwise there is none.
\<close>

definition replicas_decided :: "LLMInferenceCluster \<Rightarrow> store \<Rightarrow> int32 option \<Rightarrow> bool" where
  "replicas_decided c st ov \<longleftrightarrow>
     (if Enabled (Autoscaling (spec c)) = Some True
      then \<exists>cm. stored asConfigMap (KConfigMap, Namespace (metadata c), Name (metadata c) @ ''-signals'') st = Some cm \<and>
        ov = Some (desiredReplicas (replicaBounds c) (signalsOf cm))
      else ov = None)"

lemma signalsFacts_decided:
  assumes "holds fs st" "set (signalsFacts P c base ov) \<subseteq> set fs" "override_ok c ov"
  shows "replicas_decided c st ov"
proof (cases "Enabled (Autoscaling (spec c)) = Some True")
  case True
  then have "\<exists>x. st (KConfigMap, Namespace (metadata c), Name (metadata c) @ ''-signals'') = Some x \<and>
      (converged asConfigMap (mutateSignalsConfigMap P c base) x \<and> decides c ov x)"
    using assms(2) by (intro holds_fact [OF assms(1)]) (simp add: signalsFacts_def)
  then show ?thesis using True by (auto simp: replicas_decided_def decides_def stored_def)
qed (use assms(3) in \<open>simp add: replicas_decided_def override_ok_def\<close>)

lemma deployed_cong:
  assumes "metadata d = metadata c" "spec d = spec c"
  shows "deployed d ov dp pp st = deployed c ov dp pp st" "replicas_decided d st ov = replicas_decided c st ov"
  unfolding deployed_def worker_spec_def [abs_def] router_spec_def [abs_def] rbac_spec_def decodeReplicas_def
    baseLabels_def replicas_decided_def replicaBounds_def assms by (rule refl)+

lemma reconciled_deployed:
  assumes law: "contract P view crs" and rec: "reconciled view crs P C c0 w"
  shows "\<exists>c ov dp pp. crs (env w) (key_of (metadata c0)) = Some c \<and>
    spec c = applyDefaults (spec c0) \<and> key_of (metadata c) = key_of (metadata c0) \<and>
    ServicePort (Decode (Runtime (spec c))) = Some dp \<and> ServicePort (Prefill (Runtime (spec c))) = Some pp \<and>
    replicas_decided c (view (env w)) ov \<and> deployed c ov dp pp (view (env w))"
proof -
  obtain c ov dp pp where c: "spec c = applyDefaults (spec c0)" "key_of (metadata c) = key_of (metadata c0)"
      "ServicePort (Decode (Runtime (spec c))) = Some dp" "ServicePort (Prefill (Runtime (spec c))) = Some pp"
      "override_ok c ov"
    and sp: "shardsPublished view crs P C c (baseLabels c) dp pp
      (childFacts P c (baseLabels c) ov dp pp @ signalsFacts P c (baseLabels c) ov) w"
    using rec by (auto simp: reconciled_def)
  obtain f shards c' where h: "holds (f # childFacts P c (baseLabels c) ov dp pp @ signalsFacts P c (baseLabels c) ov) (view (env w))"
      and pub: "published (c\<lparr>status := (status c)\<lparr>Shards := shards\<rparr>\<rparr>) dp pp c'" "crs (env w) = C(key_of (metadata c) \<mapsto> c')"
    using sp by (auto simp: shardsPublished_def)
  have "deployed c ov dp pp (view (env w))"
    by (rule childFacts_deployed [OF contractD(1) [OF law] contractD(4) [OF law] h _ c(3,4)]) auto
  moreover have "replicas_decided c (view (env w)) ov" by (rule signalsFacts_decided [OF h _ c(5)]) auto
  moreover have same: "metadata c' = metadata c" "spec c' = spec c" using pub(1) by (simp_all add: published_def Let_def)
  ultimately show ?thesis
    using c pub(2) deployed_cong [OF same] by (intro exI [of _ c']) auto
qed

text \<open>What the published status says is said of the stored resource itself.\<close>

lemma published_self: "published c dp pp c' \<Longrightarrow> published c' dp pp c'"
  by (simp add: published_def Let_def)

lemma reconciled_status:
  assumes "reconciled view crs P C c0 w"
  shows "\<exists>c dp pp. crs (env w) (key_of (metadata c0)) = Some c \<and>
    spec c = applyDefaults (spec c0) \<and> llmInferenceClusterFinalizer \<in> set (Finalizers (metadata c)) \<and>
    ServicePort (Decode (Runtime (spec c))) = Some dp \<and> ServicePort (Prefill (Runtime (spec c))) = Some pp \<and>
    published c dp pp c \<and> key_of (metadata c) = key_of (metadata c0)"
proof -
  obtain c ov dp pp where c: "spec c = applyDefaults (spec c0)" "key_of (metadata c) = key_of (metadata c0)"
      "llmInferenceClusterFinalizer \<in> set (Finalizers (metadata c))"
      "ServicePort (Decode (Runtime (spec c))) = Some dp" "ServicePort (Prefill (Runtime (spec c))) = Some pp"
    and sp: "shardsPublished view crs P C c (baseLabels c) dp pp
      (childFacts P c (baseLabels c) ov dp pp @ signalsFacts P c (baseLabels c) ov) w"
    using assms by (auto simp: reconciled_def)
  obtain shards c' where pub: "published (c\<lparr>status := (status c)\<lparr>Shards := shards\<rparr>\<rparr>) dp pp c'"
      and crs: "crs (env w) = C(key_of (metadata c) \<mapsto> c')"
    using sp by (auto simp: shardsPublished_def)
  have "metadata c' = metadata c" "spec c' = spec c" using pub by (simp_all add: published_def Let_def)
  then show ?thesis using c crs published_self [OF pub] by auto
qed

end
