(* ===== verification/GoFlag.thy ===== *)
theory GoFlag
  imports Prelude
begin

text \<open>
  The part of Go's \<open>flag\<close> package the three programs use: a set of named boolean and valued flags, and
  \<open>flag.Parse\<close> on the command line with the default error handling, which prints a message and exits.
\<close>

text \<open>A flag: how it changes the program's variables. A value that cannot be read is \<open>None\<close>.\<close>

datatype 'o flag = BoolFlag "bool \<Rightarrow> 'o \<Rightarrow> 'o" | ValueFlag "string \<Rightarrow> 'o \<Rightarrow> 'o option"

definition StringFlag :: "(string \<Rightarrow> 'o \<Rightarrow> 'o) \<Rightarrow> 'o flag" where
  "StringFlag f = ValueFlag (\<lambda>v opt. Some (f v opt))"

text \<open>\<open>strconv.ParseBool\<close>.\<close>

definition ParseBool :: "string \<Rightarrow> bool option" where
  "ParseBool s =
     (if s \<in> {''1'', ''t'', ''T'', ''TRUE'', ''true'', ''True''} then Some True
      else if s \<in> {''0'', ''f'', ''F'', ''FALSE'', ''false'', ''False''} then Some False
      else None)"

text \<open>\<open>name=value\<close> split at the first equals sign after the first character.\<close>

definition splitFlag :: "string \<Rightarrow> string \<times> string option" where
  "splitFlag s =
     (let (n, rest) = (takeWhile (\<lambda>c. c \<noteq> CHR ''='') (tl s), dropWhile (\<lambda>c. c \<noteq> CHR ''='') (tl s))
      in (hd s # n, if rest = [] then None else Some (tl rest)))"

text \<open>An argument: the end of the flags, a syntax error, or the text of a flag without its dashes.\<close>

datatype arg_shape = StopHere | StopAfter | BadFlag | FlagText string

definition arg_shape :: "string \<Rightarrow> arg_shape" where
  "arg_shape s =
     (if length s < 2 \<or> hd s \<noteq> CHR ''-'' then StopHere
      else if s = ''--'' then StopAfter
      else let name = (if s ! 1 = CHR ''-'' then drop 2 s else drop 1 s)
           in if hd name = CHR ''-'' \<or> hd name = CHR ''='' then BadFlag else FlagText name)"

text \<open>\<open>flag.Parse\<close>: the exit code of the process, or the variables and the arguments left over.\<close>

fun parseArgs :: "(string \<Rightarrow> 'o flag option) \<Rightarrow> string list \<Rightarrow> 'o \<Rightarrow> int + 'o \<times> string list" where
  "parseArgs fs [] opt = Inr (opt, [])"
| "parseArgs fs (s # args) opt =
     (case arg_shape s of
        StopHere \<Rightarrow> Inr (opt, s # args)
      | StopAfter \<Rightarrow> Inr (opt, args)
      | BadFlag \<Rightarrow> Inl 2
      | FlagText t \<Rightarrow>
          (case splitFlag t of (name, value) \<Rightarrow>
             (case fs name of
                None \<Rightarrow> Inl (if name = ''help'' \<or> name = ''h'' then 0 else 2)
              | Some (BoolFlag f) \<Rightarrow>
                  (case (case value of None \<Rightarrow> Some True | Some v \<Rightarrow> ParseBool v) of
                     None \<Rightarrow> Inl 2
                   | Some b \<Rightarrow> parseArgs fs args (f b opt))
              | Some (ValueFlag f) \<Rightarrow>
                  (case value of
                     Some v \<Rightarrow> (case f v opt of None \<Rightarrow> Inl 2 | Some opt \<Rightarrow> parseArgs fs args opt)
                   | None \<Rightarrow>
                       (case args of
                          [] \<Rightarrow> Inl 2
                        | v # args \<Rightarrow> (case f v opt of None \<Rightarrow> Inl 2 | Some opt \<Rightarrow> parseArgs fs args opt))))))"

text \<open>The usual form: two dashes, a name without an equals sign, then the value as the next argument.\<close>

lemma splitFlag_plain: "s \<noteq> [] \<Longrightarrow> CHR ''='' \<notin> set (tl s) \<Longrightarrow> splitFlag s = (s, None)"
  by (cases s) (auto simp: splitFlag_def Let_def takeWhile_eq_all_conv dropWhile_eq_Nil_conv)

lemma arg_shape_long:
  "n \<noteq> [] \<Longrightarrow> hd n \<noteq> CHR ''-'' \<Longrightarrow> hd n \<noteq> CHR ''='' \<Longrightarrow> arg_shape (''--'' @ n) = FlagText n"
  by (simp add: arg_shape_def)

lemma parseArgs_value:
  assumes "n \<noteq> []" "hd n \<noteq> CHR ''-''" "hd n \<noteq> CHR ''=''" "CHR ''='' \<notin> set (tl n)"
    and "fs n = Some (StringFlag f)"
  shows "parseArgs fs ((''--'' @ n) # v # args) opt = parseArgs fs args (f v opt)"
  using assms by (simp add: arg_shape_long [simplified] splitFlag_plain StringFlag_def)

lemma parseArgs_end: "arg_shape s = StopHere \<Longrightarrow> parseArgs fs (s # args) opt = Inr (opt, s # args)"
  by simp

text \<open>An argument that sets the flag of this name, and a variable that only one flag sets.\<close>

definition setsFlag :: "string \<Rightarrow> string \<Rightarrow> bool" where
  "setsFlag name s = (case arg_shape s of FlagText t \<Rightarrow> fst (splitFlag t) = name | _ \<Rightarrow> False)"

definition onlySetBy :: "(string \<Rightarrow> 'o flag option) \<Rightarrow> string \<Rightarrow> ('o \<Rightarrow> 'b) \<Rightarrow> bool" where
  "onlySetBy fs name get \<longleftrightarrow> (\<forall>n. n \<noteq> name \<longrightarrow>
     (\<forall>f b x. fs n = Some (BoolFlag f) \<longrightarrow> get (f b x) = get x) \<and>
     (\<forall>f v x y. fs n = Some (ValueFlag f) \<longrightarrow> f v x = Some y \<longrightarrow> get y = get x))"

lemma onlySetByD:
  assumes "onlySetBy fs name get" "n \<noteq> name"
  shows "fs n = Some (BoolFlag f) \<Longrightarrow> get (f b x) = get x" "fs n = Some (ValueFlag g) \<Longrightarrow> g v x = Some y \<Longrightarrow> get y = get x"
  using assms unfolding onlySetBy_def by blast+

text \<open>A variable keeps its default on every command line that does not set its flag.\<close>

lemma parseArgs_default:
  "onlySetBy fs name get \<Longrightarrow> parseArgs fs args opt = Inr (opt', rest) \<Longrightarrow> \<not> list_ex (setsFlag name) args \<Longrightarrow>
    get opt' = get opt"
proof (induction fs args opt rule: parseArgs.induct)
  case (2 fs s args opt)
  show ?case
  proof (cases "arg_shape s")
    case (FlagText t)
    obtain n v0 where nv: "splitFlag t = (n, v0)" by fastforce
    have rest: "\<not> setsFlag name s" "\<not> list_ex (setsFlag name) args" using 2(6) by simp_all
    then have n: "n \<noteq> name" using FlagText nv by (simp add: setsFlag_def)
    note keep = onlySetByD [OF 2(4) n]
    show ?thesis
    proof (cases "fs n")
      case (Some fl)
      show ?thesis
      proof (cases fl)
        case (BoolFlag f)
        then show ?thesis
          using 2(1) [OF FlagText nv [symmetric] Some BoolFlag] 2(4,5) rest keep(1) Some FlagText nv
          by (fastforce split: option.splits)
      next
        case (ValueFlag g)
        show ?thesis
        proof (cases v0)
          case None
          then obtain v args' where "args = v # args'" using 2(5) FlagText nv Some ValueFlag by (cases args) auto
          then show ?thesis
            using 2(2) [OF FlagText nv [symmetric] Some ValueFlag None] 2(4,5) rest keep(2) Some ValueFlag FlagText nv None
            by (fastforce split: option.splits)
        next
          case (Some v)
          then show ?thesis
            using 2(3) [OF FlagText nv [symmetric] \<open>fs n = Some fl\<close> ValueFlag Some] 2(4,5) rest keep(2) \<open>fs n = Some fl\<close>
              ValueFlag FlagText nv by (fastforce split: option.splits)
        qed
      qed
    qed (use 2(5) FlagText nv in simp)
  qed (use 2(5) in simp_all)
qed simp

end
