(* ===== verification/GoHttp.thy ===== *)
theory GoHttp
  imports Prelude
begin

text \<open>
  The part of Go's \<open>net/http\<close> that the router and the worker use: requests and answers with their
  headers, \<open>http.Error\<close>, the checks that \<open>Client.Do\<close> makes before it sends a request, and the choice of
  a handler by \<open>ServeMux\<close>. Paths are taken without percent escapes.
\<close>

section \<open>Requests and answers\<close>

type_synonym headers = "string \<rightharpoonup> string"

definition header_get :: "headers \<Rightarrow> string \<Rightarrow> string" where
  "header_get h k = (case h k of None \<Rightarrow> [] | Some v \<Rightarrow> v)"

record httpRequest =
  rq_URL :: string
  rq_Headers :: headers
  rq_Body :: string

record httpResponse =
  rs_Status :: int
  rs_Headers :: headers
  rs_Body :: string

text \<open>\<open>http.Error\<close>: a plain text answer.\<close>

definition httpError :: "string \<Rightarrow> int \<Rightarrow> httpResponse" where
  "httpError msg code = \<lparr>rs_Status = code,
     rs_Headers = [''Content-Type'' \<mapsto> ''text/plain; charset=utf-8'', ''X-Content-Type-Options'' \<mapsto> ''nosniff''],
     rs_Body = msg @ [CHR 0x0A]\<rparr>"

text \<open>\<open>w.WriteHeader(http.StatusOK)\<close> and nothing else.\<close>

definition emptyOK :: httpResponse where
  "emptyOK = \<lparr>rs_Status = 200, rs_Headers = Map.empty, rs_Body = []\<rparr>"

text \<open>
  The status a client sees when a handler writes \<open>code\<close> and then a body: the informational statuses are
  sent ahead, and the answer itself has status 200.
\<close>

definition finalStatus :: "int \<Rightarrow> int" where
  "finalStatus code = (if 100 \<le> code \<and> code \<le> 199 \<and> code \<noteq> 101 then 200 else code)"

section \<open>Sending a request\<close>

text \<open>
  A header value may hold no control character but the tab, else \<open>Client.Do\<close> refuses the request; blanks
  around a value are not sent.
\<close>

definition header_byte_ok :: "char \<Rightarrow> bool" where
  "header_byte_ok c \<longleftrightarrow> c = CHR 0x09 \<or> (CHR 0x20 \<le> c \<and> c \<noteq> CHR 0x7F)"

definition header_value_ok :: "string \<Rightarrow> bool" where
  "header_value_ok v \<longleftrightarrow> list_all header_byte_ok v"

definition header_blank :: "char \<Rightarrow> bool" where
  "header_blank c \<longleftrightarrow> c \<in> {CHR 0x20, CHR 0x09, CHR 0x0A, CHR 0x0D}"

definition header_trim :: "string \<Rightarrow> string" where
  "header_trim v = rev (dropWhile header_blank (rev (dropWhile header_blank v)))"

text \<open>\<open>Client.Do\<close> for the header names \<open>names\<close> the program sets, over the network's answers.\<close>

definition httpDo ::
  "string list \<Rightarrow> (httpRequest \<Rightarrow> error + httpResponse) \<Rightarrow> httpRequest \<Rightarrow> error + httpResponse" where
  "httpDo names network req =
     (if list_all (\<lambda>n. header_value_ok (header_get (rq_Headers req) n)) names
      then network (req\<lparr>rq_Headers := map_option header_trim \<circ> rq_Headers req\<rparr>)
      else Inl (OtherError ''net/http: invalid header field value''))"

lemma header_trim_id:
  assumes "v = [] \<or> \<not> header_blank (hd v) \<and> \<not> header_blank (last v)"
  shows "header_trim v = v"
proof (cases v)
  case (Cons c cs)
  then have "v \<noteq> []" by simp
  moreover from this have "\<not> header_blank (hd v)" "\<not> header_blank (hd (rev v))" using assms by (simp_all only: hd_rev) simp_all
  ultimately have "dropWhile header_blank v = v" "dropWhile header_blank (rev v) = rev v"
    by (simp_all only: dropWhile_eq_self_iff rev_is_Nil_conv) simp_all
  then show ?thesis by (simp add: header_trim_def)
qed (simp add: header_trim_def)

section \<open>Choosing a handler\<close>

fun splitSlash :: "string \<Rightarrow> string list" where
  "splitSlash [] = [[]]"
| "splitSlash (c # cs) =
     (if c = CHR ''/'' then [] # splitSlash cs
      else (c # hd (splitSlash cs)) # tl (splitSlash cs))"

text \<open>The segments of a path without empty ones and dots, the last segment first.\<close>

fun cleanSegments :: "string list \<Rightarrow> string list \<Rightarrow> string list" where
  "cleanSegments acc [] = acc"
| "cleanSegments acc (s # ss) =
     cleanSegments (if s = [] \<or> s = ''.'' then acc else if s = ''..'' then tl acc else s # acc) ss"

definition joinSlash :: "string list \<Rightarrow> string" where
  "joinSlash ss = concat (map (\<lambda>s. ''/'' @ s) ss)"

definition cleanPath :: "string \<Rightarrow> string" where
  "cleanPath p =
     (let p = (if p = [] \<or> hd p \<noteq> CHR ''/'' then ''/'' @ p else p);
          ss = rev (cleanSegments [] (splitSlash p))
      in if ss = [] then ''/''
         else if last p = CHR ''/'' then joinSlash ss @ ''/''
         else joinSlash ss)"

text \<open>A path that is not clean is redirected; patterns without a final slash match only themselves.\<close>

datatype 'h dispatch = Handler 'h | RedirectTo string | PageNotFound

definition serveMux :: "(string \<times> 'h) list \<Rightarrow> string \<Rightarrow> 'h dispatch" where
  "serveMux routes path =
     (if cleanPath path \<noteq> path then RedirectTo (cleanPath path)
      else case map_of routes path of None \<Rightarrow> PageNotFound | Some h \<Rightarrow> Handler h)"

definition notFound :: httpResponse where
  "notFound = httpError ''404 page not found'' 404"

section \<open>Clean paths\<close>

definition plain_segment :: "string \<Rightarrow> bool" where
  "plain_segment s \<longleftrightarrow> CHR ''/'' \<notin> set s \<and> s \<noteq> [] \<and> s \<noteq> ''.'' \<and> s \<noteq> ''..''"

lemma splitSlash_nonempty [simp]: "splitSlash p \<noteq> []"
  by (cases p) simp_all

lemma splitSlash_no_slash: "s \<in> set (splitSlash p) \<Longrightarrow> CHR ''/'' \<notin> set s"
proof (induction p arbitrary: s)
  case (Cons c cs)
  obtain t ts where "splitSlash cs = t # ts" by (cases "splitSlash cs") simp_all
  then show ?case using Cons by (auto split: if_splits)
qed simp

lemma splitSlash_segment: "CHR ''/'' \<notin> set s \<Longrightarrow> splitSlash (s @ p) = (s @ hd (splitSlash p)) # tl (splitSlash p)"
  by (induction s) auto

lemma splitSlash_join:
  assumes "list_all plain_segment ss"
  shows "splitSlash (joinSlash ss @ rest) = (if ss = [] then splitSlash rest
    else [] # butlast ss @ (last ss @ hd (splitSlash rest)) # tl (splitSlash rest))"
  using assms
proof (induction ss)
  case (Cons s ss)
  then show ?case
    by (cases ss) (simp_all add: joinSlash_def plain_segment_def splitSlash_segment)
qed (simp add: joinSlash_def)

lemma cleanSegments_plain: "list_all plain_segment ss \<Longrightarrow> cleanSegments acc ss = rev ss @ acc"
  by (induction ss arbitrary: acc) (simp_all add: plain_segment_def)

lemma cleanSegments_append: "cleanSegments acc (ss @ ts) = cleanSegments (cleanSegments acc ss) ts"
  by (induction ss arbitrary: acc) simp_all

lemma cleanSegments_are_plain:
  "list_all plain_segment acc \<Longrightarrow> (\<And>s. s \<in> set ss \<Longrightarrow> CHR ''/'' \<notin> set s) \<Longrightarrow>
    list_all plain_segment (cleanSegments acc ss)"
proof (induction ss arbitrary: acc)
  case (Cons s ss)
  have "list_all plain_segment (tl acc)" using Cons.prems(1) by (cases acc) simp_all
  moreover have "s = [] \<or> s = ''.'' \<or> s = ''..'' \<or> plain_segment s" using Cons.prems(2) by (auto simp: plain_segment_def)
  ultimately show ?case using Cons by auto
qed simp

text \<open>Cleaning a path a second time changes nothing, so a redirect is never answered by another one.\<close>

lemma cleanPath_join:
  assumes "list_all plain_segment ss" "ss \<noteq> []" "t = [] \<or> t = ''/''"
  shows "cleanPath (joinSlash ss @ t) = joinSlash ss @ t"
proof -
  have start: "joinSlash ss @ t \<noteq> []" "hd (joinSlash ss @ t) = CHR ''/''"
    using assms(2) by (cases ss; simp add: joinSlash_def)+
  have ends: "last (joinSlash ss) \<noteq> CHR ''/''"
  proof -
    obtain rs s where ss: "ss = rs @ [s]" using assms(2) by (metis append_butlast_last_id)
    then have s: "s \<noteq> []" "CHR ''/'' \<notin> set s" using assms(1) by (simp_all add: plain_segment_def)
    then have "last s \<noteq> CHR ''/''" using last_in_set by metis
    then show ?thesis using ss s(1) by (simp add: joinSlash_def)
  qed
  have "butlast ss @ [last ss, []] = ss @ [[]]"
    by (subst (3) append_butlast_last_id [OF assms(2), symmetric]) simp
  then have "splitSlash (joinSlash ss @ t) = [] # ss \<or> splitSlash (joinSlash ss @ t) = [] # ss @ [[]]"
    using assms by (auto simp: splitSlash_join)
  then have "cleanSegments [] (splitSlash (joinSlash ss @ t)) = rev ss"
    using cleanSegments_plain [OF assms(1), of "[]"] by (auto simp: cleanSegments_append)
  then show ?thesis
    using assms(2,3) start ends by (auto simp: cleanPath_def)
qed

lemma cleanPath_idem: "cleanPath (cleanPath p) = cleanPath p"
proof -
  define q where "q = (if p = [] \<or> hd p \<noteq> CHR ''/'' then ''/'' @ p else p)"
  define ss where "ss = rev (cleanSegments [] (splitSlash q))"
  have eq: "cleanPath p = (if ss = [] then ''/'' else if last q = CHR ''/'' then joinSlash ss @ ''/'' else joinSlash ss)"
    by (simp add: cleanPath_def q_def ss_def Let_def)
  have plain: "list_all plain_segment ss"
    unfolding ss_def list_all_rev by (rule cleanSegments_are_plain) (simp_all add: splitSlash_no_slash)
  show ?thesis
  proof (cases "ss = []")
    case True
    moreover have "cleanPath ''/'' = ''/''" by code_simp
    ultimately show ?thesis by (simp add: eq)
  next
    case False
    show ?thesis
      using cleanPath_join [OF plain False, of "[]"] cleanPath_join [OF plain False, of "''/''"] False
      by (simp add: eq)
  qed
qed

end
