(* ===== verification/Router.thy ===== *)
theory Router
  imports Routing Platform GoFlag GoHttp
begin

text \<open>
  \<open>cmd/router\<close>: option handling, the poll loop that keeps the current shard map, and the chat handler
  that picks a shard for a conversation and forwards the request. Metrics are counters of the state.
  The request body, the random bytes, the verdict on the upstream URL and the upstream's answer come
  from outside and are arguments.
\<close>

section \<open>Options\<close>

record options =
  listenAddr :: string
  metricsAddr :: string
  shardMapConfigMap :: string
  hashKey :: string
  opt_namespace :: string
  decodeServiceDNS :: string
  kubeconfig :: string
  pollInterval :: int

text \<open>The flag defaults, from the environment variables \<open>NAMESPACE\<close> and \<open>DECODE_SERVICE_DNS\<close>.\<close>

definition flagDefaults :: "string \<Rightarrow> string \<Rightarrow> options" where
  "flagDefaults envNamespace envDNS =
     \<lparr>listenAddr = '':8080'', metricsAddr = '':9090'', shardMapConfigMap = [], hashKey = ''conversationId'',
      opt_namespace = envNamespace, decodeServiceDNS = envDNS, kubeconfig = [],
      pollInterval = 2000000000\<rparr>"

text \<open>The flags; \<open>parseDuration\<close> reads a duration in nanoseconds.\<close>

definition routerFlags :: "(string \<Rightarrow> int option) \<Rightarrow> string \<Rightarrow> options flag option" where
  "routerFlags parseDuration name =
     (if name = ''listen'' then Some (StringFlag (\<lambda>v x. x\<lparr>listenAddr := v\<rparr>))
      else if name = ''metrics-listen'' then Some (StringFlag (\<lambda>v x. x\<lparr>metricsAddr := v\<rparr>))
      else if name = ''shardmap-configmap'' then Some (StringFlag (\<lambda>v x. x\<lparr>shardMapConfigMap := v\<rparr>))
      else if name = ''hash-key'' then Some (StringFlag (\<lambda>v x. x\<lparr>hashKey := v\<rparr>))
      else if name = ''namespace'' then Some (StringFlag (\<lambda>v x. x\<lparr>opt_namespace := v\<rparr>))
      else if name = ''decode-service-dns'' then Some (StringFlag (\<lambda>v x. x\<lparr>decodeServiceDNS := v\<rparr>))
      else if name = ''kubeconfig'' then Some (StringFlag (\<lambda>v x. x\<lparr>kubeconfig := v\<rparr>))
      else if name = ''poll-interval'' then
        Some (ValueFlag (\<lambda>v x. map_option (\<lambda>d. x\<lparr>pollInterval := d\<rparr>) (parseDuration v)))
      else None)"

text \<open>After \<open>flag.Parse\<close>: exit code 2 without a ConfigMap name, defaults for what is still empty.\<close>

definition checkOptions :: "options \<Rightarrow> int + options" where
  "checkOptions opt =
     (if shardMapConfigMap opt = [] then Inl 2
      else let opt = (if opt_namespace opt = [] then opt\<lparr>opt_namespace := ''default''\<rparr> else opt);
               opt = (if decodeServiceDNS opt = [] then opt\<lparr>decodeServiceDNS := ''localhost:8000''\<rparr> else opt)
           in Inr opt)"

text \<open>
  From the command line and the environment to the options the program runs with, or the code it exits
  with; \<open>kubeConfig\<close> and \<open>client.New\<close> come next and exit with 1 where they fail.
\<close>

definition routerOptions ::
  "(string \<Rightarrow> int option) \<Rightarrow> (string \<Rightarrow> string) \<Rightarrow> string list \<Rightarrow> int + options" where
  "routerOptions parseDuration getenv args =
     (case parseArgs (routerFlags parseDuration) args
             (flagDefaults (getenv ''NAMESPACE'') (getenv ''DECODE_SERVICE_DNS'')) of
        Inl code \<Rightarrow> Inl code
      | Inr (opt, rest) \<Rightarrow> checkOptions opt)"

text \<open>\<open>kubeConfig\<close>: the given kubeconfig, or the configuration inside the cluster.\<close>

definition kubeConfig :: "(string \<Rightarrow> error + 'k) \<Rightarrow> (error + 'k) \<Rightarrow> string \<Rightarrow> error + 'k" where
  "kubeConfig fromFile inCluster kc = (if kc \<noteq> [] then fromFile kc else inCluster)"

definition startRouter ::
  "(string \<Rightarrow> int option) \<Rightarrow> (string \<Rightarrow> string) \<Rightarrow> (string \<Rightarrow> error + 'k) \<Rightarrow> (error + 'k) \<Rightarrow> ('k \<Rightarrow> error + 'c) \<Rightarrow>
     string list \<Rightarrow> int + options \<times> 'c" where
  "startRouter parseDuration getenv fromFile inCluster newClient args =
     (case routerOptions parseDuration getenv args of
        Inl code \<Rightarrow> Inl code
      | Inr opt \<Rightarrow>
          (case kubeConfig fromFile inCluster (kubeconfig opt) of
             Inl e \<Rightarrow> Inl 1
           | Inr cfg \<Rightarrow> (case newClient cfg of Inl e \<Rightarrow> Inl 1 | Inr c \<Rightarrow> Inr (opt, c))))"

section \<open>State\<close>

record routerState =
  currentShardMap :: "ShardMap option"
  shardMapErrors :: nat
  routeLatencyCount :: nat
  routeTotal :: "string \<Rightarrow> nat"
  chosenShard :: "string \<Rightarrow> nat"

definition initialState :: routerState where
  "initialState = \<lparr>currentShardMap = None, shardMapErrors = 0, routeLatencyCount = 0,
     routeTotal = (\<lambda>_. 0), chosenShard = (\<lambda>_. 0)\<rparr>"

definition countRoute :: "string \<Rightarrow> routerState \<Rightarrow> routerState" where
  "countRoute l s = s\<lparr>routeTotal := (routeTotal s)(l := routeTotal s l + 1)\<rparr>"

definition countShard :: "string \<Rightarrow> routerState \<Rightarrow> routerState" where
  "countShard l s = s\<lparr>chosenShard := (chosenShard s)(l := chosenShard s l + 1)\<rparr>"

section \<open>The poll loop\<close>

text \<open>One tick of \<open>pollShardMap\<close> with the API server's answer.\<close>

definition pollTick :: "error + ConfigMap \<Rightarrow> routerState \<Rightarrow> routerState" where
  "pollTick answer s =
     (case answer of
        Inl e \<Rightarrow> s\<lparr>shardMapErrors := shardMapErrors s + 1\<rparr>
      | Inr cm \<Rightarrow>
          (case ParseShardMapJSON (data_get (cm_Data cm) ''shardmap.json'') of
             Inl e \<Rightarrow> s\<lparr>shardMapErrors := shardMapErrors s + 1\<rparr>
           | Inr sm \<Rightarrow> s\<lparr>currentShardMap := Some sm\<rparr>))"

text \<open>
  The loop: one tick after the other, for the answers the API server gives; \<open>time.NewTicker\<close> panics
  for an interval that is not positive.
\<close>

definition pollShardMap :: "int \<Rightarrow> (error + ConfigMap) list \<Rightarrow> routerState \<Rightarrow> routerState go" where
  "pollShardMap interval answers s = (if interval \<le> 0 then Panic else Ok (fold pollTick answers s))"

section \<open>Choosing a shard\<close>

fun maxShardLoop :: "ShardAssignment list \<Rightarrow> int32 \<Rightarrow> int32" where
  "maxShardLoop [] maxShardID = maxShardID"
| "maxShardLoop (s # ss) maxShardID =
     maxShardLoop ss (if maxShardID <s sa_ShardID s then sa_ShardID s else maxShardID)"

definition pickShardForConversation :: "ShardMap \<Rightarrow> string \<Rightarrow> int32" where
  "pickShardForConversation sm conversationID =
     (let h = fnv32a conversationID;
          maxShardID = maxShardLoop (sm_Shards sm) 0
      in if maxShardID \<le>s 0 then 0 else h mod (maxShardID + 1))"

definition chooseShard :: "ShardMap option \<Rightarrow> string \<Rightarrow> int32" where
  "chooseShard m convID =
     (case m of
        Some sm \<Rightarrow> if 0 < length (sm_Shards sm) then pickShardForConversation sm convID else 0
      | None \<Rightarrow> 0)"

section \<open>Conversations\<close>

definition chat_field :: "string \<Rightarrow> json \<Rightarrow> string \<Rightarrow> string option" where
  "chat_field k v old = (if key_matches ''conversationId'' k then decode_string v old else Some old)"

definition extractConversationID :: "string \<Rightarrow> string" where
  "extractConversationID body =
     (case Option.bind (json_parse body) (\<lambda>j. decode_struct chat_field j []) of
        None \<Rightarrow> []
      | Some c \<Rightarrow> c)"

definition hexEncode :: "char list \<Rightarrow> string" where
  "hexEncode bs = concat (map (\<lambda>b. [hex_digit (byte b div 16), hex_digit (byte b mod 16)]) bs)"

text \<open>Sixteen random bytes in hexadecimal.\<close>

definition newConversationID :: "char list \<Rightarrow> string" where
  "newConversationID rnd = hexEncode (take 16 (rnd @ replicate 16 (CHR 0x00)))"

definition conversationFor :: "string \<Rightarrow> char list \<Rightarrow> string" where
  "conversationFor body rnd =
     (let convID = extractConversationID body in if convID = [] then newConversationID rnd else convID)"

section \<open>The chat handler\<close>

definition upstreamRequest :: "options \<Rightarrow> string \<Rightarrow> string \<Rightarrow> int32 \<Rightarrow> string \<Rightarrow> httpRequest" where
  "upstreamRequest opt contentType convID shardID body =
     \<lparr>rq_URL = ''http://'' @ decodeServiceDNS opt @ ''/v1/chat/completions'',
      rq_Headers = [''Content-Type'' \<mapsto> contentType, ''X-Conversation-Id'' \<mapsto> convID,
                    ''X-KV-Shard'' \<mapsto> Itoa (sint shardID)],
      rq_Body = body\<rparr>"

text \<open>
  The handler, in two parts, since other requests and poll ticks run while it waits for the upstream.
  Up to the call: read the body, find or make the conversation, load the shard map once, choose the
  shard, build the request (\<open>urlOK\<close> is \<open>http.NewRequestWithContext\<close>'s verdict on the URL). Every way
  out observes the latency once (the deferred call).
\<close>

record pendingChat =
  pd_Conversation :: string
  pd_Request :: httpRequest

definition observeLatency :: "routerState \<Rightarrow> routerState" where
  "observeLatency s = s\<lparr>routeLatencyCount := routeLatencyCount s + 1\<rparr>"

definition startChat ::
  "options \<Rightarrow> (string \<Rightarrow> bool) \<Rightarrow> error + string \<Rightarrow> string \<Rightarrow> char list \<Rightarrow> routerState \<Rightarrow>
     (httpResponse + pendingChat) \<times> routerState" where
  "startChat opt urlOK bodyRead contentType rnd s =
     (case bodyRead of
        Inl e \<Rightarrow> (Inl (httpError ''bad request'' 400), observeLatency (countRoute ''400'' s))
      | Inr body \<Rightarrow>
          (let convID = conversationFor body rnd;
               shardID = chooseShard (currentShardMap s) convID;
               s = countShard (Itoa (sint shardID)) s;
               req = upstreamRequest opt contentType convID shardID body
           in if \<not> urlOK (rq_URL req)
              then (Inl (httpError ''upstream request build failed'' 500), observeLatency (countRoute ''500'' s))
              else (Inr \<lparr>pd_Conversation = convID, pd_Request = req\<rparr>, s)))"

text \<open>
  After the call: report an unreachable upstream or copy its answer. \<open>WriteHeader\<close> panics for a status
  outside 100 to 999, and the server then drops the connection.
\<close>

definition finishChat :: "pendingChat \<Rightarrow> error + httpResponse \<Rightarrow> (routerState, httpResponse) comp" where
  "finishChat p answer s =
     (case answer of
        Inl e \<Rightarrow> (Ok (httpError ''upstream unavailable'' 502), observeLatency (countRoute ''502'' s))
      | Inr resp \<Rightarrow>
          if rs_Status resp < 100 \<or> 999 < rs_Status resp then (Panic, observeLatency s)
          else (Ok \<lparr>rs_Status = finalStatus (rs_Status resp),
                   rs_Headers = [''Content-Type'' \<mapsto> header_get (rs_Headers resp) ''Content-Type'',
                                 ''X-Conversation-Id'' \<mapsto> pd_Conversation p],
                   rs_Body = rs_Body resp\<rparr>,
                observeLatency (countRoute (Itoa (rs_Status resp)) s)))"

text \<open>\<open>httpClient.Do\<close> with the three headers of the request, over the network's answers.\<close>

definition callUpstream :: "(httpRequest \<Rightarrow> error + httpResponse) \<Rightarrow> httpRequest \<Rightarrow> error + httpResponse" where
  "callUpstream = httpDo [''Content-Type'', ''X-Conversation-Id'', ''X-KV-Shard'']"

definition handleChat ::
  "options \<Rightarrow> (string \<Rightarrow> bool) \<Rightarrow> (httpRequest \<Rightarrow> error + httpResponse) \<Rightarrow>
     error + string \<Rightarrow> string \<Rightarrow> char list \<Rightarrow> (routerState, httpResponse) comp" where
  "handleChat opt urlOK network bodyRead contentType rnd s =
     (case startChat opt urlOK bodyRead contentType rnd s of
        (Inl resp, s) \<Rightarrow> (Ok resp, s)
      | (Inr p, s) \<Rightarrow> finishChat p (callUpstream network (pd_Request p)) s)"

section \<open>The pages of the router\<close>

datatype routerPage = RouterHealthz | RouterChat

definition routerRoutes :: "(string \<times> routerPage) list" where
  "routerRoutes = [(''/healthz'', RouterHealthz), (''/v1/chat/completions'', RouterChat)]"

text \<open>A request to the router's port: the address of a redirect, or an answer.\<close>

definition routerServe ::
  "options \<Rightarrow> (string \<Rightarrow> bool) \<Rightarrow> (httpRequest \<Rightarrow> error + httpResponse) \<Rightarrow>
     string \<Rightarrow> error + string \<Rightarrow> string \<Rightarrow> char list \<Rightarrow> (routerState, string + httpResponse) comp" where
  "routerServe opt urlOK network path bodyRead contentType rnd =
     (case serveMux routerRoutes path of
        Handler RouterHealthz \<Rightarrow> ret (Inr emptyOK)
      | Handler RouterChat \<Rightarrow> andThen (handleChat opt urlOK network bodyRead contentType rnd) (\<lambda>resp. ret (Inr resp))
      | RedirectTo p \<Rightarrow> ret (Inl p)
      | PageNotFound \<Rightarrow> ret (Inr notFound))"

text \<open>The other port serves the metrics, which the Prometheus library renders from the counters.\<close>

definition routerMetricsServe :: "(routerState \<Rightarrow> httpResponse) \<Rightarrow> string \<Rightarrow> (routerState, string + httpResponse) comp" where
  "routerMetricsServe render path s =
     (case serveMux [(''/metrics'', ())] path of
        Handler _ \<Rightarrow> (Ok (Inr (render s)), s)
      | RedirectTo p \<Rightarrow> (Ok (Inl p), s)
      | PageNotFound \<Rightarrow> (Ok (Inr notFound), s))"

section \<open>The range of the chosen shard\<close>

lemma maxShardLoop_ge: "sint m \<le> sint (maxShardLoop ss m)"
proof (induction ss arbitrary: m)
  case (Cons s ss)
  from Cons [of "if m <s sa_ShardID s then sa_ShardID s else m"] show ?case
    by (auto simp: int32_less split: if_splits)
qed simp

lemma maxShardLoop_in: "maxShardLoop ss m = m \<or> maxShardLoop ss m \<in> sa_ShardID ` set ss"
proof (induction ss arbitrary: m)
  case (Cons s ss)
  from Cons [of "if m <s sa_ShardID s then sa_ShardID s else m"] show ?case
    by (cases "m <s sa_ShardID s") auto
qed simp

lemma maxShardLoop_upper: "s \<in> set ss \<Longrightarrow> sint (sa_ShardID s) \<le> sint (maxShardLoop ss m)"
proof (induction ss arbitrary: m)
  case (Cons a ss)
  show ?case
  proof (cases "s = a")
    case True
    with maxShardLoop_ge [of "if m <s sa_ShardID a then sa_ShardID a else m" ss] show ?thesis
      by (auto simp: int32_less split: if_splits)
  qed (use Cons in auto)
qed simp

text \<open>
  The shard lies between zero and the largest shard number, for every map, also where the largest
  number is the largest 32-bit integer and \<open>maxShardID+1\<close> wraps around.
\<close>

lemma sint_uint32_small: "uint (x :: int32) < 2147483648 \<Longrightarrow> sint x = uint x"
  by (simp add: sint_uint signed_take_bit_int_eq_self order_trans [of _ 0])

lemma uint_nonneg_sint: "0 \<le> sint (x :: int32) \<Longrightarrow> uint x = sint x"
  by (simp add: uint_sint take_bit_int_eq_self sint32_bounds(2) [of x, THEN order_le_less_trans])

lemma pickShard_range:
  "0 \<le> sint (pickShardForConversation sm c) \<and>
   sint (pickShardForConversation sm c) \<le> sint (maxShardLoop (sm_Shards sm) 0)"
proof (cases "maxShardLoop (sm_Shards sm) 0 \<le>s 0")
  case True
  then show ?thesis using maxShardLoop_ge [of 0 "sm_Shards sm"]
    by (simp add: pickShardForConversation_def Let_def)
next
  case False
  define m where "m = maxShardLoop (sm_Shards sm) 0"
  have pos: "0 < sint m" using False by (simp add: m_def int32_simps)
  then have um: "uint m = sint m" by (simp add: uint_nonneg_sint)
  have m1: "uint (m + 1) = uint m + 1"
    using um pos sint32_bounds(2) [of m] by (simp add: uint_word_ariths mod_pos_pos_trivial)
  define p where "p = fnv32a c mod (m + 1)"
  have "uint p = uint (fnv32a c) mod (uint m + 1)" by (simp add: p_def uint_mod m1)
  then have le: "uint p \<le> uint m"
    using pos um pos_mod_bound [of "uint m + 1" "uint (fnv32a c)"] by simp
  then have "sint p = uint p"
    using um sint32_bounds(2) [of m] by (intro sint_uint32_small) simp
  then show ?thesis
    using le um False by (simp add: pickShardForConversation_def Let_def p_def m_def)
qed

section \<open>Requests and polls interleaved\<close>

text \<open>
  The running router: the shared state, the requests that wait for the upstream, how many requests
  have come in, and the shard maps that have been current. A step is a poll tick, a request coming
  in, or the upstream's answer to any of the waiting requests.
\<close>

record routerSys =
  rt :: routerState
  inflight :: "pendingChat list"
  received :: nat
  seenMaps :: "ShardMap option list"

definition initialSys :: routerSys where
  "initialSys = \<lparr>rt = initialState, inflight = [], received = 0, seenMaps = [None]\<rparr>"

inductive router_step :: "options \<Rightarrow> (string \<Rightarrow> bool) \<Rightarrow> routerSys \<Rightarrow> routerSys \<Rightarrow> bool"
  for opt :: options and urlOK :: "string \<Rightarrow> bool" where
  Poll: "s' = pollTick answer (rt y) \<Longrightarrow>
    router_step opt urlOK y (y\<lparr>rt := s', seenMaps := seenMaps y @ [currentShardMap s']\<rparr>)"
| Refuse: "startChat opt urlOK body ct rnd (rt y) = (Inl resp, s') \<Longrightarrow>
    router_step opt urlOK y (y\<lparr>rt := s', received := received y + 1\<rparr>)"
| Send: "startChat opt urlOK body ct rnd (rt y) = (Inr p, s') \<Longrightarrow>
    router_step opt urlOK y (y\<lparr>rt := s', received := received y + 1, inflight := p # inflight y\<rparr>)"
| Answer: "inflight y = ps @ p # qs \<Longrightarrow> finishChat p answer (rt y) = (r, s') \<Longrightarrow>
    router_step opt urlOK y (y\<lparr>rt := s', inflight := ps @ qs\<rparr>)"

inductive_cases router_stepE: "router_step opt urlOK y y'"

abbreviation router_reachable :: "options \<Rightarrow> (string \<Rightarrow> bool) \<Rightarrow> routerSys \<Rightarrow> bool" where
  "router_reachable opt urlOK y \<equiv> (router_step opt urlOK)\<^sup>*\<^sup>* initialSys y"

text \<open>A request on its way carries the shard of one of the maps that have been current.\<close>

definition stamped :: "ShardMap option list \<Rightarrow> pendingChat \<Rightarrow> bool" where
  "stamped ms p \<longleftrightarrow>
     rq_Headers (pd_Request p) ''X-Conversation-Id'' = Some (pd_Conversation p) \<and>
     pd_Conversation p \<noteq> [] \<and>
     (\<exists>m \<in> set ms. rq_Headers (pd_Request p) ''X-KV-Shard'' =
        Some (Itoa (sint (chooseShard m (pd_Conversation p)))))"

definition router_inv :: "routerSys \<Rightarrow> bool" where
  "router_inv y \<longleftrightarrow>
     routeLatencyCount (rt y) + length (inflight y) = received y \<and>
     currentShardMap (rt y) \<in> set (seenMaps y) \<and>
     list_all (stamped (seenMaps y)) (inflight y)"

lemma counter_simps [simp]:
  "currentShardMap (countRoute l s) = currentShardMap s" "currentShardMap (countShard l s) = currentShardMap s"
  "currentShardMap (observeLatency s) = currentShardMap s"
  "routeLatencyCount (countRoute l s) = routeLatencyCount s" "routeLatencyCount (countShard l s) = routeLatencyCount s"
  "routeLatencyCount (observeLatency s) = routeLatencyCount s + 1"
  "routeLatencyCount (pollTick a s) = routeLatencyCount s"
  by (simp_all add: countRoute_def countShard_def observeLatency_def pollTick_def split: sum.split)

lemma length_hexEncode: "length (hexEncode bs) = 2 * length bs"
  by (induction bs) (simp_all add: hexEncode_def)

lemma hexEncode_digits: "set (hexEncode bs) \<subseteq> set ''0123456789abcdef''"
proof -
  define D where "D = set ''0123456789abcdef''"
  have "list_all (\<lambda>n. hex_digit n \<in> set ''0123456789abcdef'') [0..<16]" by code_simp
  then have digit: "hex_digit n \<in> D" if "n < 16" for n
    using that unfolding D_def [symmetric] by (simp add: list_all_iff)
  have "byte b div 16 < 16" for b
    using nat_of_char_less_256 [of b] by (simp add: byte_def div_less_iff_less_mult)
  then have "set (hexEncode bs) \<subseteq> D"
    by (induction bs) (simp_all add: hexEncode_def digit)
  then show ?thesis by (simp only: D_def)
qed

lemma length_newConversationID: "length (newConversationID rnd) = 32"
  by (simp add: newConversationID_def length_hexEncode)

lemma conversationFor_nonempty: "conversationFor body rnd \<noteq> []"
  using length_newConversationID [of rnd] by (auto simp: conversationFor_def Let_def)

lemma stamped_mono: "stamped ms p \<Longrightarrow> set ms \<subseteq> set ns \<Longrightarrow> stamped ns p"
  by (auto simp: stamped_def)

lemma startChat_refused:
  "startChat opt urlOK body ct rnd s = (Inl resp, s') \<Longrightarrow>
    currentShardMap s' = currentShardMap s \<and> routeLatencyCount s' = routeLatencyCount s + 1"
  by (auto simp: startChat_def Let_def split: sum.splits if_splits)

lemma startChat_sent:
  "startChat opt urlOK body ct rnd s = (Inr p, s') \<Longrightarrow>
    currentShardMap s' = currentShardMap s \<and> routeLatencyCount s' = routeLatencyCount s \<and>
    stamped [currentShardMap s] p"
  by (auto simp: startChat_def Let_def stamped_def upstreamRequest_def conversationFor_nonempty
    split: sum.splits if_splits)

lemma finishChat_counts:
  "finishChat p answer s = (r, s') \<Longrightarrow>
    currentShardMap s' = currentShardMap s \<and> routeLatencyCount s' = routeLatencyCount s + 1"
  by (auto simp: finishChat_def split: sum.splits if_splits)

lemma router_inv_step:
  assumes "router_step opt urlOK y y'" "router_inv y"
  shows "router_inv y'"
  using assms
proof cases
  case (Poll s' answer)
  then show ?thesis using assms(2) by (auto simp: router_inv_def list_all_iff intro: stamped_mono)
next
  case (Refuse body ct rnd resp s')
  then show ?thesis using assms(2) startChat_refused [OF Refuse(2)] by (simp add: router_inv_def)
next
  case (Send body ct rnd p s')
  then show ?thesis
    using assms(2) startChat_sent [OF Send(2)] by (auto simp: router_inv_def elim: stamped_mono)
next
  case (Answer ps p qs answer r s')
  then show ?thesis using assms(2) finishChat_counts [OF Answer(3)] by (simp add: router_inv_def)
qed

lemma router_inv_reachable: "router_reachable opt urlOK y \<Longrightarrow> router_inv y"
proof (induction rule: rtranclp_induct)
  case base
  show ?case by (simp add: router_inv_def initialSys_def initialState_def)
qed (rule router_inv_step)

lemma hexEncode_inj: "hexEncode bs = hexEncode cs \<longleftrightarrow> bs = cs"
proof
  have d: "distinct (map hex_digit [0..<16])" by code_simp
  have digit: "a = b" if "hex_digit a = hex_digit b" "a < 16" "b < 16" for a b
    using d that by (auto simp: distinct_map inj_on_def)
  have high: "byte b div 16 < 16" for b
    using nat_of_char_less_256 [of b] by (simp add: byte_def div_less_iff_less_mult)
  have eq: "b = c" if "hex_digit (byte b div 16) = hex_digit (byte c div 16)" "hex_digit (byte b mod 16) = hex_digit (byte c mod 16)"
    for b c
  proof -
    have "byte b div 16 = byte c div 16" "byte b mod 16 = byte c mod 16"
      by (rule digit [OF that(1) high high]) (rule digit [OF that(2)], simp_all)
    then have "byte b = byte c"
      using div_mult_mod_eq [of "byte b" 16] div_mult_mod_eq [of "byte c" 16] by metis
    then show ?thesis unfolding byte_def of_char_eq_iff .
  qed
  show "hexEncode bs = hexEncode cs \<Longrightarrow> bs = cs"
  proof (induction bs arbitrary: cs)
    case Nil
    then show ?case by (cases cs) (simp_all add: hexEncode_def)
  next
    case (Cons b bs)
    then obtain c cs' where cs: "cs = c # cs'" by (cases cs) (auto simp: hexEncode_def)
    with Cons.prems have "b = c" "hexEncode bs = hexEncode cs'" using eq [of b c] by (simp_all add: hexEncode_def)
    then show ?case using Cons.IH by (simp add: cs)
  qed
qed simp

text \<open>
  The conversation a document names, without the decoder's loop: the values of all members that match
  \<open>conversationId\<close> are texts or null, and the last text is the name. A document that is no object or has
  a value of another type under such a member names none.
\<close>

definition conversationValues :: "(string \<times> json) list \<Rightarrow> json list" where
  "conversationValues ms = map snd (filter (\<lambda>(k, v). key_matches ''conversationId'' k) ms)"

definition conversationNamed :: "json option \<Rightarrow> string" where
  "conversationNamed doc =
     (case doc of
        Some (JObj ms) \<Rightarrow>
          if list_all text_or_null (conversationValues ms)
          then last ([] # concat (map (\<lambda>v. case v of JStr c \<Rightarrow> [c] | _ \<Rightarrow> []) (conversationValues ms)))
          else []
      | _ \<Rightarrow> [])"

lemma decode_chat:
  "decode_members chat_field ms old =
     (if list_all text_or_null (conversationValues ms)
      then Some (last (old # concat (map (\<lambda>v. case v of JStr c \<Rightarrow> [c] | _ \<Rightarrow> []) (conversationValues ms))))
      else None)"
proof (induction ms arbitrary: old)
  case (Cons m ms)
  obtain k v where m: "m = (k, v)" by fastforce
  show ?case
    using Cons by (cases v) (auto simp: m chat_field_def decode_string_def conversationValues_def text_or_null_def)
qed (simp add: conversationValues_def)

lemma extractConversationID_named: "extractConversationID body = conversationNamed (json_parse body)"
  by (simp add: extractConversationID_def conversationNamed_def decode_struct_def decode_chat
    split: option.split json.split)

section \<open>Properties\<close>

text \<open>
  C23: The chosen shard. For every shard map and conversation the chosen shard is between zero and the
  largest shard number of the map, also where \<open>maxShardID+1\<close> wraps around; it is zero without a map,
  with an empty one, or with no positive number.
\<close>

theorem chosen_shard_range:
  "0 \<le> sint (chooseShard m conv) \<and>
   (case m of
      None \<Rightarrow> chooseShard m conv = 0
    | Some sm \<Rightarrow> chooseShard m conv = 0 \<or>
        (\<exists>s \<in> set (sm_Shards sm). sint (chooseShard m conv) \<le> sint (sa_ShardID s) \<and>
           (\<forall>t \<in> set (sm_Shards sm). sint (sa_ShardID t) \<le> sint (sa_ShardID s))))"
proof (cases m)
  case (Some sm)
  let ?max = "maxShardLoop (sm_Shards sm) 0"
  note R = pickShard_range [of sm conv]
  have "chooseShard m conv = 0 \<or> (chooseShard m conv = pickShardForConversation sm conv \<and> ?max \<in> sa_ShardID ` set (sm_Shards sm))"
    using maxShardLoop_in [of "sm_Shards sm" 0] Some
    by (auto simp: chooseShard_def pickShardForConversation_def Let_def)
  then show ?thesis
    using R Some maxShardLoop_upper [of _ "sm_Shards sm" 0] by (auto simp: chooseShard_def)
qed (simp add: chooseShard_def)

theorem chosen_shard_range_witness:
  "let a = (\<lambda>n. \<lparr>sa_ShardID = n, sa_Role = ''decode'', sa_OwnerPod = ''p''\<rparr>);
       m = Some \<lparr>sm_Version = 1, sm_Shards = [a 5, a 2]\<rparr> in
   0 \<le> sint (chooseShard m ''conversation'') \<and> sint (chooseShard m ''conversation'') \<le> 5"
  using chosen_shard_range [of "Some \<lparr>sm_Version = 1, sm_Shards =
      [\<lparr>sa_ShardID = 5, sa_Role = ''decode'', sa_OwnerPod = ''p''\<rparr>, \<lparr>sa_ShardID = 2, sa_Role = ''decode'', sa_OwnerPod = ''p''\<rparr>]\<rparr>"
    "''conversation''"]
  by (auto simp: Let_def)

text \<open>
  C21: Polling. After any sequence of answers the current map is the last one that could be read, or the
  one before when there was none: a failed read or an unreadable document never drops a map; every
  other answer is counted as an error, and no other counter moves. With a poll interval that is not
  positive, which no check of the options refuses, the loop panics before the first poll.
\<close>

theorem poll_history:
  "let good = List.map_filter (\<lambda>a. case a of Inl e \<Rightarrow> None | Inr cm \<Rightarrow>
       (case ParseShardMapJSON (data_get (cm_Data cm) ''shardmap.json'') of Inl e \<Rightarrow> None | Inr sm \<Rightarrow> Some sm)) answers
   in pollShardMap interval answers s =
        (if interval \<le> 0 then Panic
         else Ok (s\<lparr>currentShardMap := (if good = [] then currentShardMap s else Some (last good)),
                    shardMapErrors := shardMapErrors s + (length answers - length good)\<rparr>)) \<and>
      (\<forall>opt. case checkOptions opt of Inl code \<Rightarrow> shardMapConfigMap opt = [] | Inr opt' \<Rightarrow> pollInterval opt' = pollInterval opt)"
proof -
  let ?f = "\<lambda>a :: error + ConfigMap. case a of Inl e \<Rightarrow> None | Inr cm \<Rightarrow>
       (case ParseShardMapJSON (data_get (cm_Data cm) ''shardmap.json'') of Inl e \<Rightarrow> None | Inr sm \<Rightarrow> Some sm)"
  have "fold pollTick answers s = s\<lparr>currentShardMap := (if List.map_filter ?f answers = [] then currentShardMap s
        else Some (last (List.map_filter ?f answers))),
      shardMapErrors := shardMapErrors s + (length answers - length (List.map_filter ?f answers))\<rparr>"
  proof (induction answers rule: rev_induct)
    case (snoc a as)
    have le: "length (List.map_filter ?f as) \<le> length as" by (simp add: List.map_filter_def)
    have app: "List.map_filter ?f (as @ [a]) = List.map_filter ?f as @ (case ?f a of None \<Rightarrow> [] | Some sm \<Rightarrow> [sm])"
      by (simp add: List.map_filter_def split: option.split)
    show ?case
      using snoc le by (auto simp: app pollTick_def Suc_diff_le split: sum.splits option.splits)
  qed (simp add: map_filter_simps)
  then show ?thesis by (simp add: pollShardMap_def Let_def checkOptions_def)
qed

text \<open>
  C22: The handler's ways out. A body that cannot be read gives 400, an upstream URL that cannot be built
  500, an upstream that is unreachable or a header that cannot be sent 502, each counted under its
  status; otherwise the upstream's status, body
  and content type are copied with the conversation added, and only a status outside 100 to 999
  panics. Every way out observes the latency once and leaves the shard map alone.
\<close>

theorem chat_outcomes:
  "let out = handleChat opt urlOK network bodyRead ct rnd s; s' = snd out in
   routeLatencyCount s' = routeLatencyCount s + 1 \<and> currentShardMap s' = currentShardMap s \<and>
   (case bodyRead of
      Inl e \<Rightarrow> fst out = Ok (httpError ''bad request'' 400) \<and> routeTotal s' ''400'' = routeTotal s ''400'' + 1 \<and>
        chosenShard s' = chosenShard s
    | Inr body \<Rightarrow>
        (let conv = conversationFor body rnd; shard = chooseShard (currentShardMap s) conv;
             req = upstreamRequest opt ct conv shard body in
         chosenShard s' = (chosenShard s)(Itoa (sint shard) := chosenShard s (Itoa (sint shard)) + 1) \<and>
         (if \<not> urlOK (rq_URL req) then fst out = Ok (httpError ''upstream request build failed'' 500) \<and>
            routeTotal s' ''500'' = routeTotal s ''500'' + 1
          else case callUpstream network req of
            Inl e \<Rightarrow> fst out = Ok (httpError ''upstream unavailable'' 502) \<and> routeTotal s' ''502'' = routeTotal s ''502'' + 1
          | Inr resp \<Rightarrow>
              (if rs_Status resp < 100 \<or> 999 < rs_Status resp then fst out = Panic \<and> routeTotal s' = routeTotal s
               else (\<exists>a. fst out = Ok a \<and> rs_Status a = finalStatus (rs_Status resp) \<and> rs_Body a = rs_Body resp \<and>
                   header_get (rs_Headers a) ''Content-Type'' = header_get (rs_Headers resp) ''Content-Type'' \<and>
                   header_get (rs_Headers a) ''X-Conversation-Id'' = conv) \<and>
                 routeTotal s' (Itoa (rs_Status resp)) = routeTotal s (Itoa (rs_Status resp)) + 1))))"
  by (simp add: handleChat_def startChat_def finishChat_def Let_def countRoute_def countShard_def observeLatency_def
    header_get_def split: sum.split)

text \<open>
  C14: Requests and polls interleaved. In every state the running router can reach, with requests and poll
  ticks in any order, the observed latencies and the waiting requests add up to the requests received,
  the current map is one that was stored by a poll (or none yet), and every waiting request carries its
  conversation and a shard chosen from one of these maps.
\<close>

theorem router_invariant:
  assumes "router_reachable opt urlOK y"
  shows "routeLatencyCount (rt y) + length (inflight y) = received y \<and> currentShardMap (rt y) \<in> set (seenMaps y) \<and>
    (\<forall>p \<in> set (inflight y). pd_Conversation p \<noteq> [] \<and>
       rq_Headers (pd_Request p) ''X-Conversation-Id'' = Some (pd_Conversation p) \<and>
       (\<exists>m \<in> set (seenMaps y). rq_Headers (pd_Request p) ''X-KV-Shard'' =
          Some (Itoa (sint (chooseShard m (pd_Conversation p))))))"
  using router_inv_reachable [OF assms] by (auto simp: router_inv_def stamped_def list_all_iff)

theorem router_invariant_witness:
  "\<exists>y. router_reachable (flagDefaults ''ns'' ''d'') (\<lambda>_. True) y \<and> received y = 1 \<and> length (inflight y) = 1 \<and>
    routeLatencyCount (rt y) = 0"
proof -
  let ?opt = "flagDefaults ''ns'' ''d''"
  obtain p s where start: "startChat ?opt (\<lambda>_. True) (Inr ''{}'') [] [] initialState = (Inr p, s)"
    by (auto simp: startChat_def Let_def)
  define y where "y = initialSys\<lparr>rt := s, received := received initialSys + 1, inflight := p # inflight initialSys\<rparr>"
  have "router_step ?opt (\<lambda>_. True) initialSys y"
    unfolding y_def by (rule router_step.Send) (use start in \<open>simp add: initialSys_def\<close>)
  then have reach: "router_reachable ?opt (\<lambda>_. True) y" by (rule r_into_rtranclp)
  have "received y = 1" "length (inflight y) = 1" by (simp_all add: y_def initialSys_def)
  then show ?thesis using reach router_invariant [OF reach] by (intro exI [of _ y]) simp
qed

text \<open>
  C24: Conversations. For every body, the request is routed under the name its document gives: the last text
  among the members matching \<open>conversationId\<close>, in any case, all of which must be texts or null. A body that
  is no JSON document, no object, has a value of another type there, or names the empty text gets a fresh
  name instead. That holds of every document a client prints, other members and their values making no
  difference. Fresh names have 32 hexadecimal digits, and two of them are equal only for the same
  sixteen random bytes.
\<close>

theorem conversation_ids:
  "conversationFor body rnd =
     (let c = conversationNamed (json_parse body) in if c = [] then newConversationID rnd else c) \<and>
   (\<forall>ms. printable (JObj ms) \<and> json_depth (JObj ms) \<le> maxNestingDepth \<longrightarrow>
      conversationFor (print_json (JObj ms)) rnd =
        (let c = conversationNamed (Some (JObj ms)) in if c = [] then newConversationID rnd else c)) \<and>
   length (newConversationID rnd) = 32 \<and> set (newConversationID rnd) \<subseteq> set ''0123456789abcdef'' \<and>
   (\<forall>rnd'. length rnd = 16 \<and> length rnd' = 16 \<longrightarrow> (newConversationID rnd = newConversationID rnd') = (rnd = rnd'))"
proof (intro conjI allI impI)
  show "conversationFor body rnd =
     (let c = conversationNamed (json_parse body) in if c = [] then newConversationID rnd else c)"
    by (simp add: conversationFor_def extractConversationID_named)
  show "length (newConversationID rnd) = 32" by (rule length_newConversationID)
  show "set (newConversationID rnd) \<subseteq> set ''0123456789abcdef''"
    unfolding newConversationID_def by (rule hexEncode_digits)
  show "(newConversationID rnd = newConversationID rnd') = (rnd = rnd')" if "length rnd = 16 \<and> length rnd' = 16" for rnd'
    using that by (simp add: newConversationID_def hexEncode_inj)
next
  fix ms
  assume "printable (JObj ms) \<and> json_depth (JObj ms) \<le> maxNestingDepth"
  then have "json_parse (print_json (JObj ms)) = Some (JObj ms)" by (intro json_parse_print) blast+
  then show "conversationFor (print_json (JObj ms)) rnd =
      (let c = conversationNamed (Some (JObj ms)) in if c = [] then newConversationID rnd else c)"
    by (simp add: conversationFor_def extractConversationID_named del: print_json.simps)
qed

theorem conversation_ids_witness:
  "conversationFor (print_json (JObj [(''model'', JNum ''7''), (''conversationid'', JStr ''a\"b'')])) [] = ''a\"b'' \<and>
   conversationFor ''{\"conversationId\":7}'' (replicate 16 (CHR ''a'')) \<noteq>
     conversationFor ''{\"conversationId\":7}'' (replicate 16 (CHR ''b''))"
proof
  let ?ms = "[(''model'', JNum ''7''), (''conversationid'', JStr ''a\"b'')]"
  have u: "valid_utf8 ''model''" "valid_utf8 ''conversationid''" "valid_utf8 ''a\"b''" "Itoa 7 = ''7''"
    "conversationNamed (Some (JObj ?ms)) = ''a\"b''" by code_simp+
  have "printable (JObj ?ms)" using u(1-3) by (auto simp: u(4) [symmetric] simp del: valid_utf8.simps)
  moreover have "json_depth (JObj ?ms) \<le> maxNestingDepth" by (simp add: maxNestingDepth_def)
  ultimately show "conversationFor (print_json (JObj ?ms)) [] = ''a\"b''"
    using conversation_ids [of "[]" "[]", THEN conjunct2, THEN conjunct1] u(5) by (simp add: Let_def del: print_json.simps printable.simps json_depth.simps)
  let ?b = "''{\"conversationId\":7}''"
  have n: "conversationNamed (json_parse ?b) = []" by code_simp
  have "newConversationID (replicate 16 (CHR ''a'')) \<noteq> newConversationID (replicate 16 (CHR ''b''))"
    using conversation_ids [of ?b "replicate 16 (CHR ''a'')"] by simp
  then show "conversationFor ?b (replicate 16 (CHR ''a'')) \<noteq> conversationFor ?b (replicate 16 (CHR ''b''))"
    using conversation_ids [of ?b, THEN conjunct1] n by simp
qed

text \<open>
  C25: Pages. Only a request for exactly \<open>/v1/chat/completions\<close> reaches the chat handler; the health page
  answers 200, any other clean path 404, and a path that is not clean is redirected to its clean form,
  which is not redirected again; none of these changes the router's state, and the metrics port never
  does.
\<close>

theorem router_pages:
  "routerServe opt urlOK network path bodyRead ct rnd s =
     (if path = ''/v1/chat/completions'' then
        (case handleChat opt urlOK network bodyRead ct rnd s of
           (Ok resp, s') \<Rightarrow> (Ok (Inr resp), s') | (Err e, s') \<Rightarrow> (Err e, s') | (Panic, s') \<Rightarrow> (Panic, s'))
      else (Ok (if path = ''/healthz'' then Inr emptyOK
                else if cleanPath path = path then Inr notFound
                else Inl (cleanPath path)), s)) \<and>
   cleanPath (cleanPath path) = cleanPath path \<and> snd (routerMetricsServe render path s) = s"
proof -
  have "cleanPath ''/v1/chat/completions'' = ''/v1/chat/completions''" "cleanPath ''/healthz'' = ''/healthz''"
    by code_simp+
  then show ?thesis
    by (auto simp: routerServe_def serveMux_def routerRoutes_def routerMetricsServe_def cleanPath_idem comp_defs
      split: dispatch.splits)
qed

end
