(* ===== verification/Worker.thy ===== *)
theory Worker
  imports Router
begin

text \<open>
  \<open>cmd/mock-worker\<close>: the stand-in for an inference worker. Its handler echoes the conversation and the
  shard it was given, its role and its host name, as a JSON document. The host name and the role
  variable come from outside and are arguments.
\<close>

section \<open>The worker\<close>

record workerResponse =
  wr_ConversationID :: string
  wr_KVShard :: string
  wr_Role :: string
  wr_Pod :: string
  wr_Message :: string

text \<open>The only flag is the listen address.\<close>

definition workerFlags :: "string \<Rightarrow> string flag option" where
  "workerFlags name = (if name = ''listen'' then Some (StringFlag (\<lambda>v _. v)) else None)"

definition workerListen :: "string list \<Rightarrow> int + string" where
  "workerListen args =
     (case parseArgs workerFlags args '':8000'' of Inl code \<Rightarrow> Inl code | Inr (listen, rest) \<Rightarrow> Inr listen)"

definition workerRole :: "string \<Rightarrow> string" where
  "workerRole envRole = (if envRole = [] then ''decode'' else envRole)"

definition hostname :: "error + string \<Rightarrow> string" where
  "hostname h = (case h of Inl e \<Rightarrow> [] | Inr n \<Rightarrow> n)"

definition json_of_response :: "workerResponse \<Rightarrow> json" where
  "json_of_response r =
     JObj [(''conversationId'', JStr (wr_ConversationID r)), (''kvShard'', JStr (wr_KVShard r)),
           (''role'', JStr (wr_Role r)), (''pod'', JStr (wr_Pod r)), (''message'', JStr (wr_Message r))]"

definition workerAnswer :: "string \<Rightarrow> error + string \<Rightarrow> httpRequest \<Rightarrow> workerResponse" where
  "workerAnswer role host r =
     (let convID = header_get (rq_Headers r) ''X-Conversation-Id'';
          convID = (if convID = [] then ''generated-by-router'' else convID);
          kvShard = header_get (rq_Headers r) ''X-KV-Shard'';
          kvShard = (if kvShard = [] then ''0'' else kvShard)
      in \<lparr>wr_ConversationID = convID, wr_KVShard = kvShard, wr_Role = role, wr_Pod = hostname host,
          wr_Message = ''mock worker response (role='' @ role @ '', shard='' @ kvShard @ '')''\<rparr>)"

text \<open>
  The handler counts the request under its role and writes the document followed by a newline; a body
  written without a status has status 200.
\<close>

definition workerHandle ::
  "string \<Rightarrow> error + string \<Rightarrow> httpRequest \<Rightarrow> (string \<Rightarrow> nat) \<Rightarrow> httpResponse \<times> (string \<Rightarrow> nat)" where
  "workerHandle role host r reqs =
     (\<lparr>rs_Status = 200, rs_Headers = [''Content-Type'' \<mapsto> ''application/json''],
       rs_Body = print_json (json_of_response (workerAnswer role host r)) @ [CHR 0x0A]\<rparr>,
      reqs(role := reqs role + 1))"

text \<open>The pages of the worker; the metrics page is rendered by the Prometheus library.\<close>

datatype workerPage = WorkerMetrics | WorkerHealthz | WorkerChat

definition workerRoutes :: "(string \<times> workerPage) list" where
  "workerRoutes = [(''/metrics'', WorkerMetrics), (''/healthz'', WorkerHealthz), (''/v1/chat/completions'', WorkerChat)]"

definition workerServe ::
  "((string \<Rightarrow> nat) \<Rightarrow> httpResponse) \<Rightarrow> string \<Rightarrow> error + string \<Rightarrow> string \<Rightarrow> httpRequest \<Rightarrow> (string \<Rightarrow> nat) \<Rightarrow>
     (string + httpResponse) \<times> (string \<Rightarrow> nat)" where
  "workerServe render role host path r reqs =
     (case serveMux workerRoutes path of
        Handler WorkerMetrics \<Rightarrow> (Inr (render reqs), reqs)
      | Handler WorkerHealthz \<Rightarrow> (Inr emptyOK, reqs)
      | Handler WorkerChat \<Rightarrow> (case workerHandle role host r reqs of (resp, reqs) \<Rightarrow> (Inr resp, reqs))
      | RedirectTo p \<Rightarrow> (Inl p, reqs)
      | PageNotFound \<Rightarrow> (Inr notFound, reqs))"

lemma workerServe_chat:
  "workerServe render role host ''/v1/chat/completions'' r reqs =
    (Inr (fst (workerHandle role host r reqs)), snd (workerHandle role host r reqs))"
proof -
  have "serveMux workerRoutes ''/v1/chat/completions'' = Handler WorkerChat" by code_simp
  then show ?thesis by (simp add: workerServe_def split_def)
qed

section \<open>Reading the answer\<close>

definition response_field :: "string \<Rightarrow> json \<Rightarrow> workerResponse \<Rightarrow> workerResponse option" where
  "response_field k v r =
     (if key_matches ''conversationId'' k then map_option (\<lambda>s. r\<lparr>wr_ConversationID := s\<rparr>) (decode_string v (wr_ConversationID r))
      else if key_matches ''kvShard'' k then map_option (\<lambda>s. r\<lparr>wr_KVShard := s\<rparr>) (decode_string v (wr_KVShard r))
      else if key_matches ''role'' k then map_option (\<lambda>s. r\<lparr>wr_Role := s\<rparr>) (decode_string v (wr_Role r))
      else if key_matches ''pod'' k then map_option (\<lambda>s. r\<lparr>wr_Pod := s\<rparr>) (decode_string v (wr_Pod r))
      else if key_matches ''message'' k then map_option (\<lambda>s. r\<lparr>wr_Message := s\<rparr>) (decode_string v (wr_Message r))
      else Some r)"

definition decodeResponse :: "string \<Rightarrow> workerResponse option" where
  "decodeResponse body =
     Option.bind (json_parse body) (\<lambda>j. decode_struct response_field j
       \<lparr>wr_ConversationID = [], wr_KVShard = [], wr_Role = [], wr_Pod = [], wr_Message = []\<rparr>)"

definition utf8_response :: "workerResponse \<Rightarrow> bool" where
  "utf8_response r \<longleftrightarrow>
     valid_utf8 (wr_ConversationID r) \<and> valid_utf8 (wr_KVShard r) \<and> valid_utf8 (wr_Role r) \<and>
     valid_utf8 (wr_Pod r) \<and> valid_utf8 (wr_Message r)"

lemma response_names:
  "\<not> key_matches ''conversationId'' ''kvShard''" "\<not> key_matches ''conversationId'' ''role''"
  "\<not> key_matches ''conversationId'' ''pod''" "\<not> key_matches ''conversationId'' ''message''"
  "\<not> key_matches ''kvShard'' ''role''" "\<not> key_matches ''kvShard'' ''pod''" "\<not> key_matches ''kvShard'' ''message''"
  "\<not> key_matches ''role'' ''pod''" "\<not> key_matches ''role'' ''message''" "\<not> key_matches ''pod'' ''message''"
  by code_simp+

lemma response_names_utf8:
  "valid_utf8 ''conversationId''" "valid_utf8 ''kvShard''" "valid_utf8 ''role''" "valid_utf8 ''pod''"
  "valid_utf8 ''message''"
  by code_simp+

lemma decode_response_line:
  assumes "utf8_response r"
  shows "decodeResponse (print_json (json_of_response r) @ [CHR 0x0A]) = Some r"
proof -
  have "printable (json_of_response r)" "json_depth (json_of_response r) \<le> maxNestingDepth"
    using assms by (simp_all add: utf8_response_def json_of_response_def response_names_utf8 maxNestingDepth_def
      del: valid_utf8.simps(2) print_json.simps)
  then have "json_parse (print_json (json_of_response r) @ [CHR 0x0A]) = Some (json_of_response r)"
    by (rule json_parse_print_line)
  then show ?thesis
    by (simp add: decodeResponse_def json_of_response_def decode_struct_def response_field_def response_names
      decode_string_def)
qed

end
