(* ===== verification/System.thy ===== *)
theory System
  imports Deployed Worker
begin

text \<open>
  The components together: the shard map the controller publishes is the map the router reads, the
  shard the router chooses is one of the published shards, and its owner is a decode pod of the
  cluster; the worker's answer tells the client which shard and conversation it was.
\<close>

section \<open>The shard map between controller and router\<close>

text \<open>What the publisher and the reader of a document agree on.\<close>

locale document_codec =
  fixes encode :: "'d \<Rightarrow> string" and decode :: "string \<Rightarrow> 'e + 'm" and abs :: "'d \<Rightarrow> 'm" and wf :: "'d \<Rightarrow> bool"
  assumes decode_encode: "wf d \<Longrightarrow> decode (encode d) = Inr (abs d)"
begin

lemma encode_determines: "wf d \<Longrightarrow> wf e \<Longrightarrow> encode d = encode e \<Longrightarrow> abs d = abs e"
  using decode_encode [of d] decode_encode [of e] by simp

lemma never_rejected: "wf d \<Longrightarrow> decode (encode d) \<noteq> Inl err"
  by (simp add: decode_encode)

lemma reader_loads:
  "wf d \<Longrightarrow> text = encode d \<Longrightarrow> (case decode text of Inl err \<Rightarrow> old | Inr m \<Rightarrow> Some m) = Some (abs d)"
  by (simp add: decode_encode)

end

interpretation shardmap: document_codec marshalDoc ParseShardMapJSON shardMapOf utf8_doc
  by unfold_locales (rule Parse_marshal)

text \<open>The document for a list of pods and a number of shards.\<close>

definition shardDoc :: "Pod list \<Rightarrow> int32 \<Rightarrow> shardMapDoc" where
  "shardDoc pods n = \<lparr>smd_Version = 1,
     smd_Shards = map (\<lambda>i. shardEntryOf i (ownerOf (ownerCandidates pods) i)) (shardIDs n)\<rparr>"

lemma ownerCandidates_sub: "set (ownerCandidates pods) \<subseteq> (\<lambda>p. Name (pod_meta p)) ` set pods"
  by (auto simp: ownerCandidates_def Let_def)

lemma ownerOf_pod:
  "pods \<noteq> [] \<Longrightarrow> \<exists>p \<in> set pods. ownerOf (ownerCandidates pods) i = Name (pod_meta p)"
  using ownerOf_member [of "ownerCandidates pods" i] ownerCandidates_sub [of pods]
  by (auto simp: ownerCandidates_Nil)

lemma utf8_shardDoc:
  assumes "list_all (listed ns sel) pods"
  shows "utf8_doc (shardDoc pods n)"
proof -
  have "valid_utf8 (ownerOf (ownerCandidates pods) i)" for i
  proof (cases "pods = []")
    case True
    then show ?thesis by (simp add: ownerCandidates_def ownerOf_def Let_def)
  next
    case False
    then obtain p where "p \<in> set pods" "ownerOf (ownerCandidates pods) i = Name (pod_meta p)"
      using ownerOf_pod by blast
    then show ?thesis using assms by (auto simp: list_all_iff listed_def intro: ascii_valid_utf8)
  qed
  moreover have "valid_utf8 ''decode''" by code_simp
  ultimately show ?thesis
    by (simp add: utf8_doc_def shardDoc_def list_all_iff shardEntryOf_def roleDecode_def del: valid_utf8.simps)
qed

lemma assigned_document:
  assumes "assignShards pods n now = Ok (shards, json)"
  shows "0 \<le> sint n" "json = marshalDoc (shardDoc pods n)"
    "shards = map (\<lambda>i. shardStatusOf i (ownerOf (ownerCandidates pods) i) (phaseOf (ownerCandidates pods)) now) (shardIDs n)"
proof -
  show n: "0 \<le> sint n" using assms assignShards_negative [of n pods now] by (cases "0 \<le> sint n") auto
  show "json = marshalDoc (shardDoc pods n)"
    "shards = map (\<lambda>i. shardStatusOf i (ownerOf (ownerCandidates pods) i) (phaseOf (ownerCandidates pods)) now) (shardIDs n)"
    using assms assignShards_spec [OF n, of pods now] by (simp_all add: shardDoc_def)
qed

section \<open>The router's choice among the published shards\<close>

lemma chooseShard_published:
  assumes "1 \<le> sint n"
  shows "chooseShard (Some (shardMapOf (shardDoc pods n))) conv \<in> set (shardIDs n)"
proof -
  let ?sm = "shardMapOf (shardDoc pods n)"
  have ids: "sa_ShardID ` set (sm_Shards ?sm) = set (shardIDs n)"
    by (simp add: shardMapOf_def shardDoc_def assignmentOf_def shardEntryOf_def image_image)
  have "maxShardLoop (sm_Shards ?sm) 0 \<in> set (shardIDs n)"
    using maxShardLoop_in [of "sm_Shards ?sm" 0] assms unfolding ids by (auto simp: set_shardIDs)
  then have "sint (maxShardLoop (sm_Shards ?sm) 0) < sint n" by (simp add: set_shardIDs)
  then have "pickShardForConversation ?sm conv \<in> set (shardIDs n)"
    using pickShard_range [of ?sm conv] by (simp add: set_shardIDs)
  moreover have "0 \<in> set (shardIDs n)" using assms by (simp add: set_shardIDs)
  ultimately show ?thesis by (simp add: chooseShard_def)
qed

text \<open>What the ConfigMap holds when it is a fixpoint of its closure.\<close>

lemma shardMapConfigMap_data:
  assumes "owner_law P" "mutateShardMapConfigMap P c base json cm = Ok cm"
  shows "data_get (cm_Data cm) ''shardmap.json'' = json"
  using arg_cong [OF shardMapConfigMap.fixpoint(3) [OF assms], of "map_go cm_Data"]
  by (auto simp: writeShardMapConfigMap_def data_get_def split: option.split)

lemma poll_published:
  assumes "data_get (cm_Data cm) ''shardmap.json'' = marshalDoc d" "utf8_doc d"
  shows "currentShardMap (pollTick (Inr cm) s) = Some (shardMapOf d)"
  using assms shardmap.decode_encode [of d] by (simp add: pollTick_def)

text \<open>A pod of the cluster that serves decoding.\<close>

definition decodePodOf :: "LLMInferenceCluster \<Rightarrow> Pod \<Rightarrow> bool" where
  "decodePodOf c p \<longleftrightarrow>
     Namespace (pod_meta p) = Namespace (metadata c) \<and>
     Labels (pod_meta p) ''inference.llm.io/cluster'' = Some (Name (metadata c)) \<and>
     Labels (pod_meta p) ''inference.llm.io/role'' = Some ''decode''"

lemma listed_decodePodOf:
  assumes "listed (Namespace (metadata c)) (roleLabels (baseLabels c) roleDecode) p"
  shows "decodePodOf c p"
proof -
  let ?sel = "roleLabels (baseLabels c) roleDecode"
  have "?sel ''inference.llm.io/cluster'' = Some (Name (metadata c))" "?sel ''inference.llm.io/role'' = Some ''decode''"
    by (simp_all add: roleLabels_def baseLabels_def roleDecode_def)
  moreover have "Labels (pod_meta p) k = Some v" if "?sel k = Some v" for k v
    using assms that unfolding listed_def by (metis domI map_le_def)
  ultimately show ?thesis using assms by (simp add: listed_def decodePodOf_def)
qed

text \<open>
  The state a successful reconciliation leaves, as the router and its clients see it: for every
  conversation the shard chosen from the polled map is listed in the status; without pods it is
  pending and has no owner, otherwise it is ready and owned by one of the pods, a ready one unless
  none is ready.
\<close>

definition routable :: "Pod list \<Rightarrow> LLMInferenceCluster \<Rightarrow> ConfigMap \<Rightarrow> bool" where
  "routable pods c' cm \<longleftrightarrow>
     (\<forall>s conv. \<exists>sh \<in> set (Shards (status c')).
        ss_ShardID sh = chooseShard (currentShardMap (pollTick (Inr cm) s)) conv \<and>
        (if pods = [] then ss_OwnerPod sh = [] \<and> ss_Phase sh = ShardPhasePending
         else ss_Phase sh = ShardPhaseReady \<and>
           (\<exists>p \<in> set pods. ss_OwnerPod sh = Name (pod_meta p) \<and> (isPodReady p \<or> \<not> list_ex isPodReady pods))))"

lemma assigned_routable:
  assumes pods: "list_all (listed ns sel) pods"
    and asg: "assignShards pods n now = Ok (shards, json)" and n: "1 \<le> sint n"
    and cm: "data_get (cm_Data cm) ''shardmap.json'' = json" and c': "Shards (status c') = shards"
  shows "routable pods c' cm"
  unfolding routable_def
proof (intro allI)
  fix s conv
  note A = assigned_document [OF asg]
  define i where "i = chooseShard (Some (shardMapOf (shardDoc pods n))) conv"
  have cur: "currentShardMap (pollTick (Inr cm) s) = Some (shardMapOf (shardDoc pods n))"
    using poll_published [OF _ utf8_shardDoc [OF pods]] cm A(2) by simp
  have i: "i \<in> set (shardIDs n)" unfolding i_def by (rule chooseShard_published [OF n])
  let ?sh = "shardStatusOf i (ownerOf (ownerCandidates pods) i) (phaseOf (ownerCandidates pods)) now"
  have mem: "?sh \<in> set (Shards (status c'))" using i A(3) c' by auto
  show "\<exists>sh \<in> set (Shards (status c')).
        ss_ShardID sh = chooseShard (currentShardMap (pollTick (Inr cm) s)) conv \<and>
        (if pods = [] then ss_OwnerPod sh = [] \<and> ss_Phase sh = ShardPhasePending
         else ss_Phase sh = ShardPhaseReady \<and>
           (\<exists>p \<in> set pods. ss_OwnerPod sh = Name (pod_meta p) \<and> (isPodReady p \<or> \<not> list_ex isPodReady pods)))"
    unfolding cur i_def [symmetric] using owner_ready_pod [of pods i]
    by (intro bexI [OF _ mem]) (auto simp: shardStatusOf_def phaseOf_def ownerCandidates_Nil ownerOf_def)
qed

lemma reconciled_routable:
  assumes law: "contract P view crs" and rec: "reconciled view crs P C c0 w"
    and n: "1 \<le> sint (derefInt32 (NumShards (KVCache (spec c0))) 8)"
  shows "\<exists>pods c' cm. listedPods c0 (baseLabels c0) pods w \<and> list_all (decodePodOf c0) pods \<and>
    crs (env w) (key_of (metadata c0)) = Some c' \<and>
    stored asConfigMap (KConfigMap, Namespace (metadata c0), Name (metadata c0) @ ''-shardmap'') (view (env w)) = Some cm \<and>
    routable pods c' cm"
proof -
  obtain c ov dp pp where c: "spec c = applyDefaults (spec c0)" "key_of (metadata c) = key_of (metadata c0)"
    and sp: "shardsPublished view crs P C c (baseLabels c) dp pp
      (childFacts P c (baseLabels c) ov dp pp @ signalsFacts P c (baseLabels c) ov) w"
    using rec by (auto simp: reconciled_def)
  obtain pods now shards json c' where
    pods: "list_all (listed (Namespace (metadata c)) (roleLabels (baseLabels c) roleDecode)) pods" "listedPods c (baseLabels c) pods w"
    and asg: "assignShards pods (derefInt32 (NumShards (KVCache (spec c))) 8) now = Ok (shards, json)"
    and h: "holds (((KConfigMap, Namespace (metadata c), Name (metadata c) @ ''-shardmap''),
           converged asConfigMap (mutateShardMapConfigMap P c (baseLabels c) json)) #
           childFacts P c (baseLabels c) ov dp pp @ signalsFacts P c (baseLabels c) ov) (view (env w))"
    and pub: "published (c\<lparr>status := (status c)\<lparr>Shards := shards\<rparr>\<rparr>) dp pp c'"
    and crs: "crs (env w) = C(key_of (metadata c) \<mapsto> c')"
    using sp unfolding shardsPublished_def podList_def by auto
  obtain cm where cm: "stored asConfigMap (KConfigMap, Namespace (metadata c), Name (metadata c) @ ''-shardmap'') (view (env w)) = Some cm"
      "mutateShardMapConfigMap P c (baseLabels c) json cm = Ok cm"
    by (rule stored_converged [OF h list.set_intros(1)])
  have "routable pods c' cm"
    by (rule assigned_routable [OF pods(1) asg])
      (use n c(1) shardMapConfigMap_data [OF contractD(1) [OF law] cm(2)] pub in
        \<open>simp_all add: published_def Let_def applyDefaults_def derefInt32_def split: option.splits\<close>)
  moreover have names: "Name (metadata c) = Name (metadata c0)" "Namespace (metadata c) = Namespace (metadata c0)"
    using c(2) by (simp_all add: key_of_def)
  moreover have "list_all (decodePodOf c0) pods"
    using pods(1) listed_decodePodOf [of c] names by (auto simp: list_all_iff decodePodOf_def)
  moreover have "baseLabels c = baseLabels c0" using names(1) by (simp add: baseLabels_def)
  ultimately show ?thesis
    using pods(2) c(2) crs cm(1) by (intro exI [of _ pods] exI [of _ c'] exI [of _ cm]) (simp add: listedPods_def)
qed

section \<open>The router starts with what the controller deployed\<close>

text \<open>
  The environment of a container's process: plain variables have their value, and the one variable that
  refers to a field, \<open>metadata.namespace\<close>, has the pod's namespace.
\<close>

definition container_env :: "Container \<Rightarrow> string \<Rightarrow> (string \<Rightarrow> string) \<Rightarrow> bool" where
  "container_env ct ns getenv \<longleftrightarrow>
     list_all (\<lambda>e. getenv (env_Name e) = (case env_FieldRef e of None \<Rightarrow> env_Value e | Some p \<Rightarrow> ns)) (ct_Env ct)"

lemma router_args:
  "parseArgs (routerFlags pd) [''--shardmap-configmap'', m, ''--hash-key'', k] opt =
    Inr (opt\<lparr>shardMapConfigMap := m, hashKey := k\<rparr>, [])"
  using parseArgs_value [of "''shardmap-configmap''" "routerFlags pd" _ m "[''--hash-key'', k]" opt]
    parseArgs_value [of "''hash-key''" "routerFlags pd" _ k "[]" "opt\<lparr>shardMapConfigMap := m\<rparr>"]
  by (simp add: routerFlags_def)

lemma serviceDNS_nonempty: "serviceDNS svc ns port \<noteq> []"
  by (simp add: serviceDNS_def)

lemma router_options:
  assumes "router_spec c dp pp ct" "container_env ct (Namespace (metadata c)) getenv" "Namespace (metadata c) \<noteq> []"
  shows "routerOptions pd getenv (ct_Args ct) =
    Inr \<lparr>listenAddr = '':8080'', metricsAddr = '':9090'', shardMapConfigMap = Name (metadata c) @ ''-shardmap'',
      hashKey = derefString (HashKey (Routing (spec c))) ''conversationId'', opt_namespace = Namespace (metadata c),
      decodeServiceDNS = serviceDNS (Name (metadata c) @ ''-decode'') (Namespace (metadata c)) dp, kubeconfig = [],
      pollInterval = 2000000000\<rparr>"
proof -
  have "getenv ''NAMESPACE'' = Namespace (metadata c)"
      "getenv ''DECODE_SERVICE_DNS'' = serviceDNS (Name (metadata c) @ ''-decode'') (Namespace (metadata c)) dp"
    using assms(1,2) by (simp_all add: router_spec_def container_env_def plainEnv_def Let_def)
  then show ?thesis
    using assms(1,3) by (simp add: routerOptions_def router_spec_def router_args checkOptions_def flagDefaults_def
      serviceDNS_nonempty Let_def del: parseArgs.simps)
qed

section \<open>From the client to the worker and back\<close>

lemma ascii_append: "ascii (a @ b) \<longleftrightarrow> ascii a \<and> ascii b"
  by (simp add: ascii_def)

lemma ascii_Itoa: "ascii (Itoa z)"
proof -
  have "ascii (nat_text n)" for n
    using nat_text_digits [of n] by (auto simp: ascii_def list_all_iff is_digit_def byte_def)
  then show ?thesis by (simp add: Itoa_def ascii_def byte_def)
qed

lemma Itoa_nonempty: "Itoa z \<noteq> []"
  by (simp add: Itoa_def nat_text_nonempty)

text \<open>A value that travels in a header unchanged.\<close>

definition header_safe :: "string \<Rightarrow> bool" where
  "header_safe v \<longleftrightarrow> header_value_ok v \<and> header_trim v = v"

lemma header_safe_visible:
  assumes "list_all (\<lambda>c. header_byte_ok c \<and> \<not> header_blank c) v"
  shows "header_safe v"
proof -
  have "header_value_ok v" using assms by (auto simp: header_value_ok_def list_all_iff)
  moreover have "header_trim v = v"
    using assms by (intro header_trim_id) (cases "v = []", simp_all add: list_all_iff)
  ultimately show ?thesis by (simp add: header_safe_def)
qed

lemma header_safe_Itoa: "header_safe (Itoa z)"
proof -
  have digit: "header_byte_ok c \<and> \<not> header_blank c" if "is_digit c" for c
    using that by (auto simp: is_digit_def header_byte_ok_def header_blank_def less_eq_char_def of_char_def)
  have "list_all (\<lambda>c. header_byte_ok c \<and> \<not> header_blank c) (nat_text n)" for n
    using nat_text_digits [of n] digit by (simp add: list_all_iff)
  moreover have "header_byte_ok CHR ''-'' \<and> \<not> header_blank CHR ''-''" by code_simp
  ultimately show ?thesis by (intro header_safe_visible) (simp add: Itoa_def)
qed

text \<open>A decode worker behind the network: the answer to a request it receives at the chat path.\<close>

definition workerNetwork ::
  "((string \<Rightarrow> nat) \<Rightarrow> httpResponse) \<Rightarrow> string \<Rightarrow> error + string \<Rightarrow> (string \<Rightarrow> nat) \<Rightarrow> httpRequest \<Rightarrow> error + httpResponse" where
  "workerNetwork render role host reqs r =
     (case fst (workerServe render role host ''/v1/chat/completions'' r reqs) of
        Inl path \<Rightarrow> Inl (OtherError ''redirected'')
      | Inr resp \<Rightarrow> Inr resp)"

text \<open>A chat request through the router to a worker: what the client reads.\<close>

lemma chat_roundtrip:
  assumes "urlOK (''http://'' @ decodeServiceDNS opt @ ''/v1/chat/completions'')"
    and "ascii role" "valid_utf8 (hostname host)" "valid_utf8 (conversationFor body rnd)"
    and "header_safe (conversationFor body rnd)" "header_safe ct"
  shows "\<exists>resp. handleChat opt urlOK (workerNetwork render role host reqs) (Inr body) ct rnd s =
      (Ok resp, observeLatency (countRoute ''200''
        (countShard (Itoa (sint (chooseShard (currentShardMap s) (conversationFor body rnd)))) s))) \<and>
    rs_Status resp = 200 \<and> rs_Headers resp ''X-Conversation-Id'' = Some (conversationFor body rnd) \<and>
    (\<exists>a. decodeResponse (rs_Body resp) = Some a \<and> wr_ConversationID a = conversationFor body rnd \<and>
      wr_KVShard a = Itoa (sint (chooseShard (currentShardMap s) (conversationFor body rnd))) \<and>
      wr_Role a = role \<and> wr_Pod a = hostname host)"
proof -
  let ?conv = "conversationFor body rnd"
  let ?shard = "Itoa (sint (chooseShard (currentShardMap s) ?conv))"
  let ?req = "upstreamRequest opt ct ?conv (chooseShard (currentShardMap s) ?conv) body"
  define a where "a = workerAnswer role host ?req"
  have hd: "header_get (rq_Headers ?req) ''X-Conversation-Id'' = ?conv" "header_get (rq_Headers ?req) ''X-KV-Shard'' = ?shard"
    by (simp_all add: upstreamRequest_def header_get_def)
  have ne: "?conv \<noteq> []" "?shard \<noteq> []" by (simp_all add: conversationFor_nonempty Itoa_nonempty)
  have a: "a = \<lparr>wr_ConversationID = ?conv, wr_KVShard = ?shard, wr_Role = role, wr_Pod = hostname host,
      wr_Message = ''mock worker response (role='' @ role @ '', shard='' @ ?shard @ '')''\<rparr>"
    by (simp only: a_def workerAnswer_def Let_def hd ne if_False)
  have "ascii (wr_Message a)"
    using assms(2) ascii_Itoa by (simp only: a workerResponse.simps ascii_append) (simp add: ascii_def byte_def)
  moreover have f: "wr_ConversationID a = ?conv" "wr_KVShard a = ?shard" "wr_Role a = role" "wr_Pod a = hostname host"
    by (simp_all add: a)
  ultimately have "utf8_response a"
    unfolding utf8_response_def f using assms(2-4) ascii_Itoa ascii_valid_utf8 by blast
  then have dec: "decodeResponse (print_json (json_of_response a) @ [CHR 0x0A]) = Some a" by (rule decode_response_line)
  have url: "urlOK (rq_URL ?req)" using assms(1) by (simp add: upstreamRequest_def)
  have "Itoa 200 = ''200''" by code_simp
  moreover have "callUpstream (workerNetwork render role host reqs) ?req =
      Inr (fst (workerHandle role host ?req reqs))"
  proof -
    have safe: "header_safe ?shard" by (rule header_safe_Itoa)
    have "map_option header_trim \<circ> rq_Headers ?req = rq_Headers ?req"
      using assms(5,6) safe by (auto simp: upstreamRequest_def header_safe_def)
    moreover have "list_all (\<lambda>n. header_value_ok (header_get (rq_Headers ?req) n)) [''Content-Type'', ''X-Conversation-Id'', ''X-KV-Shard'']"
      using assms(5,6) safe by (simp add: upstreamRequest_def header_get_def header_safe_def)
    ultimately show ?thesis by (simp add: callUpstream_def httpDo_def workerNetwork_def workerServe_chat)
  qed
  ultimately have "handleChat opt urlOK (workerNetwork render role host reqs) (Inr body) ct rnd s =
      (Ok \<lparr>rs_Status = 200, rs_Headers = [''Content-Type'' \<mapsto> ''application/json'', ''X-Conversation-Id'' \<mapsto> ?conv],
          rs_Body = print_json (json_of_response a) @ [CHR 0x0A]\<rparr>,
       observeLatency (countRoute ''200'' (countShard ?shard s)))"
    using url by (simp add: handleChat_def startChat_def finishChat_def finalStatus_def workerHandle_def Let_def a_def header_get_def
      del: print_json.simps)
  then show ?thesis using dec f by simp
qed

end
