(* ===== verification/Traces.thy ===== *)
theory Traces
  imports Controller
begin

text \<open>
  The calls a reconciliation makes, whatever the API server answers: their order, what is reported
  when one fails, and what happens to a resource that is missing or being deleted. Nothing here
  relies on the platform's contract except where a condition or a finalizer is looked up.
\<close>

section \<open>The order of the calls\<close>

text \<open>The place of every call in a run for the cluster named \<open>n\<close>.\<close>

fun rank :: "string \<Rightarrow> call \<Rightarrow> nat" where
  "rank n (CallGet key) = 0"
| "rank n (CallPatch c orig) = 1"
| "rank n (CallUpdate c) = 2"
| "rank n (CallCreateOrUpdate KConfigMap (ns, m)) = (if m = n @ ''-signals'' then 3 else 15)"
| "rank n (CallGetConfigMap key) = 4"
| "rank n (CallCreateOrUpdate KService (ns, m)) =
     (if m = n @ ''-decode'' then 5 else if m = n @ ''-prefill'' then 6 else 7)"
| "rank n (CallCreateOrUpdate KServiceAccount key) = 8"
| "rank n (CallCreateOrUpdate KRole key) = 9"
| "rank n (CallCreateOrUpdate KRoleBinding key) = 10"
| "rank n (CallCreateOrUpdate KDeployment (ns, m)) =
     (if m = n @ ''-decode'' then 11 else if m = n @ ''-prefill'' then 12 else 13)"
| "rank n (CallListPods ns sel answer) = 14"
| "rank n (CallStatusUpdate c) = 16"
| "rank n (CallStatusPatch c orig) = 16"

text \<open>Since the log was \<open>t0\<close>, calls came in strictly increasing places, all below \<open>k\<close>.\<close>

definition below :: "string \<Rightarrow> nat \<Rightarrow> call list \<Rightarrow> 'w world \<Rightarrow> bool" where
  "below n k t0 w \<longleftrightarrow>
     (\<exists>t. calls w = t0 @ t \<and> sorted_wrt (<) (map (rank n) t) \<and> list_all (\<lambda>c. rank n c < k) t)"

lemma below_mono: "below n k t0 w \<Longrightarrow> k \<le> m \<Longrightarrow> below n m t0 w"
  unfolding below_def by (fastforce simp: list_all_iff)

lemma below_ex: "\<forall>n. below n k t0 w \<Longrightarrow> k \<le> m \<Longrightarrow> \<exists>n. below n m t0 w"
  using below_mono by blast

lemma below_call:
  assumes "below n k t0 w" "k \<le> rank n c" "rank n c < i" "calls w' = calls w @ [c]"
  shows "below n i t0 w'"
proof -
  obtain t where t: "calls w = t0 @ t" "sorted_wrt (<) (map (rank n) t)" "list_all (\<lambda>c. rank n c < k) t"
    using assms(1) by (auto simp: below_def)
  then have "sorted_wrt (<) (map (rank n) (t @ [c]))" "list_all (\<lambda>c. rank n c < i) (t @ [c])"
    using assms(2,3) by (auto simp: sorted_wrt_append list_all_iff)
  then show ?thesis using t(1) assms(4) unfolding below_def by (intro exI [of _ "t @ [c]"]) simp
qed

lemma rank_invoke:
  "k \<le> rank n c \<Longrightarrow> rank n c < i \<Longrightarrow> always (invoke c f) (below n k t0) (\<lambda>_. below n i t0)"
  by (rule alwaysI) (auto dest!: invoke_calls intro: below_call below_mono)

lemma rank_listPods: "k \<le> 14 \<Longrightarrow> always (listPods P ns sel) (below n k t0) (\<lambda>_. below n 15 t0)"
  by (rule always_listPods) (erule below_call, simp_all)

lemma rank_createOrUpdate:
  "k \<le> rank n (CallCreateOrUpdate kd (key_of (meta obj))) \<Longrightarrow>
    rank n (CallCreateOrUpdate kd (key_of (meta obj))) < i \<Longrightarrow>
    always (createOrUpdate kd meta f obj mutate) (below n k t0) (\<lambda>_. below n i t0)"
  by (rule alwaysI) (auto dest!: createOrUpdate_calls intro: below_call below_mono)

lemma rank_clock: "always (clock P) (below n k t0) (\<lambda>_. below n k t0)"
  by (rule alwaysI) (auto simp: below_def dest!: clock_calls)

lemma rank_andThen:
  assumes "always m (below n k t0) (\<lambda>_. below n j t0)" "\<And>a. always (f a) (below n j t0) (\<lambda>_. below n i t0)" "j \<le> i"
  shows "always (andThen m f) (below n k t0) (\<lambda>_. below n i t0)"
  by (rule always_andThen [OF always_post [OF assms(1)] assms(2)])
    (use below_mono assms(3) in \<open>auto split: go.split\<close>)

lemma rank_onErr:
  assumes "always m (below n k t0) (\<lambda>_. below n j t0)" "\<And>e. always (h e) (below n j t0) (\<lambda>_. below n i t0)"
    "\<And>a. always (f a) (below n j t0) (\<lambda>_. below n i t0)" "j \<le> i"
  shows "always (onErr m h f) (below n k t0) (\<lambda>_. below n i t0)"
  by (rule always_onErr [OF always_post [OF assms(1)] assms(2,3)])
    (use below_mono assms(4) in \<open>auto split: go.split\<close>)

lemma rank_ret: "k \<le> j \<Longrightarrow> always (ret a) (below n k t0) (\<lambda>_. below n j t0)"
  by (rule always_ret) (rule below_mono)

lemma rank_requeueDegraded:
  "k \<le> 16 \<Longrightarrow> always (requeueDegraded P c e) (below n k t0) (\<lambda>_. below n 17 t0)"
  unfolding requeueDegraded_def Let_def
  by (intro rank_andThen [OF rank_clock] rank_onErr [where j = 17] rank_ret)
    (auto intro: rank_invoke)

lemma rank_finishStatus:
  "k \<le> 16 \<Longrightarrow> always (finishStatus P orig c dp pp) (below n k t0) (\<lambda>_. below n 17 t0)"
  unfolding finishStatus_def Let_def
  by (intro rank_andThen [OF rank_clock] rank_onErr [where j = 17] rank_ret)
    (auto intro: rank_invoke)

lemma rank_lift: "k \<le> j \<Longrightarrow> always (lift_go r) (below n k t0) (\<lambda>_. below n j t0)"
  by (rule always_lift_go) (rule below_mono)

lemma rank_computeShardMap:
  "k \<le> 14 \<Longrightarrow> always (computeShardMap P c base) (below n k t0) (\<lambda>_. below n 15 t0)"
  unfolding computeShardMap_def Let_def
  by (intro rank_andThen [OF rank_listPods] rank_andThen [OF rank_clock] rank_lift) simp_all

lemmas reconcile_object_defs =
  reconcileRoleService_def reconcileRouterService_def reconcileRoleDeployment_def
  reconcileRouterDeployment_def reconcileShardMapConfigMap_def reconcileSignalsConfigMap_def
  emptyService_def emptyDeployment_def emptyConfigMap_def roleDecode_def rolePrefill_def

lemma rank_objects:
  assumes "n = Name (metadata c)"
  shows "always (reconcileRoleService P c roleDecode (n @ ''-decode'') dp base) (below n 5 t0) (\<lambda>_. below n 6 t0)"
    and "always (reconcileRoleService P c rolePrefill (n @ ''-prefill'') pp base) (below n 6 t0) (\<lambda>_. below n 7 t0)"
    and "always (reconcileRouterService P c (n @ ''-router'') base) (below n 7 t0) (\<lambda>_. below n 8 t0)"
    and "always (reconcileRoleDeployment P c roleDecode sn base ov) (below n 11 t0) (\<lambda>_. below n 12 t0)"
    and "always (reconcileRoleDeployment P c rolePrefill sn base ov) (below n 12 t0) (\<lambda>_. below n 13 t0)"
    and "always (reconcileRouterDeployment P c sn smn san base) (below n 13 t0) (\<lambda>_. below n 14 t0)"
    and "always (reconcileShardMapConfigMap P c (n @ ''-shardmap'') base json) (below n 15 t0) (\<lambda>_. below n 16 t0)"
    and "always (reconcileSignalsConfigMap P c (n @ ''-signals'') base) (below n 3 t0) (\<lambda>_. below n 4 t0)"
  unfolding reconcile_object_defs
  by (rule rank_createOrUpdate; simp add: assms)+

lemma rank_routerRBAC:
  "always (reconcileRouterRBAC P c m base) (below n 8 t0) (\<lambda>_. below n 11 t0)"
  unfolding reconcileRouterRBAC_def Let_def
  by (rule rank_andThen [where j = 9], rule rank_createOrUpdate, simp_all)
    (rule rank_andThen [where j = 10], (rule rank_createOrUpdate; simp)+, simp)

lemma rank_computeDecodeReplicas:
  "always (computeDecodeReplicas P c m) (below n 4 t0) (\<lambda>_. below n 5 t0)"
proof -
  have "always (Read P a) (below n 4 t0) (\<lambda>_. below n 5 t0)" for a
    by (cases a) (auto simp: FakeConfigMapAdapter_Read_def PrometheusAdapter_Read_def
      intro!: rank_andThen [where j = 5] rank_invoke rank_ret rank_lift)
  then show ?thesis
    unfolding computeDecodeReplicas_def computeDesired_def
    by (intro rank_andThen [where j = 5] rank_ret) simp_all
qed

lemma rank_reconcileShards:
  "n = Name (metadata c) \<Longrightarrow>
    always (reconcileShards P orig c base dp pp) (below n 14 t0) (\<lambda>_. below n 17 t0)"
  unfolding reconcileShards_def Let_def
  by (rule rank_onErr [OF rank_computeShardMap rank_requeueDegraded])
    (auto intro!: rank_onErr [where j = 16] rank_objects rank_requeueDegraded rank_finishStatus)

lemma rank_reconcileChildren:
  assumes n: "n = Name (metadata c)"
  shows "always (reconcileChildren P orig c base ov) (below n 5 t0) (\<lambda>_. below n 17 t0)"
  unfolding reconcileChildren_def Let_def n [symmetric]
proof (intro rank_andThen rank_onErr)
  show "always (lift_go (deref (ServicePort (Decode (Runtime (spec c)))))) (below n 5 t0) (\<lambda>_. below n 5 t0)"
    "always (lift_go (deref (ServicePort (Prefill (Runtime (spec c)))))) (below n 6 t0) (\<lambda>_. below n 6 t0)"
    by (rule rank_lift; simp)+
qed ((rule rank_objects [OF n] rank_routerRBAC rank_reconcileShards [OF n] rank_requeueDegraded; simp)+, simp_all)

lemma rank_withAutoscaling:
  assumes n: "n = Name (metadata c)"
  shows "always (withAutoscaling P c base (\<lambda>d ov. reconcileChildren P orig d base ov)) (below n 3 t0)
    (\<lambda>_. below n 17 t0)"
proof -
  have children: "always (reconcileChildren P orig d base ov) (below n k t0) (\<lambda>_. below n 17 t0)"
    if "metadata d = metadata c" "k \<le> 5" for d ov k
    using rank_reconcileChildren [of n d P orig base ov] n that by (auto intro: always_pre below_mono)
  have scaled: "always (case x of (replicas, scaling) \<Rightarrow> andThen (clock P) (\<lambda>now.
      reconcileChildren P orig (setCondition P c (scalingCondition c replicas scaling now)) base (Some replicas)))
      (below n 5 t0) (\<lambda>_. below n 17 t0)" for x
    by (cases x) (auto intro!: rank_andThen [OF rank_clock] children)
  have "always (onErr (reconcileSignalsConfigMap P c (n @ ''-signals'') base) (requeueDegraded P c)
      (\<lambda>_. onErr (computeDecodeReplicas P c (n @ ''-signals'')) (requeueDegraded P c)
        (\<lambda>(replicas, scaling). andThen (clock P) (\<lambda>now. reconcileChildren P orig
          (setCondition P c (scalingCondition c replicas scaling now)) base (Some replicas)))))
      (below n 3 t0) (\<lambda>_. below n 17 t0)"
    by (rule rank_onErr [OF rank_objects(8) [OF n]])
      ((rule rank_requeueDegraded rank_onErr [OF rank_computeDecodeReplicas] scaled; simp)+, simp)
  then show ?thesis
    using children [of c 3 None] unfolding withAutoscaling_def Let_def n [symmetric]
    by (cases "Enabled (Autoscaling (spec c)) = Some True") simp_all
qed

text \<open>Before the name is known the place of a call does not depend on it.\<close>

lemma rank_ensureFinalizer:
  "always (ensureFinalizer P c (reconcileLive P orig)) (\<lambda>w. \<forall>n. below n 2 t0 w) (\<lambda>_ w. \<exists>n. below n 17 t0 w)"
proof -
  have go_on: "always (reconcileLive P orig d) (\<lambda>w. \<forall>n. below n 3 t0 w) (\<lambda>_ w. \<exists>n. below n 17 t0 w)" for d
    unfolding reconcileLive_def Let_def by (rule always_weaken [OF rank_withAutoscaling [OF refl]]) auto
  have upd: "always (invoke (CallUpdate d) f) (\<lambda>w. \<forall>n. below n 2 t0 w) (\<lambda>_ w. \<forall>n. below n 3 t0 w)" for d f
    using rank_invoke [of 2 _ "CallUpdate d" 3 f t0] by (fastforce simp: always_def)
  have "always (onErr (invoke (CallUpdate d) f) (\<lambda>e. ret (noRequeue, Some e)) (reconcileLive P orig))
      (\<lambda>w. \<forall>n. below n 2 t0 w) (\<lambda>_ w. \<exists>n. below n 17 t0 w)" for d f
    by (rule always_onErr [OF always_post [OF upd] always_ret go_on])
      (auto split: go.split elim!: below_ex)
  moreover have "always (reconcileLive P orig c)
      (\<lambda>w. \<forall>n. below n 2 t0 w) (\<lambda>_ w. \<exists>n. below n 17 t0 w)"
    by (rule always_pre [OF go_on]) (auto intro: below_mono)
  ultimately show ?thesis by (simp add: ensureFinalizer_def Let_def)
qed

lemma rank_Reconcile: "always (Reconcile P req) (\<lambda>w. calls w = t0) (\<lambda>_ w. \<exists>n. below n 17 t0 w)"
proof -
  have get: "always (invoke (CallGet req) f) (\<lambda>w. calls w = t0) (\<lambda>_ w. \<forall>n. below n 1 t0 w)" for f
    by (rule alwaysI) (auto simp: below_def dest!: invoke_calls)
  have patch: "always (invoke (CallPatch d c) f) (\<lambda>w. \<forall>n. below n 1 t0 w) (\<lambda>_ w. \<forall>n. below n 2 t0 w)" for d c f
    using rank_invoke [of 1 _ "CallPatch d c" 2 f t0] by (fastforce simp: always_def)
  have upd: "always (invoke (CallUpdate d) f) (\<lambda>w. \<forall>n. below n 2 t0 w) (\<lambda>_ w. \<forall>n. below n 3 t0 w)" for d f
    using rank_invoke [of 2 _ "CallUpdate d" 3 f t0] by (fastforce simp: always_def)
  have delete: "always (reconcileDelete P c) (\<lambda>w. \<forall>n. below n 2 t0 w) (\<lambda>_ w. \<exists>n. below n 17 t0 w)" for c
  proof (cases "hasFinalizer P c")
    case True
    then show ?thesis
      unfolding reconcileDelete_def Let_def
      by (simp, intro always_onErr [OF always_post [OF upd]] always_ret) (auto split: go.split elim!: below_ex)
  next
    case False
    then show ?thesis by (auto simp: reconcileDelete_def intro!: always_ret elim!: below_ex)
  qed
  have rest: "always (reconcilePatched P orig c) (\<lambda>w. \<forall>n. below n 2 t0 w) (\<lambda>_ w. \<exists>n. below n 17 t0 w)" for c orig
    unfolding reconcilePatched_def by (intro always_if delete rank_ensureFinalizer)
  show ?thesis
    unfolding Reconcile_def
  proof (rule always_onErr [OF always_post [OF get]])
    fix c
    show "always (let cluster = c\<lparr>spec := applyDefaults (spec c)\<rparr> in
        onErr (invoke (CallPatch cluster c) (ClientPatch P cluster c)) (\<lambda>e. ret (noRequeue, Some e))
          (reconcilePatched P c))
      (\<lambda>w. \<forall>n. below n 1 t0 w) (\<lambda>_ w. \<exists>n. below n 17 t0 w)"
      unfolding Let_def [of "c\<lparr>spec := applyDefaults (spec c)\<rparr>"]
      by (rule always_onErr [OF always_post [OF patch] always_ret rest]) (auto split: go.split elim!: below_ex)
  qed (auto split: go.split intro!: always_ret elim!: below_ex)
qed

section \<open>Errors\<close>

text \<open>
  An error is reported in the status by the last call of the run, or it is the error of a call on the
  resource itself, which the run returns as it is.
\<close>

definition reports :: "error \<Rightarrow> call \<Rightarrow> bool" where
  "reports e c \<longleftrightarrow>
     (\<exists>d. c = CallStatusUpdate d \<and>
        has_condition d ''Ready'' ''False'' ''Error'' (Error e) \<and>
        has_condition d ''Degraded'' ''True'' ''ReconcileError'' (Error e))"

text \<open>
  The call on the resource failed with this error and left the outside world in the state \<open>x'\<close>; a
  missing resource is not a failure.
\<close>

fun failed_with :: "'w platform \<Rightarrow> call \<Rightarrow> error \<Rightarrow> 'w \<Rightarrow> bool" where
  "failed_with P (CallGet key) e x' = (\<not> IsNotFound e \<and> (\<exists>x. ClientGet P key x = (Inl e, x')))"
| "failed_with P (CallPatch c orig) e x' = (\<exists>x. ClientPatch P c orig x = (Inl e, x'))"
| "failed_with P (CallUpdate c) e x' = (\<exists>x. ClientUpdate P c x = (Inl e, x'))"
| "failed_with P (CallStatusPatch c orig) e x' = (\<exists>x. StatusPatch P c orig x = (Inl e, x'))"
| "failed_with P _ e x' = False"

definition err_post :: "'w platform \<Rightarrow> reconcile_result go \<Rightarrow> 'w world \<Rightarrow> bool" where
  "err_post P r w \<longleftrightarrow>
     (\<forall>res e. r = Ok (res, Some e) \<longrightarrow> calls w \<noteq> [] \<and>
        (RequeueAfter res = 5 \<and> reports e (last (calls w)) \<or>
         RequeueAfter res = 0 \<and> failed_with P (last (calls w)) e (env w)))"

abbreviation err_safe :: "'w platform \<Rightarrow> ('w world, reconcile_result) comp \<Rightarrow> bool" where
  "err_safe P m \<equiv> always m (\<lambda>_. True) (err_post P)"

lemma err_andThen: "(\<And>a. err_safe P (f a)) \<Longrightarrow> err_safe P (andThen m f)"
  by (rule always_andThen [where I = "\<lambda>_ _. True"])
    (auto simp: err_post_def intro!: alwaysI split: go.split)

lemma err_onErr: "(\<And>e. err_safe P (h e)) \<Longrightarrow> (\<And>a. err_safe P (f a)) \<Longrightarrow> err_safe P (onErr m h f)"
  by (rule always_onErr [where I = "\<lambda>_ _. True" and H = "\<lambda>_ _. True"])
    (auto simp: err_post_def intro!: alwaysI split: go.split)

lemma err_ret: "err_safe P (ret (res, None))"
  by (rule always_ret) (simp add: err_post_def)

lemma failed_invoke:
  "always (invoke c g) (\<lambda>_. True)
    (\<lambda>r w. calls w \<noteq> [] \<and> last (calls w) = c \<and> r \<noteq> Panic \<and> (\<forall>e. r = Err e \<longrightarrow> (\<exists>x. g x = (Inl e, env w))))"
  by (rule always_invoke) auto

lemma err_invoke:
  assumes "\<And>x e x'. g x = (Inl e, x') \<Longrightarrow> failed_with P c e x'" "\<And>a. err_safe P (f a)"
  shows "err_safe P (onErr (invoke c g) (\<lambda>e. ret (noRequeue, Some e)) f)"
proof (rule always_onErr [where I = "\<lambda>_ _. True" and H = "\<lambda>e w. calls w \<noteq> [] \<and> failed_with P (last (calls w)) e (env w)"])
  show "always (invoke c g) (\<lambda>_. True) (\<lambda>r w. case r of Ok a \<Rightarrow> True
    | Err e \<Rightarrow> calls w \<noteq> [] \<and> failed_with P (last (calls w)) e (env w) | Panic \<Rightarrow> err_post P Panic w)"
    by (rule always_post [OF failed_invoke]) (use assms(1) in \<open>auto split: go.split\<close>)
qed (use assms(2) in \<open>auto intro!: always_ret simp: err_post_def noRequeue_def\<close>)

lemma err_requeueDegraded:
  assumes law: "condition_law P"
  shows "err_safe P (requeueDegraded P c e)"
  unfolding requeueDegraded_def Let_def
proof (intro err_andThen)
  fix now1 now2
  define c1 where "c1 = setCondition P c (condition c conditionReady ''False'' ''Error'' (Error e) now1)"
  define c2 where "c2 = setCondition P c1 (condition c1 conditionDegraded ''True'' ''ReconcileError'' (Error e) now2)"
  have "has_condition c2 ''Ready'' ''False'' ''Error'' (Error e)"
    using has_condition_set [OF law, of c c conditionReady] law
    unfolding c2_def c1_def by (subst has_condition_other) (simp_all add: condition_types)
  moreover have "has_condition c2 ''Degraded'' ''True'' ''ReconcileError'' (Error e)"
    using has_condition_set [OF law, of c1 c1 conditionDegraded] unfolding c2_def by (simp add: condition_types)
  ultimately have rep: "reports e (CallStatusUpdate c2)" by (simp add: reports_def)
  show "err_safe P (onErr (invoke (CallStatusUpdate c2) (StatusUpdate P c2))
      (\<lambda>_. ret (\<lparr>RequeueAfter = 5\<rparr>, Some e)) (\<lambda>_. ret (\<lparr>RequeueAfter = 5\<rparr>, Some e)))"
  proof (rule always_onErr)
    show "always (invoke (CallStatusUpdate c2) (StatusUpdate P c2)) (\<lambda>_. True)
      (\<lambda>r w. case r of
         Ok a \<Rightarrow> calls w \<noteq> [] \<and> last (calls w) = CallStatusUpdate c2
       | Err e \<Rightarrow> calls w \<noteq> [] \<and> last (calls w) = CallStatusUpdate c2
       | Panic \<Rightarrow> err_post P Panic w)"
      by (rule alwaysI) (auto dest!: invoke_calls simp: err_post_def split: go.split)
  qed (use rep in \<open>auto intro!: always_ret simp: err_post_def\<close>)
qed

lemma err_split: "(\<And>a b. err_safe P (f a b)) \<Longrightarrow> err_safe P (case x of (a, b) \<Rightarrow> f a b)"
  by (cases x) simp

lemma err_Reconcile:
  assumes law: "condition_law P"
  shows "err_safe P (Reconcile P req)"
proof -
  note fail = err_requeueDegraded [OF law]
  have finish: "err_safe P (finishStatus P orig c dp pp)" for orig c dp pp
    unfolding finishStatus_def Let_def by (intro err_andThen err_invoke err_ret) auto
  have shards: "err_safe P (reconcileShards P orig c base dp pp)" for orig c base dp pp
    unfolding reconcileShards_def Let_def by (intro err_onErr err_split fail finish)
  have children: "err_safe P (reconcileChildren P orig c base ov)" for orig c base ov
    unfolding reconcileChildren_def Let_def by (intro err_andThen err_onErr fail shards)
  have scaling: "err_safe P (withAutoscaling P c base (\<lambda>d ov. reconcileChildren P orig d base ov))" for orig c base
    unfolding withAutoscaling_def Let_def
    by (intro always_if err_onErr err_andThen err_split fail children)
  have delete: "err_safe P (reconcileDelete P c)" for c
    unfolding reconcileDelete_def Let_def by (intro always_if err_invoke err_ret) auto
  have live: "err_safe P (ensureFinalizer P c (reconcileLive P orig))" for orig c
    unfolding ensureFinalizer_def reconcileLive_def [abs_def] Let_def by (intro always_if err_invoke scaling) auto
  have patched: "err_safe P (let cluster = orig\<lparr>spec := applyDefaults (spec orig)\<rparr> in
      onErr (invoke (CallPatch cluster orig) (ClientPatch P cluster orig)) (\<lambda>e. ret (noRequeue, Some e))
        (reconcilePatched P orig))" for orig
    unfolding Let_def [of "orig\<lparr>spec := applyDefaults (spec orig)\<rparr>"] reconcilePatched_def [abs_def]
    by (intro err_invoke always_if delete live) auto
  show ?thesis
    unfolding Reconcile_def
  proof (rule always_onErr)
    show "always (invoke (CallGet req) (ClientGet P req)) (\<lambda>_. True)
      (\<lambda>r w. case r of Ok a \<Rightarrow> True
        | Err e \<Rightarrow> calls w \<noteq> [] \<and> last (calls w) = CallGet req \<and> (\<exists>x. ClientGet P req x = (Inl e, env w))
        | Panic \<Rightarrow> err_post P Panic w)"
      by (rule always_post [OF failed_invoke]) (auto split: go.split)
  qed (rule patched | (auto intro!: always_ret simp: err_post_def noRequeue_def)[1])+
qed

end
