(* ===== verification/MemServer.thy ===== *)
theory MemServer
  imports Contracts
begin

text \<open>
  An API server and library functions in memory that keep the contract of \<open>Contracts\<close>. They show that
  the hypotheses of the theorems can hold together and let concrete reconciliations be evaluated.
\<close>

section \<open>The server\<close>

record memServer =
  ms_objects :: store
  ms_clusters :: cluster_store
  ms_pods :: "(string \<times> bool) list"
  ms_now :: Time

definition memCou :: "kind \<Rightarrow> ('o \<Rightarrow> ObjectMeta) \<Rightarrow> ('o \<Rightarrow> 'o) \<Rightarrow> ('o \<Rightarrow> object) \<Rightarrow> (object \<Rightarrow> 'o option) \<Rightarrow> (memServer, 'o) cou" where
  "memCou kd meta server wrap unwrap obj mutate s =
     (let k = (kd, key_of (meta obj)) in
      case map_go server (mutate (case stored unwrap k (ms_objects s) of None \<Rightarrow> obj | Some o0 \<Rightarrow> o0)) of
        Ok y \<Rightarrow>
          if key_of (meta y) = snd k
          then (Ok y, s\<lparr>ms_objects := (ms_objects s)(k \<mapsto> wrap y)\<rparr>)
          else (Err (OtherError ''MutateFn cannot mutate object name and/or object namespace''), s)
      | Err e \<Rightarrow> (Err e, s)
      | Panic \<Rightarrow> (Panic, s))"

definition memMissing :: error where
  "memMissing = NotFoundError ''not found''"

definition memGet :: "NamespacedName \<Rightarrow> (memServer, LLMInferenceCluster) api" where
  "memGet key s =
     (case ms_clusters s key of
        None \<Rightarrow> (Inl memMissing, s)
      | Some c \<Rightarrow> if key_of (metadata c) = key then (Inr c, s) else (Inl (OtherError ''bad key''), s))"

definition memPut :: "LLMInferenceCluster \<Rightarrow> (memServer, LLMInferenceCluster) api" where
  "memPut c s =
     (let key = key_of (metadata c) in
      case ms_clusters s key of
        None \<Rightarrow> (Inl memMissing, s)
      | Some old \<Rightarrow>
          let c' = c\<lparr>status := status old\<rparr> in
          (Inr c', s\<lparr>ms_clusters := (ms_clusters s)(key :=
             (if DeletionTimestamp (metadata c) \<noteq> None \<and> Finalizers (metadata c) = [] then None else Some c'))\<rparr>))"

definition memPatch :: "LLMInferenceCluster \<Rightarrow> LLMInferenceCluster \<Rightarrow> (memServer, LLMInferenceCluster) api" where
  "memPatch c orig s =
     (let key = key_of (metadata c) in
      case ms_clusters s key of
        None \<Rightarrow> (Inl memMissing, s)
      | Some old \<Rightarrow>
          let c' = c\<lparr>status := status old\<rparr> in (Inr c', s\<lparr>ms_clusters := (ms_clusters s)(key \<mapsto> c')\<rparr>))"

definition memStatus :: "LLMInferenceCluster \<Rightarrow> (memServer, LLMInferenceCluster) api" where
  "memStatus c s =
     (let key = key_of (metadata c) in
      case ms_clusters s key of
        None \<Rightarrow> (Inl memMissing, s)
      | Some old \<Rightarrow>
          let c' = old\<lparr>status := status c\<rparr> in (Inr c', s\<lparr>ms_clusters := (ms_clusters s)(key \<mapsto> c')\<rparr>))"

definition memConfigMap :: "NamespacedName \<Rightarrow> (memServer, ConfigMap) api" where
  "memConfigMap key s =
     (case stored asConfigMap (KConfigMap, key) (ms_objects s) of
        None \<Rightarrow> (Inl memMissing, s)
      | Some cm \<Rightarrow> (Inr cm, s))"

text \<open>Every pod of this server carries the labels asked for.\<close>

definition memPods :: "string \<Rightarrow> labels \<Rightarrow> (memServer, Pod list) api" where
  "memPods ns sel s =
     (Inr (map (\<lambda>(n, ready). \<lparr>pod_meta = (new_meta ns n)\<lparr>Labels := sel\<rparr>,
               pod_Conditions = (if ready then [\<lparr>pc_Type = ''Ready'', pc_Status = ''True''\<rparr>] else [])\<rparr>)
            (filter (\<lambda>(n, ready). ascii n) (ms_pods s))), s)"

section \<open>Library functions\<close>

definition memSetCondition :: "Condition list \<Rightarrow> Condition \<Rightarrow> Condition list" where
  "memSetCondition cs c =
     (case find_condition (cond_Type c) cs of
        None \<Rightarrow> cs @ [c]
      | Some d \<Rightarrow> map (\<lambda>x. if cond_Type x = cond_Type c
          then (if cond_Status d = cond_Status c then c\<lparr>cond_LastTransitionTime := cond_LastTransitionTime d\<rparr> else c)
          else x) cs)"

definition memSetOwner :: "ObjectMeta \<Rightarrow> ObjectMeta \<Rightarrow> error + ObjectMeta" where
  "memSetOwner owner m =
     (let ref = \<lparr>owner_Name = Name owner, owner_UID = UID owner, owner_Controller = True\<rparr> in
      if Namespace owner \<noteq> Namespace m then Inl (OtherError ''cross-namespace owner references are disallowed'')
      else if list_ex (\<lambda>r. owner_Controller r \<and> owner_Name r \<noteq> Name owner) (OwnerReferences m)
      then Inl (OtherError ''already owned by another controller'')
      else if list_ex (\<lambda>r. owner_Name r = Name owner) (OwnerReferences m)
      then Inr (m\<lparr>OwnerReferences := map (\<lambda>r. if owner_Name r = Name owner then ref else r) (OwnerReferences m)\<rparr>)
      else Inr (m\<lparr>OwnerReferences := OwnerReferences m @ [ref]\<rparr>))"

fun insert_by :: "('a \<Rightarrow> 'a \<Rightarrow> bool) \<Rightarrow> 'a \<Rightarrow> 'a list \<Rightarrow> 'a list" where
  "insert_by lt x [] = [x]"
| "insert_by lt x (y # ys) = (if lt y x then y # insert_by lt x ys else x # y # ys)"

definition sort_by :: "('a \<Rightarrow> 'a \<Rightarrow> bool) \<Rightarrow> 'a list \<Rightarrow> 'a list" where
  "sort_by lt xs = foldr (insert_by lt) xs []"

definition mem :: "memServer platform" where
  "mem =
     \<lparr>ClientGet = memGet, ClientPatch = memPatch, ClientUpdate = memPut,
      StatusPatch = (\<lambda>c orig. memStatus c), StatusUpdate = memStatus,
      GetConfigMap = memConfigMap, ListPods = memPods,
      CouService = memCou KService svc_meta (\<lambda>x. x) OService asService,
      CouDeployment = memCou KDeployment dep_meta serverDeployment ODeployment asDeployment,
      CouServiceAccount = memCou KServiceAccount sa_meta (\<lambda>x. x) OServiceAccount asServiceAccount,
      CouRole = memCou KRole role_meta (\<lambda>x. x) ORole asRole,
      CouRoleBinding = memCou KRoleBinding rb_meta (\<lambda>x. x) ORoleBinding asRoleBinding,
      CouConfigMap = memCou KConfigMap cm_meta (\<lambda>x. x) OConfigMap asConfigMap,
      Now = (\<lambda>s. (ms_now s, s\<lparr>ms_now := ms_now s + 1\<rparr>)),
      SetStatusCondition = memSetCondition, SetControllerReference = memSetOwner,
      ContainsFinalizer = (\<lambda>fs f. f \<in> set fs),
      AddFinalizer = (\<lambda>fs f. if f \<in> set fs then fs else fs @ [f]),
      RemoveFinalizer = (\<lambda>fs f. filter (\<lambda>g. g \<noteq> f) fs),
      SliceSort = sort_by\<rparr>"

section \<open>It keeps the contract\<close>

lemma memCou_law:
  assumes "\<And>y. put (meta y) y = y"
  shows "cou_law ms_objects ms_clusters kd meta put server wrap unwrap (memCou kd meta server wrap unwrap)"
  unfolding cou_law_def
  by (auto simp: memCou_def Let_def writes_def assms split: go.splits if_splits)

lemma mem_cou_laws: "cou_laws mem ms_objects ms_clusters"
  unfolding cou_laws_def by (intro conjI; simp add: mem_def; rule memCou_law; simp)

lemma mem_cluster_laws: "cluster_laws mem ms_objects ms_clusters"
  unfolding cluster_laws_def
proof (intro conjI)
  show "get_law mem ms_objects ms_clusters"
    unfolding get_law_def by (auto simp: mem_def memGet_def memMissing_def split: option.splits if_splits)
  show "patch_law mem ms_objects ms_clusters"
    unfolding patch_law_def by (auto simp: mem_def memPatch_def Let_def split: option.splits)
  show "update_law mem ms_objects ms_clusters"
    unfolding update_law_def by (auto simp: mem_def memPut_def Let_def split: option.splits if_splits)
  show "status_patch_law mem ms_objects ms_clusters"
    unfolding status_patch_law_def by (auto simp: mem_def memStatus_def Let_def split: option.splits)
  show "status_update_law mem ms_objects ms_clusters"
    unfolding status_update_law_def by (auto simp: mem_def memStatus_def Let_def split: option.splits)
  show "read_law mem ms_objects ms_clusters"
    unfolding read_law_def
    by (auto simp: mem_def memConfigMap_def memPods_def listed_def list_all_iff split: option.splits)
qed

lemma find_map_replace:
  assumes "\<And>x. cond_Type (f x) = cond_Type x" "\<And>x. cond_Type x \<noteq> ty \<Longrightarrow> f x = x" "\<And>x. cond_Type x = ty \<Longrightarrow> f x = r"
  shows "find_condition t (map f cs) =
    (if t = ty then map_option (\<lambda>_. r) (find_condition t cs) else find_condition t cs)"
  by (induction cs) (use assms in \<open>auto simp: find_condition_def\<close>)

lemma find_condition_append:
  "find_condition t (cs @ [c]) =
    (case find_condition t cs of None \<Rightarrow> if cond_Type c = t then Some c else None | Some d \<Rightarrow> Some d)"
  by (induction cs) (auto simp: find_condition_def)

lemma mem_condition_law: "condition_law mem"
  unfolding condition_law_def
proof (intro allI conjI)
  fix cs and c :: Condition
  let ?r = "\<lambda>d. if cond_Status d = cond_Status c then c\<lparr>cond_LastTransitionTime := cond_LastTransitionTime d\<rparr> else c"
  have rep: "find_condition t (map (\<lambda>x. if cond_Type x = cond_Type c then ?r d else x) cs) =
      (if t = cond_Type c then map_option (\<lambda>_. ?r d) (find_condition t cs) else find_condition t cs)" for t d
    by (rule find_map_replace) auto
  have same: "\<exists>d. c = c\<lparr>cond_LastTransitionTime := d\<rparr>"
    by (intro exI [of _ "cond_LastTransitionTime c"]) simp
  show "\<exists>d. find_condition (cond_Type c) (SetStatusCondition mem cs c) = Some (c\<lparr>cond_LastTransitionTime := d\<rparr>)"
  proof (cases "find_condition (cond_Type c) cs")
    case None
    then show ?thesis using same
      by (simp add: mem_def memSetCondition_def find_condition_append)
  next
    case (Some d)
    then have "find_condition (cond_Type c) (SetStatusCondition mem cs c) = Some (?r d)"
      using rep [of "cond_Type c" d] by (simp add: mem_def memSetCondition_def)
    then show ?thesis using same by (cases "cond_Status d = cond_Status c") auto
  qed
  show "t \<noteq> cond_Type c \<longrightarrow> find_condition t (SetStatusCondition mem cs c) = find_condition t cs" for t
  proof (cases "find_condition (cond_Type c) cs")
    case (Some d)
    then show ?thesis using rep [of t d] by (simp add: mem_def memSetCondition_def)
  qed (simp add: mem_def memSetCondition_def find_condition_append split: option.split)
qed

lemma memSetOwner_Inr:
  assumes "memSetOwner owner m = Inr m'"
  shows "m' = m\<lparr>OwnerReferences := OwnerReferences m'\<rparr>" "Namespace m = Namespace owner"
    and "\<lparr>owner_Name = Name owner, owner_UID = UID owner, owner_Controller = True\<rparr> \<in> set (OwnerReferences m')"
    and "r \<in> set (OwnerReferences m') \<Longrightarrow> owner_Name r = Name owner \<Longrightarrow>
      r = \<lparr>owner_Name = Name owner, owner_UID = UID owner, owner_Controller = True\<rparr>"
    and "r \<in> set (OwnerReferences m') \<Longrightarrow> owner_Controller r \<Longrightarrow> owner_Name r = Name owner"
  using assms by (auto simp: memSetOwner_def Let_def list_ex_iff image_iff split: if_splits)

lemma memSetOwner_again:
  assumes "memSetOwner owner m = Inr m'" "OwnerReferences n = OwnerReferences m'" "Namespace n = Namespace m"
  shows "memSetOwner owner n = Inr n"
proof -
  note R = memSetOwner_Inr [OF assms(1)]
  let ?ref = "\<lparr>owner_Name = Name owner, owner_UID = UID owner, owner_Controller = True\<rparr>"
  have "map (\<lambda>r. if owner_Name r = Name owner then ?ref else r) (OwnerReferences n) = OwnerReferences n"
    using R(4) by (auto simp: assms(2) intro!: map_idI)
  moreover have "list_ex (\<lambda>r. owner_Name r = Name owner) (OwnerReferences n)"
    using R(3) by (auto simp: assms(2) list_ex_iff intro!: bexI [of _ ?ref])
  moreover have "\<not> list_ex (\<lambda>r. owner_Controller r \<and> owner_Name r \<noteq> Name owner) (OwnerReferences n)"
    using R(5) by (auto simp: assms(2) list_ex_iff)
  ultimately show ?thesis using R(2) assms(3) by (simp add: memSetOwner_def Let_def)
qed

lemma mem_owner_law: "owner_law mem"
proof -
  have "owned_by o1 m'" if "memSetOwner o1 m = Inr m'" for o1 m m'
    unfolding owned_by_def by (rule bexI [OF _ memSetOwner_Inr(3) [OF that]]) simp
  moreover have "SetControllerReference mem = memSetOwner" by (simp add: mem_def)
  ultimately show ?thesis
    unfolding owner_law_def by (metis memSetOwner_Inr(1) memSetOwner_again)
qed

lemma mset_insert_by [simp]: "mset (insert_by lt x xs) = add_mset x (mset xs)"
  by (induction xs) auto

lemma set_insert_by [simp]: "set (insert_by lt x xs) = insert x (set xs)"
  by (induction xs) auto

lemma sorted_insert_by:
  assumes "strict_weak_order lt" "sorted_wrt (\<lambda>a b. \<not> lt b a) xs"
  shows "sorted_wrt (\<lambda>a b. \<not> lt b a) (insert_by lt x xs)"
  using assms(2)
proof (induction xs)
  case (Cons y ys)
  have trans: "\<not> lt c a" if "\<not> lt b a" "\<not> lt c b" for a b c
    using assms(1) that unfolding strict_weak_order_def by blast
  have asym: "\<not> lt x y" if "lt y x"
    using assms(1) that unfolding strict_weak_order_def by blast
  show ?case using Cons asym trans by auto
qed simp

lemma mem_sort_law: "sort_law mem"
  unfolding sort_law_def
proof (intro allI impI conjI)
  fix lt :: "CoreEnvVar \<Rightarrow> CoreEnvVar \<Rightarrow> bool" and xs
  assume lt: "strict_weak_order lt"
  show "mset (SliceSort mem lt xs) = mset xs" by (simp add: mem_def sort_by_def) (induction xs; simp)
  show "sorted_wrt (\<lambda>a b. \<not> lt b a) (SliceSort mem lt xs)"
    by (simp add: mem_def sort_by_def) (induction xs; simp add: sorted_insert_by [OF lt])
qed

lemma mem_library_laws: "library_laws mem"
  unfolding library_laws_def
  by (intro conjI mem_condition_law mem_owner_law mem_sort_law) (simp add: finalizer_law_def mem_def)

theorem mem_contract: "contract mem ms_objects ms_clusters"
  unfolding contract_def by (intro conjI mem_cou_laws mem_cluster_laws mem_library_laws)

end
