(* ===== verification/Progress.thy ===== *)
theory Progress
  imports Guarantees
begin

text \<open>
  Progress: when the API server answers every call without an error and no child object is controlled
  by somebody else, a reconciliation succeeds. The server's part is a second contract, \<open>responsive\<close>,
  beside the laws of \<open>Contracts\<close>.
\<close>

section \<open>A responsive server\<close>

definition childSuffixes :: "string list" where
  "childSuffixes = [''-decode'', ''-prefill'', ''-router'', ''-shardmap'', ''-signals'']"

fun object_meta :: "object \<Rightarrow> ObjectMeta" where
  "object_meta (OService x) = svc_meta x"
| "object_meta (ODeployment x) = dep_meta x"
| "object_meta (OServiceAccount x) = sa_meta x"
| "object_meta (ORole x) = role_meta x"
| "object_meta (ORoleBinding x) = rb_meta x"
| "object_meta (OConfigMap x) = cm_meta x"

text \<open>No controller but the owner.\<close>

definition no_foreign :: "ObjectMeta \<Rightarrow> ObjectMeta \<Rightarrow> bool" where
  "no_foreign owner m \<longleftrightarrow> list_all (\<lambda>r. owner_Controller r \<longrightarrow> owner_Name r = Name owner) (OwnerReferences m)"

definition unclaimed :: "ObjectMeta \<Rightarrow> store \<Rightarrow> bool" where
  "unclaimed owner st \<longleftrightarrow>
     (\<forall>kd suf x. suf \<in> set childSuffixes \<longrightarrow> st (kd, Namespace owner, Name owner @ suf) = Some x \<longrightarrow>
        key_of (object_meta x) = (Namespace owner, Name owner @ suf) \<and> no_foreign owner (object_meta x))"

lemma unclaimedD:
  "unclaimed owner st \<Longrightarrow> suf \<in> set childSuffixes \<Longrightarrow> st (kd, Namespace owner, Name owner @ suf) = Some x \<Longrightarrow>
    key_of (object_meta x) = (Namespace owner, Name owner @ suf) \<and> no_foreign owner (object_meta x)"
  unfolding unclaimed_def by blast

lemma unclaimed_write:
  "unclaimed owner st \<Longrightarrow> key_of (object_meta x) = snd k \<Longrightarrow> no_foreign owner (object_meta x) \<Longrightarrow>
    unclaimed owner (st(k \<mapsto> x))"
  unfolding unclaimed_def by (auto split: if_splits)

text \<open>\<open>SetControllerReference\<close> accepts an object of the owner's namespace that nobody else controls.\<close>

definition owner_ready :: "'w platform \<Rightarrow> bool" where
  "owner_ready P \<longleftrightarrow>
     (\<forall>owner m. Namespace m = Namespace owner \<longrightarrow> no_foreign owner m \<longrightarrow>
        (\<exists>m'. SetControllerReference P owner m = Inr m' \<and> no_foreign owner m'))"

definition cou_ready ::
  "('w \<Rightarrow> store) \<Rightarrow> kind \<Rightarrow> ('o \<Rightarrow> ObjectMeta) \<Rightarrow> (object \<Rightarrow> 'o option) \<Rightarrow> ('w, 'o) cou \<Rightarrow> bool" where
  "cou_ready view kd meta unwrap f \<longleftrightarrow>
     (\<forall>obj mutate x y.
        mutate (case stored unwrap (kd, key_of (meta obj)) (view x) of None \<Rightarrow> obj | Some o0 \<Rightarrow> o0) = Ok y \<longrightarrow>
        key_of (meta y) = key_of (meta obj) \<longrightarrow> (\<exists>y'. fst (f obj mutate x) = Ok y'))"

definition calls_ready :: "'w platform \<Rightarrow> ('w \<Rightarrow> store) \<Rightarrow> ('w \<Rightarrow> cluster_store) \<Rightarrow> bool" where
  "calls_ready P view crs \<longleftrightarrow>
     (\<forall>key c x. crs x key = Some c \<longrightarrow> key_of (metadata c) = key \<longrightarrow> fst (ClientGet P key x) = Inr c) \<and>
     (\<forall>c orig x. crs x (key_of (metadata c)) \<noteq> None \<longrightarrow>
        (\<exists>d. fst (ClientPatch P c orig x) = Inr d) \<and> (\<exists>d. fst (ClientUpdate P c x) = Inr d) \<and>
        (\<exists>d. fst (StatusPatch P c orig x) = Inr d)) \<and>
     (\<forall>key cm x. stored asConfigMap (KConfigMap, key) (view x) = Some cm \<longrightarrow> fst (GetConfigMap P key x) = Inr cm) \<and>
     (\<forall>ns sel x. \<exists>pods. fst (ListPods P ns sel x) = Inr pods)"

definition responsive :: "'w platform \<Rightarrow> ('w \<Rightarrow> store) \<Rightarrow> ('w \<Rightarrow> cluster_store) \<Rightarrow> bool" where
  "responsive P view crs \<longleftrightarrow>
     contract P view crs \<and> owner_ready P \<and> calls_ready P view crs \<and>
     cou_ready view KService svc_meta asService (CouService P) \<and>
     cou_ready view KDeployment dep_meta asDeployment (CouDeployment P) \<and>
     cou_ready view KServiceAccount sa_meta asServiceAccount (CouServiceAccount P) \<and>
     cou_ready view KRole role_meta asRole (CouRole P) \<and>
     cou_ready view KRoleBinding rb_meta asRoleBinding (CouRoleBinding P) \<and>
     cou_ready view KConfigMap cm_meta asConfigMap (CouConfigMap P)"

lemma responsiveD:
  assumes "responsive P view crs"
  shows "contract P view crs" "owner_ready P" "calls_ready P view crs"
    and "cou_ready view KService svc_meta asService (CouService P)"
    and "cou_ready view KDeployment dep_meta asDeployment (CouDeployment P)"
    and "cou_ready view KServiceAccount sa_meta asServiceAccount (CouServiceAccount P)"
    and "cou_ready view KRole role_meta asRole (CouRole P)"
    and "cou_ready view KRoleBinding rb_meta asRoleBinding (CouRoleBinding P)"
    and "cou_ready view KConfigMap cm_meta asConfigMap (CouConfigMap P)"
  using assms by (simp_all add: responsive_def)

section \<open>One call\<close>

definition ready ::
  "('w \<Rightarrow> store) \<Rightarrow> ('w \<Rightarrow> cluster_store) \<Rightarrow> cluster_store \<Rightarrow> ObjectMeta \<Rightarrow> 'w world \<Rightarrow> bool" where
  "ready view crs C owner w \<longleftrightarrow> between view crs C [] w \<and> unclaimed owner (view (env w))"

text \<open>The computation returns a value and keeps the invariant.\<close>

abbreviation answers ::
  "('w world \<Rightarrow> bool) \<Rightarrow> ('w world, 'a) comp \<Rightarrow> bool" where
  "answers I m \<equiv> always m I (\<lambda>r w. I w \<and> (\<exists>y. r = Ok y))"

lemma answers_onErr:
  assumes "answers I m" "\<And>y. always (f y) I Q"
  shows "always (onErr m h f) I Q"
  by (rule always_onErr [where I = "\<lambda>_. I" and H = "\<lambda>_ _. False"])
    (use assms in \<open>auto intro: always_post simp: always_def split: go.splits\<close>)

lemma answers_andThen:
  assumes "answers I m" "\<And>y. always (f y) I Q"
  shows "always (andThen m f) I Q"
  by (rule always_andThen [where I = "\<lambda>_. I"])
    (use assms in \<open>auto intro: always_post simp: always_def split: go.splits\<close>)

context owned_child
begin

lemma mutate_answers:
  assumes "owner_ready P" "fill x \<noteq> Panic" "Namespace (meta x) = Namespace (metadata cluster)"
    "no_foreign (metadata cluster) (meta x)"
  shows "\<exists>y. mutate x = Ok y"
proof -
  obtain z where z: "fill x = Ok z" using assms(2) fill_no_error [of x] by (cases "fill x") auto
  then have "Namespace (meta z) = Namespace (metadata cluster)" "no_foreign (metadata cluster) (meta z)"
    using assms(3,4) fill_meta [OF z] by (simp_all add: no_foreign_def)
  then show ?thesis
    using assms(1) z by (auto simp: mutate_eq withOwner_def setOwner_def owner_ready_def) (metis sum.case(2))
qed

lemma mutate_no_foreign:
  assumes "owner_ready P" "mutate x = Ok y" "Namespace (meta x) = Namespace (metadata cluster)"
    "no_foreign (metadata cluster) (meta x)"
  shows "no_foreign (metadata cluster) (meta y)"
proof -
  obtain z m where z: "fill x = Ok z" "SetControllerReference P (metadata cluster) (meta z) = Inr m" "y = put m z"
    using mutate_cases [OF assms(2)] .
  have "Namespace (meta z) = Namespace (metadata cluster)" "no_foreign (metadata cluster) (meta z)"
    using assms(3,4) fill_meta [OF z(1)] by (simp_all add: no_foreign_def)
  then have "no_foreign (metadata cluster) m" using assms(1) z(2) unfolding owner_ready_def by fastforce
  then show ?thesis using z(3) by simp
qed

text \<open>The object a step starts from: the empty one or the stored one, neither owned by somebody else.\<close>

lemma base_unclaimed:
  assumes "unclaimed (metadata cluster) st"
    and k: "k = (kd, Namespace (metadata cluster), Name (metadata cluster) @ suf)" "suf \<in> set childSuffixes"
    and obj: "key_of (meta obj) = snd k" "OwnerReferences (meta obj) = []"
    and wrap: "\<And>x. object_meta (wrap x) = meta x" "\<And>x y. unwrap x = Some y \<Longrightarrow> x = wrap y"
  shows "key_of (meta (case stored unwrap k st of None \<Rightarrow> obj | Some o0 \<Rightarrow> o0)) = snd k \<and>
    no_foreign (metadata cluster) (meta (case stored unwrap k st of None \<Rightarrow> obj | Some o0 \<Rightarrow> o0))"
proof (cases "stored unwrap k st")
  case None
  then show ?thesis using obj by (simp add: no_foreign_def)
next
  case (Some x)
  then have "st k = Some (wrap x)" using wrap(2) by (auto simp: stored_def bind_eq_Some_conv)
  then show ?thesis
    using unclaimedD [OF _ k(2), of "metadata cluster" st kd "wrap x"] assms(1) k(1) Some wrap(1) [of x] by simp
qed

lemma answers_stored:
  assumes law: "owner_law P" "owner_ready P" "cou_law view crs kd meta put server wrap unwrap f"
      "cou_ready view kd meta unwrap f"
    and closure: "\<And>x. mutate x = map_go server (closure x)" and server: "\<And>x. meta (server x) = meta x"
    and k: "k = (kd, Namespace (metadata cluster), Name (metadata cluster) @ suf)" "suf \<in> set childSuffixes"
    and obj: "key_of (meta obj) = snd k" "OwnerReferences (meta obj) = []"
    and wrap: "\<And>x. unwrap (wrap x) = Some x" "\<And>x. object_meta (wrap x) = meta x"
      "\<And>x y. unwrap x = Some y \<Longrightarrow> x = wrap y"
    and nopanic: "\<And>x st. deployments_ok st \<Longrightarrow> x = obj \<or> stored unwrap k st = Some x \<Longrightarrow> fill x \<noteq> Panic"
    and dep: "\<And>y. fill y \<noteq> Panic \<Longrightarrow> asDeployment (wrap y) = None \<or>
       (\<exists>d. asDeployment (wrap y) = Some d \<and> dep_Containers d \<noteq> Some [])"
  shows "answers (ready view crs C (metadata cluster)) (createOrUpdate kd meta f obj closure)"
proof (rule alwaysI)
  fix w r w'
  assume pre: "ready view crs C (metadata cluster) w" and run: "createOrUpdate kd meta f obj closure w = (r, w')"
  define base where "base = (case stored unwrap k (view (env w)) of None \<Rightarrow> obj | Some o0 \<Rightarrow> o0)"
  have kobj: "k = (kd, key_of (meta obj))" using k(1) obj(1) by simp
  have base: "key_of (meta base) = snd k \<and> no_foreign (metadata cluster) (meta base)"
    unfolding base_def using pre by (intro base_unclaimed [OF _ k obj wrap(2,3)]) (simp_all add: ready_def)
  have ns: "Namespace (meta base) = Namespace (metadata cluster)" using base k(1) by (simp add: key_of_def)
  have "fill base \<noteq> Panic"
    using nopanic [of "view (env w)" base] pre
    by (cases "stored unwrap k (view (env w))") (auto simp: ready_def between_def base_def)
  then obtain y where y: "mutate base = Ok y" using mutate_answers [OF law(2) _ ns] base by blast
  have "key_of (meta y) = key_of (meta obj)"
    using arg_cong [OF mutate_result(2) [OF law(1) y], of key_of] base obj(1) by (simp add: key_of_def)
  moreover obtain z where "closure base = Ok z" "meta z = meta y"
    using y closure [of base] server by (auto simp: map_go_Ok)
  ultimately have "\<exists>y'. fst (f obj closure (env w)) = Ok y'"
    using law(4) unfolding cou_ready_def base_def kobj by metis
  then have ok: "\<exists>y'. r = Ok y'" using run by (auto simp: createOrUpdate_def split: prod.splits)
  have call: "f obj closure (env w) = (r, env w')"
    using run by (auto simp: createOrUpdate_def split: prod.splits)
  have "always (createOrUpdate kd meta f obj closure) (between view crs C [])
      (step_post view crs C [(k, converged unwrap mutate)])"
    by (rule always_post [OF always_stored [OF law(1,3) closure kobj _ wrap(1) nopanic dep]]) auto
  then have "step_post view crs C [(k, converged unwrap mutate)] r w'"
    using pre run by (auto simp: ready_def dest: alwaysD)
  then have btw: "between view crs C [] w'" using ok by (auto simp: step_post_def dest: between_Nil)
  obtain y' where y': "r = Ok y'" using ok by blast
  have w: "writes meta put wrap k (mutate base) (view (env w)) y' (view (env w'))"
    using law(3) call y' unfolding cou_law_def Let_def base_def kobj closure by fastforce
  have "no_foreign (metadata cluster) (meta y')" "key_of (meta y') = snd k"
    using w y mutate_no_foreign [OF law(2) y ns] base
    by (auto simp: writes_def no_foreign_def server_metaD)
  then have "unclaimed (metadata cluster) (view (env w'))"
    using w pre wrap(2) [of y'] by (auto simp: writes_def ready_def intro!: unclaimed_write)
  with btw ok show "ready view crs C (metadata cluster) w' \<and> (\<exists>y. r = Ok y)" by (simp add: ready_def)
qed

lemmas answers_step = answers_stored [where server = "\<lambda>x. x" and closure = mutate, unfolded go.map_ident, OF _ _ _ _ refl refl]

end

section \<open>Every object\<close>

lemma as_inverse [simp]:
  "asService x = Some s \<longleftrightarrow> x = OService s" "asDeployment x = Some d \<longleftrightarrow> x = ODeployment d"
  "asServiceAccount x = Some a \<longleftrightarrow> x = OServiceAccount a" "asRole x = Some r \<longleftrightarrow> x = ORole r"
  "asRoleBinding x = Some b \<longleftrightarrow> x = ORoleBinding b" "asConfigMap x = Some m \<longleftrightarrow> x = OConfigMap m"
  by (cases x; auto)+

lemma childSuffixes_members:
  "''-decode'' \<in> set childSuffixes" "''-prefill'' \<in> set childSuffixes" "''-router'' \<in> set childSuffixes"
  "''-shardmap'' \<in> set childSuffixes" "''-signals'' \<in> set childSuffixes"
  by (simp_all add: childSuffixes_def)

lemma new_meta_unowned [simp]: "OwnerReferences (new_meta ns n) = []"
  by (simp add: new_meta_def)

lemmas answers_simps =
  childSuffixes_members emptyService_def emptyDeployment_def emptyServiceAccount_def emptyRole_def
  emptyRoleBinding_def emptyConfigMap_def

lemma answers_roleService:
  assumes r: "responsive P view crs" and suf: "suf \<in> set childSuffixes"
  shows "answers (ready view crs C (metadata c))
    (reconcileRoleService P c role (Name (metadata c) @ suf) port base)"
  unfolding reconcileRoleService_def
  by (rule roleService.answers_step [OF contractD(1) [OF responsiveD(1) [OF r]] responsiveD(2) [OF r]
      contract_cou(1) [OF responsiveD(1) [OF r]] responsiveD(4) [OF r] refl suf])
    (auto simp: answers_simps writeRoleService_def)

lemma answers_routerService:
  assumes r: "responsive P view crs"
  shows "answers (ready view crs C (metadata c))
    (reconcileRouterService P c (Name (metadata c) @ ''-router'') base)"
  unfolding reconcileRouterService_def
  by (rule routerService.answers_step [OF contractD(1) [OF responsiveD(1) [OF r]] responsiveD(2) [OF r]
      contract_cou(1) [OF responsiveD(1) [OF r]] responsiveD(4) [OF r] refl childSuffixes_members(3)])
    (auto simp: answers_simps writeRouterService_def)

lemma answers_roleDeployment:
  assumes r: "responsive P view crs" and suf: "''-'' @ role \<in> set childSuffixes"
  shows "answers (ready view crs C (metadata c))
    (reconcileRoleDeployment P c role n base ov)"
  unfolding reconcileRoleDeployment_def
  by (rule roleDeployment.answers_stored [OF contractD(1) [OF responsiveD(1) [OF r]] responsiveD(2) [OF r]
      contract_cou(2) [OF responsiveD(1) [OF r]] responsiveD(5) [OF r] storedRoleDeployment_def serverDeployment_meta(1) refl suf])
    (auto simp: answers_simps writeRoleDeployment_Panic dest: deployments_okD)

lemma answers_routerDeployment:
  assumes r: "responsive P view crs" and d: "defaulted (spec c)"
  shows "answers (ready view crs C (metadata c))
    (reconcileRouterDeployment P c sn n san base)"
  unfolding reconcileRouterDeployment_def
  by (rule routerDeployment.answers_stored [OF contractD(1) [OF responsiveD(1) [OF r]] responsiveD(2) [OF r]
      contract_cou(2) [OF responsiveD(1) [OF r]] responsiveD(5) [OF r] storedRouterDeployment_def serverDeployment_meta(1) refl childSuffixes_members(3)])
    (auto simp: answers_simps writeRouterDeployment_Panic [OF d] dest: deployments_okD)

lemma answers_shardMapConfigMap:
  assumes r: "responsive P view crs"
  shows "answers (ready view crs C (metadata c))
    (reconcileShardMapConfigMap P c (Name (metadata c) @ ''-shardmap'') base json)"
  unfolding reconcileShardMapConfigMap_def
  by (rule shardMapConfigMap.answers_step [OF contractD(1) [OF responsiveD(1) [OF r]] responsiveD(2) [OF r]
      contract_cou(6) [OF responsiveD(1) [OF r]] responsiveD(9) [OF r] refl childSuffixes_members(4)])
    (auto simp: answers_simps writeShardMapConfigMap_def)

lemma answers_signalsConfigMap:
  assumes r: "responsive P view crs"
  shows "answers (ready view crs C (metadata c))
    (reconcileSignalsConfigMap P c (Name (metadata c) @ ''-signals'') base)"
  unfolding reconcileSignalsConfigMap_def
  by (rule signalsConfigMap.answers_step [OF contractD(1) [OF responsiveD(1) [OF r]] responsiveD(2) [OF r]
      contract_cou(6) [OF responsiveD(1) [OF r]] responsiveD(9) [OF r] refl childSuffixes_members(5)])
    (auto simp: answers_simps writeSignalsConfigMap_def)

lemma answers_routerRBAC:
  assumes r: "responsive P view crs"
  shows "answers (ready view crs C (metadata c)) (reconcileRouterRBAC P c (Name (metadata c) @ ''-router'') base)"
  unfolding reconcileRouterRBAC_def Let_def
proof (intro answers_andThen)
  note law = responsiveD(1) [OF r]
  show "answers (ready view crs C (metadata c)) (createOrUpdate KServiceAccount sa_meta (CouServiceAccount P)
      (emptyServiceAccount (Namespace (metadata c)) (Name (metadata c) @ ''-router'')) (mutateServiceAccount P c base))"
    by (rule serviceAccount.answers_step [OF contractD(1) [OF law] responsiveD(2) [OF r] contract_cou(3) [OF law]
        responsiveD(6) [OF r] refl
        childSuffixes_members(3)]) (auto simp: answers_simps writeServiceAccount_def)
  show "answers (ready view crs C (metadata c)) (createOrUpdate KRole role_meta (CouRole P)
      (emptyRole (Namespace (metadata c)) (Name (metadata c) @ ''-router'')) (mutateRole P c base))"
    by (rule role.answers_step [OF contractD(1) [OF law] responsiveD(2) [OF r] contract_cou(4) [OF law]
        responsiveD(7) [OF r] refl
        childSuffixes_members(3)]) (auto simp: answers_simps writeRole_def)
  show "answers (ready view crs C (metadata c)) (createOrUpdate KRoleBinding rb_meta (CouRoleBinding P)
      (emptyRoleBinding (Namespace (metadata c)) (Name (metadata c) @ ''-router'')) (mutateRoleBinding P c base ro sa))"
    for ro sa
    by (rule roleBinding.answers_step [OF contractD(1) [OF law] responsiveD(2) [OF r] contract_cou(5) [OF law]
        responsiveD(8) [OF r] refl
        childSuffixes_members(3)]) (auto simp: answers_simps writeRoleBinding_def)
qed

section \<open>The whole function\<close>

abbreviation succeeds :: "('w world \<Rightarrow> bool) \<Rightarrow> ('w world, reconcile_result) comp \<Rightarrow> bool" where
  "succeeds I m \<equiv> always m I (\<lambda>r w. r = Ok (\<lparr>RequeueAfter = 30\<rparr>, None))"

lemma answers_clock:
  assumes "responsive P view crs"
  shows "answers (ready view crs C m) (clock P)"
  using contractD(10) [OF responsiveD(1) [OF assms]]
  by (intro always_clock) (auto simp: ready_def between_def read_law_def)

lemma answers_computeShardMap:
  assumes r: "responsive P view crs" and n: "0 \<le> sint (derefInt32 (NumShards (KVCache (spec c))) 8)"
  shows "answers (ready view crs C m) (computeShardMap P c base)"
  unfolding computeShardMap_def Let_def
proof (intro answers_andThen [OF _ answers_andThen [OF answers_clock [OF r]]])
  show "answers (ready view crs C m) (listPods P (Namespace (metadata c)) (roleLabels base roleDecode))"
    using contractD(10) [OF responsiveD(1) [OF r]] responsiveD(3) [OF r]
    by (intro always_listPods)
      (auto simp: ready_def between_def read_law_def calls_ready_def,
       metis fst_conv of_sum_simps(2))
  show "answers (ready view crs C m) (lift_go (assignShards pods (derefInt32 (NumShards (KVCache (spec c))) 8) now))"
    for pods now
    using n by (intro always_lift_go) (simp add: assignShards_spec)
qed

lemma succeeds_finishStatus:
  assumes r: "responsive P view crs" and C: "C (key_of (metadata c)) \<noteq> None"
  shows "succeeds (ready view crs C m) (finishStatus P original c dp pp)"
proof -
  have "succeeds (ready view crs C m) (onErr (invoke (CallStatusPatch d original) (StatusPatch P d original))
      (\<lambda>e. ret (noRequeue, Some e)) (\<lambda>_. ret (\<lparr>RequeueAfter = 30\<rparr>, None)))"
    if "metadata d = metadata c" for d
  proof (rule always_onErr [where I = "\<lambda>_ _. True" and H = "\<lambda>_ _. False"])
    show "always (invoke (CallStatusPatch d original) (StatusPatch P d original)) (ready view crs C m)
      (\<lambda>r t. case r of Ok a \<Rightarrow> True | Err e \<Rightarrow> False | Panic \<Rightarrow> Panic = Ok (\<lparr>RequeueAfter = 30\<rparr>, None))"
    proof (rule always_invoke)
      fix w q x
      assume "ready view crs C m w" and call: "StatusPatch P d original (env w) = (q, x)"
      then have "\<exists>e. fst (StatusPatch P d original (env w)) = Inr e"
        using responsiveD(3) [OF r] C that unfolding calls_ready_def by (metis ready_def between_def)
      then show "case of_sum q of Ok a \<Rightarrow> True | Err e \<Rightarrow> False
          | Panic \<Rightarrow> Panic = Ok (\<lparr>RequeueAfter = 30\<rparr>, None)"
        using call by auto
    qed
  qed (auto simp: always_def ret_def)
  then show ?thesis
    unfolding finishStatus_def Let_def by (intro answers_andThen [OF answers_clock [OF r]]) simp
qed

lemma succeeds_reconcileChildren:
  assumes r: "responsive P view crs" and C: "C (key_of (metadata c)) \<noteq> None"
    and n: "0 \<le> sint (derefInt32 (NumShards (KVCache (spec c))) 8)" and d: "defaulted (spec c)"
  shows "succeeds (ready view crs C (metadata c)) (reconcileChildren P original c base ov)"
proof -
  obtain dp pp where ports: "ServicePort (Decode (Runtime (spec c))) = Some dp"
      "ServicePort (Prefill (Runtime (spec c))) = Some pp"
    using d by (auto simp: defaulted_def)
  have shards: "succeeds (ready view crs C (metadata c)) (reconcileShards P original c base dp pp)"
    unfolding reconcileShards_def Let_def
  proof (rule answers_onErr [OF answers_computeShardMap [OF r n]])
    fix x :: "ShardStatus list \<times> string"
    obtain shards json where x: "x = (shards, json)" by fastforce
    let ?d = "c\<lparr>status := (status c)\<lparr>Shards := shards\<rparr>\<rparr>"
    have "succeeds (ready view crs C (metadata c))
      (onErr (reconcileShardMapConfigMap P ?d (Name (metadata ?d) @ ''-shardmap'') base json)
        (requeueDegraded P ?d) (\<lambda>_. finishStatus P original ?d dp pp))"
      using answers_onErr [OF answers_shardMapConfigMap [OF r, where c = ?d and C = C and base = base and json = json]
          succeeds_finishStatus [OF r, where c = ?d and C = C]] C by simp
    then show "succeeds (ready view crs C (metadata c)) (case x of (shards, json) \<Rightarrow>
        onErr (reconcileShardMapConfigMap P (c\<lparr>status := (status c)\<lparr>Shards := shards\<rparr>\<rparr>)
          (Name (metadata (c\<lparr>status := (status c)\<lparr>Shards := shards\<rparr>\<rparr>)) @ ''-shardmap'') base json)
        (requeueDegraded P (c\<lparr>status := (status c)\<lparr>Shards := shards\<rparr>\<rparr>))
        (\<lambda>_. finishStatus P original (c\<lparr>status := (status c)\<lparr>Shards := shards\<rparr>\<rparr>) dp pp))"
      by (simp add: x)
  qed
  show ?thesis
    unfolding reconcileChildren_def Let_def ports deref_simps andThen_lift_Ok
    by (intro answers_onErr answers_roleService [OF r] answers_routerService [OF r] answers_routerRBAC [OF r]
        answers_roleDeployment [OF r] answers_routerDeployment [OF r d] shards)
      (simp_all add: childSuffixes_members roleDecode_def rolePrefill_def)
qed

text \<open>
  Autoscaling succeeds with the ConfigMap adapter, whose map the step before has just written; the
  Prometheus adapter never does.
\<close>

definition usesPrometheus :: "LLMInferenceCluster \<Rightarrow> bool" where
  "usesPrometheus c \<longleftrightarrow>
     Enabled (Autoscaling (spec c)) = Some True \<and>
     Source (as_Signals (Autoscaling (spec c))) = SignalsSourcePrometheus"

lemma selectAdapter_fake:
  "Source (as_Signals (Autoscaling (spec c))) \<noteq> SignalsSourcePrometheus \<Longrightarrow>
    selectAdapter c n = FakeConfigMapAdapter (Namespace (metadata c)) n"
  by (auto simp: selectAdapter_def Let_def string_constants)

definition hasSignals :: "('w \<Rightarrow> store) \<Rightarrow> LLMInferenceCluster \<Rightarrow> 'w world \<Rightarrow> bool" where
  "hasSignals view c w \<longleftrightarrow>
     stored asConfigMap (KConfigMap, Namespace (metadata c), Name (metadata c) @ ''-signals'') (view (env w)) \<noteq> None"

lemma signals_written:
  assumes r: "responsive P view crs"
  shows "always (reconcileSignalsConfigMap P c (Name (metadata c) @ ''-signals'') base)
    (ready view crs C (metadata c))
    (\<lambda>q w. (ready view crs C (metadata c) w \<and> hasSignals view c w) \<and> (\<exists>y. q = Ok y))"
proof (rule alwaysI)
  fix w q w'
  assume pre: "ready view crs C (metadata c) w"
    and run: "reconcileSignalsConfigMap P c (Name (metadata c) @ ''-signals'') base w = (q, w')"
  have ans: "ready view crs C (metadata c) w' \<and> (\<exists>y. q = Ok y)"
    using alwaysD [OF answers_signalsConfigMap [OF r] pre run] .
  have "step_post view crs C [((KConfigMap, Namespace (metadata c), Name (metadata c) @ ''-signals''),
      converged asConfigMap (mutateSignalsConfigMap P c base))] q w'"
    using alwaysD [OF always_signalsConfigMap [OF responsiveD(1) [OF r] refl] _ run] pre by (simp add: ready_def)
  then show "(ready view crs C (metadata c) w' \<and> hasSignals view c w') \<and> (\<exists>y. q = Ok y)"
    using ans by (auto simp: step_post_def between_def holds_def converged_def hasSignals_def stored_def)
qed

lemma answers_computeDecodeReplicas:
  assumes r: "responsive P view crs" and src: "Source (as_Signals (Autoscaling (spec c))) \<noteq> SignalsSourcePrometheus"
  shows "always (computeDecodeReplicas P c (Name (metadata c) @ ''-signals''))
    (\<lambda>w. ready view crs C (metadata c) w \<and> hasSignals view c w)
    (\<lambda>q w. ready view crs C (metadata c) w \<and> (\<exists>y. q = Ok y))"
proof (rule alwaysI)
  fix w q w'
  let ?n = "Name (metadata c) @ ''-signals''" and ?ns = "Namespace (metadata c)"
  assume pre: "ready view crs C (metadata c) w \<and> hasSignals view c w" and run: "computeDecodeReplicas P c ?n w = (q, w')"
  then obtain cm where "stored asConfigMap (KConfigMap, ?ns, ?n) (view (env w)) = Some cm"
    by (auto simp: hasSignals_def)
  then have "fst (GetConfigMap P (?ns, ?n) (env w)) = Inr cm"
    using responsiveD(3) [OF r] unfolding calls_ready_def by blast
  then have "\<exists>y. q = Ok y"
    using run by (cases "GetConfigMap P (?ns, ?n) (env w)")
      (auto simp: computeDecodeReplicas_def computeDesired_def selectAdapter_fake [OF src]
        FakeConfigMapAdapter_Read_def comp_defs invoke_def)
  then show "ready view crs C (metadata c) w' \<and> (\<exists>y. q = Ok y)"
    using pre computeDecodeReplicas_run(1,2) [OF contractD(10) [OF responsiveD(1) [OF r]] run]
    by (simp add: ready_def between_def)
qed

lemma succeeds_withAutoscaling:
  assumes r: "responsive P view crs" and np: "\<not> usesPrometheus c"
    and k: "\<And>d ov. metadata d = metadata c \<Longrightarrow> spec d = spec c \<Longrightarrow> succeeds (ready view crs C (metadata c)) (k d ov)"
  shows "succeeds (ready view crs C (metadata c)) (withAutoscaling P c base k)"
proof (cases "Enabled (Autoscaling (spec c)) = Some True")
  case False
  then show ?thesis using k [of c None] by (simp add: withAutoscaling_def)
next
  case True
  then have src: "Source (as_Signals (Autoscaling (spec c))) \<noteq> SignalsSourcePrometheus"
    using np by (simp add: usesPrometheus_def)
  let ?I = "ready view crs C (metadata c)"
  have "succeeds ?I (case x of (replicas, scaling) \<Rightarrow> andThen (clock P) (\<lambda>now.
      k (setCondition P c (scalingCondition c replicas scaling now)) (Some replicas)))" for x
    by (cases x) (auto intro!: answers_andThen [OF answers_clock [OF r]] k)
  then have "succeeds (\<lambda>w. ?I w \<and> hasSignals view c w)
      (onErr (computeDecodeReplicas P c (Name (metadata c) @ ''-signals'')) (requeueDegraded P c)
        (\<lambda>(replicas, scaling). andThen (clock P) (\<lambda>now.
          k (setCondition P c (scalingCondition c replicas scaling now)) (Some replicas))))"
    by (intro always_onErr [OF always_post [OF answers_computeDecodeReplicas [OF r src]],
        where H = "\<lambda>_ _. False" and I = "\<lambda>_. ?I"])
      (auto simp: always_def split: go.splits)
  then have "succeeds ?I (onErr (reconcileSignalsConfigMap P c (Name (metadata c) @ ''-signals'') base) (requeueDegraded P c)
      (\<lambda>_. onErr (computeDecodeReplicas P c (Name (metadata c) @ ''-signals'')) (requeueDegraded P c)
        (\<lambda>(replicas, scaling). andThen (clock P) (\<lambda>now.
          k (setCondition P c (scalingCondition c replicas scaling now)) (Some replicas)))))"
    by (intro always_onErr [OF always_post [OF signals_written [OF r]],
        where H = "\<lambda>_ _. False" and I = "\<lambda>_ w. ?I w \<and> hasSignals view c w"])
      (auto simp: always_def split: go.splits)
  then show ?thesis using True by (simp add: withAutoscaling_def Let_def)
qed

lemma unclaimed_cong:
  "key_of m = key_of n \<Longrightarrow> unclaimed m st \<longleftrightarrow> unclaimed n st"
  by (simp add: unclaimed_def no_foreign_def key_of_def)

lemma applyDefaults_keeps [simp]:
  "derefInt32 (NumShards (KVCache (applyDefaults s))) 8 = derefInt32 (NumShards (KVCache s)) 8"
  "Autoscaling (applyDefaults s) = Autoscaling s"
  by (simp_all add: applyDefaults_def derefInt32_def split: option.split)

lemma succeeds_live:
  assumes r: "responsive P view crs" and c: "spec c = applyDefaults s" and C: "C (key_of (metadata c)) = Some c"
    and n: "0 \<le> sint (derefInt32 (NumShards (KVCache s)) 8)" and np: "\<not> usesPrometheus c"
  shows "succeeds (ready view crs C (metadata c)) (reconcileLive P original c)"
  unfolding reconcileLive_def Let_def
proof (rule succeeds_withAutoscaling [OF r np])
  fix d :: LLMInferenceCluster and ov
  assume "metadata d = metadata c" "spec d = spec c"
  then show "succeeds (ready view crs C (metadata c)) (reconcileChildren P original d (baseLabels c) ov)"
    using succeeds_reconcileChildren [OF r, of C d] C n c by (simp add: defaulted_applyDefaults)
qed

lemma succeeds_ensureFinalizer:
  assumes r: "responsive P view crs" and c: "spec c = applyDefaults s" and C: "C (key_of (metadata c)) = Some c"
    and n: "0 \<le> sint (derefInt32 (NumShards (KVCache s)) 8)" and np: "\<not> usesPrometheus c"
    and del: "DeletionTimestamp (metadata c) = None"
  shows "succeeds (ready view crs C (metadata c)) (ensureFinalizer P c (reconcileLive P original))"
proof (cases "hasFinalizer P c")
  case True
  then show ?thesis using succeeds_live [OF r c, where C = C] C n np by (simp add: ensureFinalizer_def Let_def)
next
  case False
  define d where "d = putFinalizers (AddFinalizer P (Finalizers (metadata c)) llmInferenceClusterFinalizer) c"
  have d: "spec d = spec c" "key_of (metadata d) = key_of (metadata c)" "DeletionTimestamp (metadata d) = None"
    using del by (simp_all add: d_def putFinalizers_def key_of_def)
  define I where "I = (\<lambda>c' w. ready view crs (C(key_of (metadata c') \<mapsto> c')) (metadata c') w \<and> spec c' = spec c)"
  have "succeeds (ready view crs C (metadata c)) (onErr (invoke (CallUpdate d) (ClientUpdate P d))
      (\<lambda>e. ret (noRequeue, Some e)) (reconcileLive P original))"
  proof (rule always_onErr [where I = I and H = "\<lambda>_ _. False"])
    show "always (invoke (CallUpdate d) (ClientUpdate P d)) (ready view crs C (metadata c))
      (\<lambda>q w. case q of Ok c' \<Rightarrow> I c' w | Err e \<Rightarrow> False | Panic \<Rightarrow> Panic = Ok (\<lparr>RequeueAfter = 30\<rparr>, None))"
    proof (rule always_invoke)
      fix w q x
      assume w: "ready view crs C (metadata c) w" and call: "ClientUpdate P d (env w) = (q, x)"
      have old: "crs (env w) (key_of (metadata d)) = Some c" using w C d by (simp add: ready_def between_def)
      then have "\<exists>e. fst (ClientUpdate P d (env w)) = Inr e"
        using responsiveD(3) [OF r] unfolding calls_ready_def by (metis option.distinct(1))
      then obtain c' where q: "q = Inr c'" using call by auto
      note U = update_lawD [OF contractD(7) [OF responsiveD(1) [OF r]] call]
      have "I c' (w\<lparr>env := x, calls := calls w @ [CallUpdate d]\<rparr>)"
        using U(1) U(2) [OF q old] w d server_metaD(3) [of "metadata d" "metadata c'"]
          unclaimed_cong [of "metadata c'" "metadata c"]
        by (simp add: I_def ready_def between_def)
      then show "case of_sum q of Ok c' \<Rightarrow> I c' (w\<lparr>env := x, calls := calls w @ [CallUpdate d]\<rparr>)
          | Err e \<Rightarrow> False | Panic \<Rightarrow> Panic = Ok (\<lparr>RequeueAfter = 30\<rparr>, None)"
        by (simp add: q)
    qed
    show "succeeds (I c') (reconcileLive P original c')" for c'
      unfolding I_def
      by (rule always_assume, rule succeeds_live [OF r]) (use c n np in \<open>auto simp: usesPrometheus_def\<close>)
  qed (simp add: always_def)
  then show ?thesis using False by (simp add: ensureFinalizer_def d_def Let_def)
qed

lemma Reconcile_live:
  assumes "ClientGet P req (env w) = (Inr c0, x)"
    "ClientPatch P (c0\<lparr>spec := applyDefaults (spec c0)\<rparr>) c0 x = (Inr c1, x2)"
    "DeletionTimestamp (metadata c1) = None"
  shows "Reconcile P req w = ensureFinalizer P c1 (reconcileLive P c0)
    (w\<lparr>env := x2, calls := calls w @ [CallGet req, CallPatch (c0\<lparr>spec := applyDefaults (spec c0)\<rparr>) c0]\<rparr>)"
  using assms by (simp add: Reconcile_def reconcilePatched_def onErr_def invoke_def Let_def)

lemma Reconcile_succeeds:
  assumes r: "responsive P view crs"
    and c0: "crs (env w) req = Some c0" "key_of (metadata c0) = req" "DeletionTimestamp (metadata c0) = None"
    and n: "0 \<le> sint (derefInt32 (NumShards (KVCache (spec c0))) 8)" and np: "\<not> usesPrometheus c0"
    and st: "deployments_ok (view (env w))" "unclaimed (metadata c0) (view (env w))"
  shows "fst (Reconcile P req w) = Ok (\<lparr>RequeueAfter = 30\<rparr>, None)"
proof -
  let ?live = "\<lambda>c1. ensureFinalizer P c1 (reconcileLive P c0)"
  define d where "d = c0\<lparr>spec := applyDefaults (spec c0)\<rparr>"
  obtain q x where get: "ClientGet P req (env w) = (q, x)" by fastforce
  have "fst (ClientGet P req (env w)) = Inr c0"
    using responsiveD(3) [OF r] c0(1,2) unfolding calls_ready_def by blast
  then have q: "q = Inr c0" using get by simp
  note D = get_lawD [OF contractD(5) [OF responsiveD(1) [OF r]] get]
  have key: "crs x (key_of (metadata d)) = Some c0" using D(2) c0(1,2) by (simp add: d_def)
  obtain q2 x2 where patch: "ClientPatch P d c0 x = (q2, x2)" by fastforce
  have "\<exists>e. fst (ClientPatch P d c0 x) = Inr e"
    using responsiveD(3) [OF r] key unfolding calls_ready_def by (metis option.distinct(1))
  then obtain c1 where q2: "q2 = Inr c1" using patch by auto
  note U = patch_lawD [OF contractD(6) [OF responsiveD(1) [OF r]] patch]
  have c1: "spec c1 = applyDefaults (spec c0)" "server_meta (metadata c0) (metadata c1)"
      "crs x2 = (crs x)(req \<mapsto> c1)"
    using U(2) [OF q2 key] c0(2) by (simp_all add: d_def)
  note M = server_metaD [OF c1(2)]
  define w2 where "w2 = w\<lparr>env := x2, calls := calls w @ [CallGet req, CallPatch d c0]\<rparr>"
  have "ready view crs (crs x2) (metadata c1) w2"
    using st U(1) D(1) unclaimed_cong [OF M(3)] by (simp add: ready_def between_def w2_def)
  moreover have "succeeds (ready view crs (crs x2) (metadata c1)) (?live c1)"
    by (rule succeeds_ensureFinalizer [OF r c1(1)])
      (use c1 M c0 n np in \<open>simp_all add: usesPrometheus_def\<close>)
  moreover obtain q' w' where "?live c1 w2 = (q', w')" by fastforce
  ultimately have "fst (?live c1 w2) = Ok (\<lparr>RequeueAfter = 30\<rparr>, None)"
    by (auto dest: alwaysD)
  then show ?thesis
    using Reconcile_live [of P req w c0 x c1 x2] get q patch q2 M(7) c0(3) by (simp add: d_def w2_def)
qed

end
