(* ===== verification/Steady.thy ===== *)
theory Steady
  imports Guarantees
begin

text \<open>
  The steady state: once a reconciliation has succeeded and nobody changes the resource, the pods or
  the signals, the next one finds every child object as a fixpoint of its closure and leaves the store
  as it is. This rests on one more promise of the platform: writes that change nothing are not made.
\<close>

section \<open>Writes that change nothing\<close>

text \<open>
  An object that is, once defaulted, what the server has already does not change: \<open>CreateOrUpdate\<close>
  sends no update when the closure leaves the object as it is, and an update that defaulting makes
  equal to the stored object writes no new version.
\<close>

definition cou_quiet ::
  "('w \<Rightarrow> store) \<Rightarrow> kind \<Rightarrow> ('o \<Rightarrow> ObjectMeta) \<Rightarrow> ('o \<Rightarrow> 'o) \<Rightarrow> (object \<Rightarrow> 'o option) \<Rightarrow> ('w, 'o) cou \<Rightarrow> bool" where
  "cou_quiet view kd meta server unwrap f \<longleftrightarrow>
     (\<forall>obj mutate x o0 r x'. stored unwrap (kd, key_of (meta obj)) (view x) = Some o0 \<longrightarrow>
        map_go server (mutate o0) = Ok o0 \<longrightarrow> f obj mutate x = (r, x') \<longrightarrow> view x' = view x)"

text \<open>An empty patch leaves the resource as it is.\<close>

definition patch_quiet :: "'w platform \<Rightarrow> ('w \<Rightarrow> cluster_store) \<Rightarrow> bool" where
  "patch_quiet P crs \<longleftrightarrow>
     (\<forall>c x c' x'. crs x (key_of (metadata c)) = Some c \<longrightarrow> ClientPatch P c c x = (Inr c', x') \<longrightarrow> c' = c)"

definition quiet :: "'w platform \<Rightarrow> ('w \<Rightarrow> store) \<Rightarrow> ('w \<Rightarrow> cluster_store) \<Rightarrow> bool" where
  "quiet P view crs \<longleftrightarrow>
     cou_quiet view KService svc_meta (\<lambda>x. x) asService (CouService P) \<and>
     cou_quiet view KDeployment dep_meta serverDeployment asDeployment (CouDeployment P) \<and>
     cou_quiet view KServiceAccount sa_meta (\<lambda>x. x) asServiceAccount (CouServiceAccount P) \<and>
     cou_quiet view KRole role_meta (\<lambda>x. x) asRole (CouRole P) \<and>
     cou_quiet view KRoleBinding rb_meta (\<lambda>x. x) asRoleBinding (CouRoleBinding P) \<and>
     cou_quiet view KConfigMap cm_meta (\<lambda>x. x) asConfigMap (CouConfigMap P) \<and>
     patch_quiet P crs"

lemma quietD:
  assumes "quiet P view crs"
  shows "cou_quiet view KService svc_meta (\<lambda>x. x) asService (CouService P)"
    and "cou_quiet view KDeployment dep_meta serverDeployment asDeployment (CouDeployment P)"
    and "cou_quiet view KServiceAccount sa_meta (\<lambda>x. x) asServiceAccount (CouServiceAccount P)"
    and "cou_quiet view KRole role_meta (\<lambda>x. x) asRole (CouRole P)"
    and "cou_quiet view KRoleBinding rb_meta (\<lambda>x. x) asRoleBinding (CouRoleBinding P)"
    and "cou_quiet view KConfigMap cm_meta (\<lambda>x. x) asConfigMap (CouConfigMap P)"
    and "patch_quiet P crs"
  using assms by (simp_all add: quiet_def)

text \<open>The decode pods do not change: every answer lists the same ones.\<close>

definition pods_steady :: "'w platform \<Rightarrow> bool" where
  "pods_steady P \<longleftrightarrow>
     (\<forall>ns sel x y l m. fst (ListPods P ns sel x) = Inr l \<longrightarrow> fst (ListPods P ns sel y) = Inr m \<longrightarrow> mset l = mset m)"

section \<open>Computations that leave the store alone\<close>

definition calm :: "('w \<Rightarrow> store) \<Rightarrow> store \<Rightarrow> 'w world \<Rightarrow> bool" where
  "calm view st w \<longleftrightarrow> view (env w) = st"

lemma calm_ret: "always (ret a) (calm view st) (\<lambda>_. calm view st)"
  by (rule always_ret)

lemma calm_invoke:
  "(\<And>x r x'. f x = (r, x') \<Longrightarrow> view x' = view x) \<Longrightarrow> always (invoke c f) (calm view st) (\<lambda>_. calm view st)"
  by (rule always_invoke) (auto simp: calm_def)

lemma calm_clock:
  assumes "contract P view crs"
  shows "always (clock P) (calm view st) (\<lambda>_. calm view st)"
  using contractD(10) [OF assms] by (intro always_clock) (auto simp: calm_def read_law_def)

lemma calm_onErr:
  assumes "always m (calm view st) (\<lambda>r w. calm view st w \<and> (\<forall>y. r = Ok y \<longrightarrow> R y))"
    and "\<And>e. always (h e) (calm view st) (\<lambda>_. calm view st)"
    and "\<And>y. R y \<Longrightarrow> always (f y) (calm view st) (\<lambda>_. calm view st)"
  shows "always (onErr m h f) (calm view st) (\<lambda>_. calm view st)"
proof (rule always_onErr [where I = "\<lambda>y w. calm view st w \<and> R y" and H = "\<lambda>_. calm view st"])
  show "always m (calm view st) (\<lambda>r t. case r of Ok y \<Rightarrow> calm view st t \<and> R y | Err e \<Rightarrow> calm view st t
      | Panic \<Rightarrow> calm view st t)"
    by (rule always_post [OF assms(1)]) (auto split: go.split)
qed (use assms(2,3) in \<open>blast intro: always_assume\<close>)+

lemma calm_andThen:
  assumes "always m (calm view st) (\<lambda>r w. calm view st w \<and> (\<forall>y. r = Ok y \<longrightarrow> R y))"
    and "\<And>y. R y \<Longrightarrow> always (f y) (calm view st) (\<lambda>_. calm view st)"
  shows "always (andThen m f) (calm view st) (\<lambda>_. calm view st)"
proof (rule always_andThen [where I = "\<lambda>y w. calm view st w \<and> R y"])
  show "always m (calm view st) (\<lambda>r t. case r of Ok y \<Rightarrow> calm view st t \<and> R y | Err e \<Rightarrow> calm view st t
      | Panic \<Rightarrow> calm view st t)"
    by (rule always_post [OF assms(1)]) (auto split: go.split)
qed (use assms(2) in \<open>blast intro: always_assume\<close>)

lemma calm_any: "always m P (\<lambda>_. calm view st) \<Longrightarrow> always m P (\<lambda>r w. calm view st w \<and> (\<forall>y. r = Ok y \<longrightarrow> True))"
  by simp

lemmas calm_seq = calm_onErr [OF calm_any] calm_andThen [OF calm_any]

text \<open>A call whose object is a fixpoint already.\<close>

lemma calm_stored:
  assumes law: "cou_law view crs kd meta put server wrap unwrap f" "cou_quiet view kd meta server unwrap f"
    and M: "\<And>x. M x = map_go server (mutate x)"
    and st: "holds fs st" "((kd, key_of (meta obj)), Q) \<in> set fs" "\<And>x. Q x \<Longrightarrow> converged unwrap M x"
  shows "always (createOrUpdate kd meta f obj mutate) (calm view st)
    (\<lambda>r w. calm view st w \<and> (\<forall>y. r = Ok y \<longrightarrow> key_of (meta y) = key_of (meta obj)))"
proof (rule alwaysI)
  fix w r w'
  assume w: "calm view st w" and run: "createOrUpdate kd meta f obj mutate w = (r, w')"
  have call: "f obj mutate (env w) = (r, env w')" using run by (auto simp: createOrUpdate_def split: prod.splits)
  obtain o0 where o0: "stored unwrap (kd, key_of (meta obj)) (view (env w)) = Some o0" "map_go server (mutate o0) = Ok o0"
    using holds_fact [OF st(1,2)] st(3) w unfolding converged_def stored_def calm_def M by (metis bind.bind_lunit)
  then have "view (env w') = view (env w)" using law(2) call unfolding cou_quiet_def by blast
  moreover have "key_of (meta y) = key_of (meta obj)" if "r = Ok y" for y
    using law(1) call that unfolding cou_law_def Let_def by (fastforce simp: writes_def server_metaD)
  ultimately show "calm view st w' \<and> (\<forall>y. r = Ok y \<longrightarrow> key_of (meta y) = key_of (meta obj))"
    using w by (simp add: calm_def)
qed

lemmas calm_createOrUpdate = calm_stored [where server = "\<lambda>x. x" and M = mutate and mutate = mutate for mutate, unfolded go.map_ident, OF _ _ refl]

lemma calm_requeueDegraded:
  assumes "contract P view crs"
  shows "always (requeueDegraded P c e) (calm view st) (\<lambda>_. calm view st)"
  unfolding requeueDegraded_def Let_def
  using contractD(9) [OF assms]
  by (intro calm_seq calm_clock [OF assms] calm_invoke calm_ret) (auto simp: status_update_law_def)

lemma calm_finishStatus:
  assumes "contract P view crs"
  shows "always (finishStatus P original c dp pp) (calm view st) (\<lambda>_. calm view st)"
  unfolding finishStatus_def Let_def
  using contractD(8) [OF assms]
  by (intro calm_seq calm_clock [OF assms] calm_invoke calm_ret) (auto simp: status_patch_law_def)

section \<open>A store that is settled\<close>

text \<open>All facts of a successful run, with the override and the document it wrote.\<close>

definition allFacts ::
  "'w platform \<Rightarrow> LLMInferenceCluster \<Rightarrow> int32 option \<Rightarrow> int32 \<Rightarrow> int32 \<Rightarrow> string \<Rightarrow> fact list" where
  "allFacts P c ov dp pp json =
     ((KConfigMap, Namespace (metadata c), Name (metadata c) @ ''-shardmap''),
        converged asConfigMap (mutateShardMapConfigMap P c (baseLabels c) json)) #
     childFacts P c (baseLabels c) ov dp pp @ signalsFacts P c (baseLabels c) ov"

lemmas closure_defs =
  mutateRoleService_def mutateRouterService_def storedRoleDeployment_def [abs_def] storedRouterDeployment_def [abs_def]
  mutateRoleDeployment_def mutateRouterDeployment_def mutateServiceAccount_def mutateRole_def mutateRoleBinding_def mutateShardMapConfigMap_def
  mutateSignalsConfigMap_def withOwner_def [abs_def] setOwner_def [abs_def]
  writeRoleDeployment_def [abs_def] writeRouterDeployment_def [abs_def] workerContainer_def [abs_def]
  routerContainer_def [abs_def] servicePortForRole_def roleReplicas_def baseLabels_def Let_def

lemma allFacts_cong:
  assumes "metadata d = metadata c" "spec d = spec c"
  shows "allFacts P d ov dp pp json = allFacts P c ov dp pp json"
  unfolding allFacts_def childFacts_def rbacFacts_def signalsFacts_def decides_def [abs_def] replicaBounds_def
    closure_defs assms by (rule refl)

definition settled ::
  "'w platform \<Rightarrow> ('w \<Rightarrow> store) \<Rightarrow> ('w \<Rightarrow> cluster_store) \<Rightarrow> store \<Rightarrow> LLMInferenceCluster \<Rightarrow> int32 option \<Rightarrow>
     int32 \<Rightarrow> int32 \<Rightarrow> string \<Rightarrow> bool" where
  "settled P view crs st c ov dp pp json \<longleftrightarrow>
     contract P view crs \<and> quiet P view crs \<and> holds (allFacts P c ov dp pp json) st \<and> override_ok c ov \<and>
     ServicePort (Decode (Runtime (spec c))) = Some dp \<and> ServicePort (Prefill (Runtime (spec c))) = Some pp \<and>
     (\<forall>pods t shards text. podList P c (baseLabels c) pods \<longrightarrow>
        assignShards pods (derefInt32 (NumShards (KVCache (spec c))) 8) t = Ok (shards, text) \<longrightarrow> text = json)"

lemma settledD:
  assumes "settled P view crs st c ov dp pp json"
  shows "contract P view crs" and "quiet P view crs" and "holds (allFacts P c ov dp pp json) st" and "override_ok c ov"
    and "ServicePort (Decode (Runtime (spec c))) = Some dp" and "ServicePort (Prefill (Runtime (spec c))) = Some pp"
    and "podList P c (baseLabels c) pods \<Longrightarrow>
      assignShards pods (derefInt32 (NumShards (KVCache (spec c))) 8) t = Ok (shards, text) \<Longrightarrow> text = json"
  using assms unfolding settled_def by blast+

lemma settled_cong:
  assumes "settled P view crs st c ov dp pp json" "metadata d = metadata c" "spec d = spec c"
  shows "settled P view crs st d ov dp pp json"
  using assms(1) unfolding settled_def podList_def
  by (simp add: assms(2,3) status_only [OF assms(2,3)] allFacts_cong [OF assms(2,3)])

lemma calm_objects:
  assumes s: "settled P view crs st c ov dp pp json"
  defines "n \<equiv> Name (metadata c)" and "base \<equiv> baseLabels c"
  shows "always (reconcileRoleService P c roleDecode (n @ ''-decode'') dp base) (calm view st) (\<lambda>_. calm view st)"
    and "always (reconcileRoleService P c rolePrefill (n @ ''-prefill'') pp base) (calm view st) (\<lambda>_. calm view st)"
    and "always (reconcileRouterService P c (n @ ''-router'') base) (calm view st) (\<lambda>_. calm view st)"
    and "always (reconcileRoleDeployment P c roleDecode (n @ ''-decode'') base ov) (calm view st) (\<lambda>_. calm view st)"
    and "always (reconcileRoleDeployment P c rolePrefill (n @ ''-prefill'') base None) (calm view st) (\<lambda>_. calm view st)"
    and "always (reconcileRouterDeployment P c sn (n @ ''-shardmap'') (n @ ''-router'') base) (calm view st) (\<lambda>_. calm view st)"
    and "always (reconcileShardMapConfigMap P c (n @ ''-shardmap'') base json) (calm view st) (\<lambda>_. calm view st)"
    and "Enabled (Autoscaling (spec c)) = Some True \<Longrightarrow>
      always (reconcileSignalsConfigMap P c (n @ ''-signals'') base) (calm view st) (\<lambda>_. calm view st)"
proof -
  note h = settledD(3) [OF s, unfolded allFacts_def childFacts_def Let_def]
  note call = always_post [OF calm_createOrUpdate [OF _ _ h]]
  note K = contract_cou [OF settledD(1) [OF s]] and Q = quietD [OF settledD(2) [OF s]]
  note dep = always_post [OF calm_stored [OF K(2) Q(2) _ h]]
  note defs = emptyService_def emptyDeployment_def emptyConfigMap_def n_def base_def
  show "always (reconcileRoleService P c roleDecode (n @ ''-decode'') dp base) (calm view st) (\<lambda>_. calm view st)"
    unfolding reconcileRoleService_def by (rule call [OF K(1) Q(1)]) (simp_all add: defs)
  show "always (reconcileRoleService P c rolePrefill (n @ ''-prefill'') pp base) (calm view st) (\<lambda>_. calm view st)"
    unfolding reconcileRoleService_def by (rule call [OF K(1) Q(1)]) (simp_all add: defs)
  show "always (reconcileRouterService P c (n @ ''-router'') base) (calm view st) (\<lambda>_. calm view st)"
    unfolding reconcileRouterService_def by (rule call [OF K(1) Q(1)]) (simp_all add: defs)
  show "always (reconcileRoleDeployment P c roleDecode (n @ ''-decode'') base ov) (calm view st) (\<lambda>_. calm view st)"
    unfolding reconcileRoleDeployment_def by (rule dep [OF storedRoleDeployment_def]) (simp_all add: defs)
  show "always (reconcileRoleDeployment P c rolePrefill (n @ ''-prefill'') base None) (calm view st) (\<lambda>_. calm view st)"
    unfolding reconcileRoleDeployment_def by (rule dep [OF storedRoleDeployment_def]) (simp_all add: defs)
  show "always (reconcileRouterDeployment P c sn (n @ ''-shardmap'') (n @ ''-router'') base) (calm view st) (\<lambda>_. calm view st)"
    unfolding reconcileRouterDeployment_def by (rule dep [OF storedRouterDeployment_def]) (simp_all add: defs)
  show "always (reconcileShardMapConfigMap P c (n @ ''-shardmap'') base json) (calm view st) (\<lambda>_. calm view st)"
    unfolding reconcileShardMapConfigMap_def by (rule call [OF K(6) Q(6)]) (simp_all add: defs)
  show "always (reconcileSignalsConfigMap P c (n @ ''-signals'') base) (calm view st) (\<lambda>_. calm view st)"
    if "Enabled (Autoscaling (spec c)) = Some True"
    unfolding reconcileSignalsConfigMap_def
    by (rule always_post [OF calm_createOrUpdate [OF K(6) Q(6) h,
      where Q = "\<lambda>x. converged asConfigMap (mutateSignalsConfigMap P c base) x \<and> decides c ov x"]])
      (simp_all add: defs signalsFacts_def that)
qed

lemma calm_routerRBAC:
  assumes s: "settled P view crs st c ov dp pp json"
  shows "always (reconcileRouterRBAC P c (Name (metadata c) @ ''-router'') (baseLabels c)) (calm view st) (\<lambda>_. calm view st)"
proof -
  define ns n where "ns = Namespace (metadata c)" and "n = Name (metadata c) @ ''-router''"
  note h = settledD(3) [OF s, unfolded allFacts_def childFacts_def rbacFacts_def Let_def, folded ns_def n_def]
  note K = contract_cou [OF settledD(1) [OF s]] and Q = quietD [OF settledD(2) [OF s]]
  note defs = emptyServiceAccount_def emptyRole_def emptyRoleBinding_def
  have binding: "always (createOrUpdate KRoleBinding rb_meta (CouRoleBinding P) (emptyRoleBinding ns n)
      (mutateRoleBinding P c (baseLabels c) r a)) (calm view st) (\<lambda>_. calm view st)"
    if "key_of (role_meta r) = (ns, n)" "key_of (sa_meta a) = (ns, n)" for r a
    unfolding mutateRoleBinding_names [OF that]
    by (rule always_post [OF calm_createOrUpdate [OF K(5) Q(5) h]]) (simp_all add: defs)
  have role: "always (createOrUpdate KRole role_meta (CouRole P) (emptyRole ns n) (mutateRole P c (baseLabels c))) (calm view st)
      (\<lambda>r w. calm view st w \<and> (\<forall>y. r = Ok y \<longrightarrow> key_of (role_meta y) = (ns, n)))"
    by (rule always_post [OF calm_createOrUpdate [OF K(4) Q(4) h]]) (simp_all add: defs)
  have account: "always (createOrUpdate KServiceAccount sa_meta (CouServiceAccount P) (emptyServiceAccount ns n)
      (mutateServiceAccount P c (baseLabels c))) (calm view st)
      (\<lambda>r w. calm view st w \<and> (\<forall>y. r = Ok y \<longrightarrow> key_of (sa_meta y) = (ns, n)))"
    by (rule always_post [OF calm_createOrUpdate [OF K(3) Q(3) h]]) (simp_all add: defs)
  show ?thesis
    unfolding reconcileRouterRBAC_def Let_def ns_def [symmetric] n_def [symmetric]
    by (rule calm_andThen [OF account calm_andThen [OF role binding]])
qed

lemma calm_computeShardMap:
  assumes s: "settled P view crs st c ov dp pp json"
  shows "always (computeShardMap P c (baseLabels c)) (calm view st)
    (\<lambda>r w. calm view st w \<and> (\<forall>y. r = Ok y \<longrightarrow> snd y = json))"
  unfolding computeShardMap_def Let_def
proof (rule always_andThen [where I = "\<lambda>pods w. calm view st w \<and> podList P c (baseLabels c) pods"])
  note law = settledD(1) [OF s]
  show "always (listPods P (Namespace (metadata c)) (roleLabels (baseLabels c) roleDecode)) (calm view st)
    (\<lambda>r w. case r of
       Ok pods \<Rightarrow> calm view st w \<and> podList P c (baseLabels c) pods
     | Err e \<Rightarrow> calm view st w \<and> (\<forall>y. Err e = Ok y \<longrightarrow> snd y = json)
     | Panic \<Rightarrow> calm view st w \<and> (\<forall>y. Panic = Ok y \<longrightarrow> snd y = json))"
    using listPods_run [OF contractD(10) [OF law]]
    by (intro always_listPods) (fastforce simp: calm_def of_sum_def split: sum.split)
  fix pods
  have "always (andThen (clock P) (\<lambda>now. lift_go (assignShards pods (derefInt32 (NumShards (KVCache (spec c))) 8) now)))
      (calm view st) (\<lambda>r w. calm view st w \<and> (\<forall>y. r = Ok y \<longrightarrow> snd y = json))" if "podList P c (baseLabels c) pods"
    using settledD(7) [OF s that]
    by (intro always_andThen [OF always_post [OF calm_clock [OF law]], where I = "\<lambda>_. calm view st"] always_lift_go)
      (auto split: go.splits)
  then show "always (andThen (clock P) (\<lambda>now. lift_go (assignShards pods (derefInt32 (NumShards (KVCache (spec c))) 8) now)))
      (\<lambda>w. calm view st w \<and> podList P c (baseLabels c) pods)
      (\<lambda>r w. calm view st w \<and> (\<forall>y. r = Ok y \<longrightarrow> snd y = json))"
    by (rule always_assume)
qed

lemma calm_reconcileShards:
  assumes s: "settled P view crs st c ov dp pp json"
  shows "always (reconcileShards P original c (baseLabels c) dp pp) (calm view st) (\<lambda>_. calm view st)"
  unfolding reconcileShards_def
proof (rule calm_onErr [OF calm_computeShardMap [OF s]])
  show "always (requeueDegraded P c e) (calm view st) (\<lambda>_. calm view st)" for e
    by (rule calm_requeueDegraded [OF settledD(1) [OF s]])
next
  fix y :: "ShardStatus list \<times> string"
  assume y: "snd y = json"
  define d where "d = c\<lparr>status := (status c)\<lparr>Shards := fst y\<rparr>\<rparr>"
  have d: "settled P view crs st d ov dp pp json" "baseLabels d = baseLabels c"
    using settled_cong [OF s, of d] by (simp_all add: d_def baseLabels_def)
  have "always (onErr (reconcileShardMapConfigMap P d (Name (metadata d) @ ''-shardmap'') (baseLabels c) json)
      (requeueDegraded P d) (\<lambda>_. finishStatus P original d dp pp)) (calm view st) (\<lambda>_. calm view st)"
    using calm_objects(7) [OF d(1)] unfolding d(2)
    by (intro calm_seq calm_requeueDegraded [OF settledD(1) [OF s]] calm_finishStatus [OF settledD(1) [OF s]])
  then show "always (case y of (shards, shardMapJSON) \<Rightarrow> let cluster = c\<lparr>status := (status c)\<lparr>Shards := shards\<rparr>\<rparr>
      in onErr (reconcileShardMapConfigMap P cluster (Name (metadata cluster) @ ''-shardmap'') (baseLabels c) shardMapJSON)
           (requeueDegraded P cluster) (\<lambda>_. finishStatus P original cluster dp pp)) (calm view st) (\<lambda>_. calm view st)"
    using y by (simp add: split_def Let_def d_def)
qed

lemma calm_reconcileChildren:
  assumes s: "settled P view crs st c ov dp pp json"
  shows "always (reconcileChildren P original c (baseLabels c) ov) (calm view st) (\<lambda>_. calm view st)"
  unfolding reconcileChildren_def Let_def settledD(5,6) [OF s] deref_simps andThen_lift_Ok
  by (intro calm_seq calm_requeueDegraded [OF settledD(1) [OF s]] calm_objects [OF s] calm_routerRBAC [OF s]
    calm_reconcileShards [OF s])

section \<open>The next reconciliation\<close>

lemma calm_computeDecodeReplicas:
  assumes s: "settled P view crs st c ov dp pp json" and on: "Enabled (Autoscaling (spec c)) = Some True"
  shows "always (computeDecodeReplicas P c (Name (metadata c) @ ''-signals'')) (calm view st)
    (\<lambda>r w. calm view st w \<and> (\<forall>y. r = Ok y \<longrightarrow> Some (fst y) = ov))"
proof (rule alwaysI)
  fix w r w'
  assume w: "calm view st w" and run: "computeDecodeReplicas P c (Name (metadata c) @ ''-signals'') w = (r, w')"
  note R = computeDecodeReplicas_run [OF contractD(10) [OF settledD(1) [OF s]] run]
  have "\<exists>x. st (KConfigMap, Namespace (metadata c), Name (metadata c) @ ''-signals'') = Some x \<and>
      (converged asConfigMap (mutateSignalsConfigMap P c (baseLabels c)) x \<and> decides c ov x)"
    by (rule holds_fact [OF settledD(3) [OF s]]) (simp add: allFacts_def signalsFacts_def on)
  then obtain cm where cm: "stored asConfigMap (KConfigMap, Namespace (metadata c), Name (metadata c) @ ''-signals'') st = Some cm"
      "ov = Some (desiredReplicas (replicaBounds c) (signalsOf cm))"
    by (auto simp: decides_def stored_def)
  have "Some (fst y) = ov" if "r = Ok y" for y
    using R(4) [of "fst y" "snd y"] that w cm by (auto simp: calm_def)
  then show "calm view st w' \<and> (\<forall>y. r = Ok y \<longrightarrow> Some (fst y) = ov)" using R(1) w by (simp add: calm_def)
qed

lemma calm_reconcileLive:
  assumes s: "settled P view crs st c ov dp pp json"
  shows "always (reconcileLive P original c) (calm view st) (\<lambda>_. calm view st)"
proof (cases "Enabled (Autoscaling (spec c)) = Some True")
  case False
  then have "ov = None" using settledD(4) [OF s] by (simp add: override_ok_def)
  then show ?thesis using False calm_reconcileChildren [OF s] by (simp add: reconcileLive_def withAutoscaling_def)
next
  case True
  note fail = calm_requeueDegraded [OF settledD(1) [OF s]]
  have child: "always (reconcileChildren P original d (baseLabels c) ov) (calm view st) (\<lambda>_. calm view st)"
    if "metadata d = metadata c" "spec d = spec c" for d
    using calm_reconcileChildren [OF settled_cong [OF s that]] status_only(1) [OF that] by simp
  have "always (onErr (computeDecodeReplicas P c (Name (metadata c) @ ''-signals'')) (requeueDegraded P c)
      (\<lambda>(replicas, scaling). andThen (clock P) (\<lambda>now. reconcileChildren P original
        (setCondition P c (scalingCondition c replicas scaling now)) (baseLabels c) (Some replicas))))
      (calm view st) (\<lambda>_. calm view st)"
  proof (rule calm_onErr [OF calm_computeDecodeReplicas [OF s True] fail])
    fix y :: "int32 \<times> bool"
    assume y: "Some (fst y) = ov"
    show "always (case y of (replicas, scaling) \<Rightarrow> andThen (clock P) (\<lambda>now. reconcileChildren P original
        (setCondition P c (scalingCondition c replicas scaling now)) (baseLabels c) (Some replicas)))
      (calm view st) (\<lambda>_. calm view st)"
      unfolding split_def y by (intro calm_seq calm_clock [OF settledD(1) [OF s]] child) simp_all
  qed
  then show ?thesis
    unfolding reconcileLive_def withAutoscaling_def Let_def using True calm_seq(1) [OF calm_objects(8) [OF s True] fail] by simp
qed

lemma Reconcile_calm:
  assumes s: "settled P view crs (view (env w)) c ov dp pp json"
    and c: "crs (env w) req = Some c" "defaulted (spec c)" "DeletionTimestamp (metadata c) = None"
      "llmInferenceClusterFinalizer \<in> set (Finalizers (metadata c))"
    and run: "Reconcile P req w = (r, w')"
  shows "view (env w') = view (env w)"
  using settledD(1) [OF s] c(1) run
proof (cases rule: Reconcile_start)
  case (patched d u x)
  have "c\<lparr>spec := applyDefaults (spec c)\<rparr> = c" using c(2) by (simp add: applyDefaults_id)
  then have "d = c"
    using quietD(7) [OF settledD(2) [OF s]] patched(2,9,10) unfolding patch_quiet_def by metis
  moreover have "hasFinalizer P c"
    using c(4) contractD(3) [OF settledD(1) [OF s]] by (simp add: hasFinalizer_def finalizer_law_def)
  ultimately have "reconcileLive P c c u = (r, w')"
    using patched(1) c(3) by (simp add: reconcilePatched_def ensureFinalizer_def)
  from alwaysD [OF calm_reconcileLive [OF s] _ this] show ?thesis using patched(6) by (simp add: calm_def)
qed

text \<open>A successful run leaves a settled store.\<close>

lemma reconciled_settled:
  assumes law: "contract P view crs" "quiet P view crs" "pods_steady P" and rec: "reconciled view crs P C c0 w"
  shows "\<exists>c ov dp pp json. settled P view crs (view (env w)) c ov dp pp json \<and>
    crs (env w) (key_of (metadata c0)) = Some c \<and> defaulted (spec c) \<and> DeletionTimestamp (metadata c) = None \<and>
    llmInferenceClusterFinalizer \<in> set (Finalizers (metadata c))"
proof -
  obtain c ov dp pp where c: "spec c = applyDefaults (spec c0)" "key_of (metadata c) = key_of (metadata c0)"
      "DeletionTimestamp (metadata c) = None" "llmInferenceClusterFinalizer \<in> set (Finalizers (metadata c))"
      "ServicePort (Decode (Runtime (spec c))) = Some dp" "ServicePort (Prefill (Runtime (spec c))) = Some pp" "override_ok c ov"
    and sp: "shardsPublished view crs P C c (baseLabels c) dp pp
      (childFacts P c (baseLabels c) ov dp pp @ signalsFacts P c (baseLabels c) ov) w"
    using rec unfolding reconciled_def by blast
  obtain pods now shards json c' where pods: "podList P c (baseLabels c) pods"
      "assignShards pods (derefInt32 (NumShards (KVCache (spec c))) 8) now = Ok (shards, json)"
    and h: "holds (allFacts P c ov dp pp json) (view (env w))"
    and pub: "published (c\<lparr>status := (status c)\<lparr>Shards := shards\<rparr>\<rparr>) dp pp c'"
    and crs: "crs (env w) = C(key_of (metadata c) \<mapsto> c')"
    using sp unfolding shardsPublished_def allFacts_def by blast
  have same: "metadata c' = metadata c" "spec c' = spec c" using pub by (simp_all add: published_def Let_def)
  have "doc = json" if "podList P c (baseLabels c) qs"
      "assignShards qs (derefInt32 (NumShards (KVCache (spec c))) 8) t = Ok (ss, doc)" for qs t ss doc
  proof -
    have "mset qs = mset pods" using that(1) pods(1) law(3) unfolding podList_def pods_steady_def by blast
    then show ?thesis by (rule assignShards_document [OF that(2) pods(2)])
  qed
  then have "settled P view crs (view (env w)) c ov dp pp json"
    unfolding settled_def using law(1,2) h c(5-7) by blast
  then have "settled P view crs (view (env w)) c' ov dp pp json" using same by (rule settled_cong)
  then show ?thesis
    using crs same c(1-4) defaulted_applyDefaults [of "spec c0"] by (intro exI [of _ c']) auto
qed

lemma Reconcile_again:
  assumes "contract P view crs" "quiet P view crs" "pods_steady P"
    and "reconciled view crs P C c0 w" "key_of (metadata c0) = req" "Reconcile P req w = (r, w')"
  shows "view (env w') = view (env w)"
  using reconciled_settled [OF assms(1-4)] Reconcile_calm [OF _ _ _ _ _ assms(6)] assms(5) by blast

end
