(* ===== verification/Samples.thy ===== *)
theory Samples
  imports MemServer Progress Steady
begin

text \<open>Concrete inputs for the witnesses: a small cluster on the in-memory server.\<close>

definition sampleRole :: WorkloadRoleSpec where
  "sampleRole = \<lparr>Replicas = Some 2, ServicePort = None, PodLabels = Map.empty\<rparr>"

definition sampleSpec :: LLMInferenceClusterSpec where
  "sampleSpec =
     \<lparr>Model = \<lparr>model_Name = ''m'', model_Image = ''i'', model_Args = [],
         model_Env = [\<lparr>ev_Name = ''B'', ev_Value = ''2''\<rparr>, \<lparr>ev_Name = ''A'', ev_Value = ''1''\<rparr>]\<rparr>,
      Runtime = \<lparr>Prefill = sampleRole, Decode = sampleRole\<rparr>,
      KVCache = \<lparr>Strategy = [], NumShards = Some 2, kv_EvictionPolicy = [], WarmCache = []\<rparr>,
      Routing = \<lparr>Mode = [], HashKey = None, RouterReplicas = None\<rparr>,
      Autoscaling = \<lparr>Enabled = None, MinReplicas = None, MaxReplicas = None,
         as_Signals = \<lparr>Source = [], PrometheusURL = None\<rparr>\<rparr>\<rparr>"

definition sampleStatus :: LLMInferenceClusterStatus where
  "sampleStatus =
     \<lparr>ObservedGeneration = 0, Endpoints = \<lparr>RouterURL = [], DecodeService = [], PrefillService = []\<rparr>,
      Shards = [], Conditions = []\<rparr>"

definition sampleCluster :: LLMInferenceCluster where
  "sampleCluster = \<lparr>metadata = (new_meta ''ns'' ''c'')\<lparr>UID := ''u''\<rparr>, spec = sampleSpec, status = sampleStatus\<rparr>"

definition sampleKey :: NamespacedName where
  "sampleKey = (''ns'', ''c'')"

definition worldWith :: "LLMInferenceCluster \<Rightarrow> memServer world" where
  "worldWith c =
     \<lparr>env = \<lparr>ms_objects = Map.empty, ms_clusters = [sampleKey \<mapsto> c],
        ms_pods = [(''p1'', True), (''p0'', False)], ms_now = 100\<rparr>, calls = []\<rparr>"

definition deletedCluster :: LLMInferenceCluster where
  "deletedCluster = sampleCluster\<lparr>metadata := (metadata sampleCluster)\<lparr>DeletionTimestamp := Some 7,
     Finalizers := [''inference.llm.io/finalizer'']\<rparr>\<rparr>"

definition scalingCluster :: LLMInferenceCluster where
  "scalingCluster = sampleCluster\<lparr>spec := sampleSpec\<lparr>Autoscaling :=
     (Autoscaling sampleSpec)\<lparr>Enabled := Some True\<rparr>\<rparr>\<rparr>"

definition promCluster :: LLMInferenceCluster where
  "promCluster = sampleCluster\<lparr>spec := sampleSpec\<lparr>Autoscaling :=
     (Autoscaling sampleSpec)\<lparr>Enabled := Some True, as_Signals := \<lparr>Source = ''prometheus'', PrometheusURL = Some ''u''\<rparr>\<rparr>\<rparr>\<rparr>"

text \<open>A cluster at the largest replica count, and a world whose signals ConfigMap gives a queue depth.\<close>

definition hugeCluster :: LLMInferenceCluster where
  "hugeCluster = scalingCluster\<lparr>spec := (spec scalingCluster)\<lparr>
     Runtime := \<lparr>Prefill = sampleRole, Decode = sampleRole\<lparr>Replicas := Some 2147483647\<rparr>\<rparr>,
     Autoscaling := (Autoscaling (spec scalingCluster))\<lparr>MinReplicas := Some 1, MaxReplicas := Some 2147483647\<rparr>\<rparr>\<rparr>"

definition signalMap :: "string \<Rightarrow> ConfigMap" where
  "signalMap q = \<lparr>cm_meta = new_meta ''ns'' ''c-signals'', cm_Data = Some [''queueDepth'' \<mapsto> q]\<rparr>"

definition signalWorld :: "string \<Rightarrow> memServer world" where
  "signalWorld q =
     \<lparr>env = \<lparr>ms_objects = [(KConfigMap, ''ns'', ''c-signals'') \<mapsto> OConfigMap (signalMap q)],
        ms_clusters = Map.empty, ms_pods = [], ms_now = 100\<rparr>, calls = []\<rparr>"

section \<open>The in-memory server is responsive\<close>

lemma mem_owner_ready: "owner_ready mem"
  unfolding owner_ready_def
proof (intro allI impI)
  fix owner m
  assume a: "Namespace m = Namespace owner" "no_foreign owner m"
  then have "\<not> list_ex (\<lambda>r. owner_Controller r \<and> owner_Name r \<noteq> Name owner) (OwnerReferences m)"
    by (auto simp: no_foreign_def list_all_iff list_ex_iff)
  then have "\<exists>m'. memSetOwner owner m = Inr m'" using a(1) by (simp add: memSetOwner_def Let_def)
  then obtain m' where m': "memSetOwner owner m = Inr m'" ..
  then have "no_foreign owner m'" using memSetOwner_Inr(5) [OF m'] by (simp add: no_foreign_def list_all_iff)
  then show "\<exists>m'. SetControllerReference mem owner m = Inr m' \<and> no_foreign owner m'"
    using m' by (simp add: mem_def)
qed

lemma mem_cou_ready: "cou_ready ms_objects kd meta unwrap (memCou kd meta server wrap unwrap)" if "\<And>x. meta (server x) = meta x"
  using that by (auto simp: cou_ready_def memCou_def Let_def)

lemma mem_responsive: "responsive mem ms_objects ms_clusters"
proof -
  have "calls_ready mem ms_objects ms_clusters"
    by (auto simp: calls_ready_def mem_def memGet_def memPatch_def memPut_def memStatus_def memConfigMap_def
      memPods_def Let_def)
  then show ?thesis
    unfolding responsive_def
    by (intro conjI mem_contract mem_owner_ready) (simp_all add: mem_def mem_cou_ready)
qed

section \<open>The in-memory server with a fixed set of pods\<close>

definition steadyMem :: "memServer platform" where
  "steadyMem = mem\<lparr>ListPods := (\<lambda>ns sel s. (fst (memPods ns sel (env (worldWith sampleCluster))), s))\<rparr>"

lemma steadyMem_fields [simp]:
  "ClientGet steadyMem = ClientGet mem" "ClientPatch steadyMem = ClientPatch mem" "ClientUpdate steadyMem = ClientUpdate mem"
  "StatusPatch steadyMem = StatusPatch mem" "StatusUpdate steadyMem = StatusUpdate mem"
  "GetConfigMap steadyMem = GetConfigMap mem" "CouService steadyMem = CouService mem"
  "CouDeployment steadyMem = CouDeployment mem" "CouServiceAccount steadyMem = CouServiceAccount mem"
  "CouRole steadyMem = CouRole mem" "CouRoleBinding steadyMem = CouRoleBinding mem" "CouConfigMap steadyMem = CouConfigMap mem"
  "Now steadyMem = Now mem" "SetStatusCondition steadyMem = SetStatusCondition mem"
  "SetControllerReference steadyMem = SetControllerReference mem" "ContainsFinalizer steadyMem = ContainsFinalizer mem"
  "AddFinalizer steadyMem = AddFinalizer mem" "RemoveFinalizer steadyMem = RemoveFinalizer mem"
  "SliceSort steadyMem = SliceSort mem"
  "ListPods steadyMem = (\<lambda>ns sel s. (fst (memPods ns sel (env (worldWith sampleCluster))), s))"
  by (simp_all add: steadyMem_def)

lemma steadyMem_contract: "contract steadyMem ms_objects ms_clusters"
proof -
  have "fst (memPods ns sel s) = Inr pods \<Longrightarrow> list_all (listed ns sel) pods" for ns sel s pods
    using contractD(10) [OF mem_contract] unfolding read_law_def by (auto simp: mem_def memPods_def)
  then have "read_law steadyMem ms_objects ms_clusters"
    using contractD(10) [OF mem_contract] by (simp add: read_law_def)
  then show ?thesis
    using mem_contract
    by (simp add: contract_def cou_laws_def cluster_laws_def library_laws_def get_law_def patch_law_def update_law_def
      status_patch_law_def status_update_law_def condition_law_def owner_law_def finalizer_law_def sort_law_def)
qed

lemma steadyMem_responsive: "responsive steadyMem ms_objects ms_clusters"
proof -
  have "calls_ready steadyMem ms_objects ms_clusters"
    using responsiveD(3) [OF mem_responsive] by (simp add: calls_ready_def memPods_def)
  moreover have "owner_ready steadyMem" using mem_owner_ready by (simp add: owner_ready_def)
  ultimately show ?thesis
    using steadyMem_contract mem_responsive by (simp add: responsive_def)
qed

lemma memCou_quiet:
  assumes "\<And>x y. unwrap x = Some y \<Longrightarrow> x = wrap y"
  shows "cou_quiet ms_objects kd meta server unwrap (memCou kd meta server wrap unwrap)"
  unfolding cou_quiet_def
proof (intro allI impI)
  fix obj mutate x o0 r x'
  assume st: "stored unwrap (kd, key_of (meta obj)) (ms_objects x) = Some o0" and m: "map_go server (mutate o0) = Ok o0"
    and run: "memCou kd meta server wrap unwrap obj mutate x = (r, x')"
  have "ms_objects x (kd, key_of (meta obj)) = Some (wrap o0)"
    using st assms by (auto simp: stored_def bind_eq_Some_conv)
  then have "(ms_objects x)((kd, key_of (meta obj)) \<mapsto> wrap o0) = ms_objects x" by (rule map_upd_triv)
  then show "ms_objects x' = ms_objects x"
    using run st m by (auto simp: memCou_def Let_def split: if_splits)
qed

lemma steadyMem_quiet: "quiet steadyMem ms_objects ms_clusters"
proof -
  have "patch_quiet steadyMem ms_clusters" by (auto simp: patch_quiet_def mem_def memPatch_def Let_def)
  moreover have un: "asService x = Some s \<Longrightarrow> x = OService s" "asDeployment x = Some d \<Longrightarrow> x = ODeployment d"
    "asServiceAccount x = Some a \<Longrightarrow> x = OServiceAccount a" "asRole x = Some ro \<Longrightarrow> x = ORole ro"
    "asRoleBinding x = Some rb \<Longrightarrow> x = ORoleBinding rb" "asConfigMap x = Some cm \<Longrightarrow> x = OConfigMap cm"
    for x s d a ro rb cm
    by (cases x; simp)+
  ultimately show ?thesis
    unfolding quiet_def
    by (simp add: mem_def memCou_quiet [OF un(1)] memCou_quiet [OF un(2)] memCou_quiet [OF un(3)] memCou_quiet [OF un(4)]
      memCou_quiet [OF un(5)] memCou_quiet [OF un(6)])
qed

lemma steadyMem_pods: "pods_steady steadyMem"
  by (auto simp: pods_steady_def)

section \<open>Runs\<close>

lemmas sample_defs = worldWith_def sampleKey_def sampleCluster_def sampleSpec_def sampleRole_def

lemma sample_world:
  "ms_clusters (env (worldWith c)) sampleKey = Some c"
  "deployments_ok (ms_objects (env (worldWith c)))" "unclaimed m (ms_objects (env (worldWith c)))"
  by (simp_all add: worldWith_def deployments_ok_def stored_def unclaimed_def)

lemma sample_cluster:
  "key_of (metadata sampleCluster) = sampleKey" "DeletionTimestamp (metadata sampleCluster) = None"
  "derefInt32 (NumShards (KVCache (spec sampleCluster))) 8 = 2" "\<not> usesPrometheus sampleCluster"
  by (simp_all add: sample_defs derefInt32_def usesPrometheus_def new_meta_def key_of_def)

lemma sample_run: "fst (Reconcile mem sampleKey (worldWith sampleCluster)) = Ok (\<lparr>RequeueAfter = 30\<rparr>, None)"
  by (rule Reconcile_succeeds [OF mem_responsive sample_world(1)])
    (simp_all add: sample_cluster sample_world)

lemma steady_run: "fst (Reconcile steadyMem sampleKey (worldWith scalingCluster)) = Ok (\<lparr>RequeueAfter = 30\<rparr>, None)"
proof -
  have "key_of (metadata scalingCluster) = sampleKey" "DeletionTimestamp (metadata scalingCluster) = None"
    "0 \<le> sint (derefInt32 (NumShards (KVCache (spec scalingCluster))) 8)" "\<not> usesPrometheus scalingCluster"
    by (simp_all add: scalingCluster_def sample_defs derefInt32_def usesPrometheus_def new_meta_def key_of_def string_constants)
  then show ?thesis
    by (intro Reconcile_succeeds [OF steadyMem_responsive sample_world(1)]) (simp_all add: sample_world)
qed

lemma sample_valid: "valid_Spec (spec sampleCluster)"
  by (simp add: sample_defs validation_defs)

lemma prom_cluster:
  "key_of (metadata promCluster) = sampleKey" "DeletionTimestamp (metadata promCluster) = None"
  "usesPrometheus promCluster" "valid_Spec (spec promCluster)"
  by (simp_all add: promCluster_def sample_defs usesPrometheus_def new_meta_def key_of_def validation_defs string_constants)

lemma scaling_cluster:
  "key_of (metadata scalingCluster) = sampleKey" "DeletionTimestamp (metadata scalingCluster) = None"
  "\<not> usesPrometheus scalingCluster" "valid_Spec (spec scalingCluster)"
  by (simp_all add: scalingCluster_def sample_defs usesPrometheus_def new_meta_def key_of_def validation_defs string_constants)

lemma signal_world:
  "Source (as_Signals (Autoscaling (spec scalingCluster))) \<noteq> SignalsSourcePrometheus"
  "Source (as_Signals (Autoscaling (spec hugeCluster))) \<noteq> SignalsSourcePrometheus"
  "fst (GetConfigMap mem (Namespace (metadata scalingCluster), ''c-signals'') (env (signalWorld q))) = Inr (signalMap q)"
  "fst (GetConfigMap mem (Namespace (metadata hugeCluster), ''c-signals'') (env (signalWorld q))) = Inr (signalMap q)"
  "data_get (cm_Data (signalMap q)) ''queueDepth'' = q"
  by (simp_all add: scalingCluster_def hugeCluster_def sample_defs string_constants mem_def memConfigMap_def
    signalWorld_def signalMap_def stored_def new_meta_def data_get_def)

lemma deleted_cluster: "DeletionTimestamp (metadata deletedCluster) \<noteq> None"
  by (simp add: deletedCluster_def)

lemma deleted_run:
  "fst (Reconcile mem sampleKey (worldWith deletedCluster)) = Ok (noRequeue, None)"
  by (simp add: Reconcile_def reconcilePatched_def onErr_def invoke_def mem_def memGet_def memPatch_def memPut_def worldWith_def Let_def
    deletedCluster_def sampleCluster_def key_of_def sampleKey_def new_meta_def reconcileDelete_def hasFinalizer_def
    llmInferenceClusterFinalizer_def putFinalizers_def ret_def)

end
