(* ===== verification/Outcomes.thy ===== *)
theory Outcomes
  imports Guarantees Progress
begin

text \<open>
  Runs that do not reach the end: a resource that is gone, and a resource whose autoscaling reads its
  signals from Prometheus, which the program does not implement.
\<close>

section \<open>A missing resource\<close>

lemma Reconcile_missing:
  assumes "ClientGet P req (env w) = (Inl e, x)" "IsNotFound e"
  shows "Reconcile P req w = (Ok (noRequeue, None), w\<lparr>env := x, calls := calls w @ [CallGet req]\<rparr>)"
  using assms by (simp add: Reconcile_def onErr_def invoke_def ret_def)

section \<open>Signals from Prometheus\<close>

text \<open>Since \<open>t0\<close> no child object was written but the signals ConfigMap of the cluster.\<close>

definition signals_only :: "NamespacedName \<Rightarrow> call list \<Rightarrow> 'w world \<Rightarrow> bool" where
  "signals_only key t0 w \<longleftrightarrow>
     (\<exists>t. calls w = t0 @ t \<and>
        list_all (\<lambda>c. case c of CallCreateOrUpdate kd k \<Rightarrow> kd = KConfigMap \<and> k = (fst key, snd key @ ''-signals'') | _ \<Rightarrow> True) t)"

lemma signals_only_call:
  "signals_only key t0 w \<Longrightarrow> calls w' = calls w @ [c] \<Longrightarrow>
    (case c of CallCreateOrUpdate kd k \<Rightarrow> kd = KConfigMap \<and> k = (fst key, snd key @ ''-signals'') | _ \<Rightarrow> True) \<Longrightarrow>
    signals_only key t0 w'"
  by (auto simp: signals_only_def)

text \<open>A failed run: no success is reported, and only the signals were written.\<close>

definition failed :: "NamespacedName \<Rightarrow> call list \<Rightarrow> reconcile_result go \<Rightarrow> 'w world \<Rightarrow> bool" where
  "failed key t0 r w \<longleftrightarrow> (\<forall>res. r \<noteq> Ok (res, None)) \<and> signals_only key t0 w"

lemma failed_ret: "always (ret (res, Some e)) (signals_only key t0) (failed key t0)"
  by (rule always_ret) (simp add: failed_def)

lemma failed_requeueDegraded: "always (requeueDegraded P c e) (signals_only key t0) (failed key t0)"
  unfolding requeueDegraded_def Let_def
proof (intro always_andThen [where I = "\<lambda>_. signals_only key t0"])
  show "always (clock P) (signals_only key t0)
    (\<lambda>r w. case r of Ok a \<Rightarrow> signals_only key t0 w | Err e \<Rightarrow> failed key t0 (Err e) w | Panic \<Rightarrow> failed key t0 Panic w)"
    by (rule alwaysI) (auto simp: signals_only_def dest!: clock_calls)
  then show "always (clock P) (signals_only key t0)
    (\<lambda>r w. case r of Ok a \<Rightarrow> signals_only key t0 w | Err e \<Rightarrow> failed key t0 (Err e) w | Panic \<Rightarrow> failed key t0 Panic w)" .
next
  fix d
  show "always (onErr (invoke (CallStatusUpdate d) f) (\<lambda>_. ret (res, Some e)) (\<lambda>_. ret (res, Some e)))
    (signals_only key t0) (failed key t0)" for f res
    by (rule always_onErr [where I = "\<lambda>_. signals_only key t0" and H = "\<lambda>_. signals_only key t0"])
      (auto intro!: failed_ret alwaysI dest!: invoke_calls elim: signals_only_call split: go.split)
qed

lemma failed_withAutoscaling:
  assumes "usesPrometheus c" "key_of (metadata c) = key"
  shows "always (withAutoscaling P c base k) (signals_only key t0) (failed key t0)"
proof -
  have en: "Enabled (Autoscaling (spec c)) = Some True" using assms(1) by (simp add: usesPrometheus_def)
  have fails: "\<exists>e. computeDecodeReplicas P c n w = (Err e, w)" for n w
    using assms(1) by (simp add: computeDecodeReplicas_def computeDesired_def selectAdapter_def usesPrometheus_def Let_def
      string_constants PrometheusAdapter_Read_def comp_defs)
  have second: "always (onErr (computeDecodeReplicas P c n) (requeueDegraded P c) g) (signals_only key t0) (failed key t0)" for n g
  proof (rule always_onErr [where I = "\<lambda>_ _. False" and H = "\<lambda>_. signals_only key t0"])
    show "always (computeDecodeReplicas P c n) (signals_only key t0)
      (\<lambda>r w. case r of Ok a \<Rightarrow> False | Err e \<Rightarrow> signals_only key t0 w | Panic \<Rightarrow> failed key t0 Panic w)"
    proof (rule alwaysI)
      fix w r w' assume "signals_only key t0 w" "computeDecodeReplicas P c n w = (r, w')"
      then show "case r of Ok a \<Rightarrow> False | Err e \<Rightarrow> signals_only key t0 w' | Panic \<Rightarrow> failed key t0 Panic w'"
        using fails [of n w] by auto
    qed
  qed (rule failed_requeueDegraded, simp add: always_def)
  have first: "always (reconcileSignalsConfigMap P c (Name (metadata c) @ ''-signals'') base) (signals_only key t0)
      (\<lambda>r w. case r of Ok a \<Rightarrow> signals_only key t0 w | Err e \<Rightarrow> signals_only key t0 w | Panic \<Rightarrow> failed key t0 Panic w)"
  proof (rule alwaysI)
    fix w r w'
    assume w: "signals_only key t0 w" and run: "reconcileSignalsConfigMap P c (Name (metadata c) @ ''-signals'') base w = (r, w')"
    have "calls w' = calls w @ [CallCreateOrUpdate KConfigMap (Namespace (metadata c), Name (metadata c) @ ''-signals'')]"
      using createOrUpdate_calls [OF run [unfolded reconcileSignalsConfigMap_def]] by (simp add: emptyConfigMap_def)
    then have "signals_only key t0 w'" by (rule signals_only_call [OF w]) (use assms(2) in \<open>auto simp: key_of_def\<close>)
    then show "case r of Ok a \<Rightarrow> signals_only key t0 w' | Err e \<Rightarrow> signals_only key t0 w' | Panic \<Rightarrow> failed key t0 Panic w'"
      by (simp add: failed_def split: go.split)
  qed
  show ?thesis
    unfolding withAutoscaling_def Let_def using en
    by (intro always_if always_onErr [where I = "\<lambda>_. signals_only key t0" and H = "\<lambda>_. signals_only key t0" and
        m = "reconcileSignalsConfigMap P c (Name (metadata c) @ ''-signals'') base"] first second failed_requeueDegraded) simp
qed

lemma failed_ensureFinalizer:
  assumes law: "update_law P view crs" and c: "usesPrometheus c" "key_of (metadata c) = key"
    and k: "\<And>d. usesPrometheus d \<Longrightarrow> key_of (metadata d) = key \<Longrightarrow> always (k d) (signals_only key t0) (failed key t0)"
  shows "always (ensureFinalizer P c k) (\<lambda>w. signals_only key t0 w \<and> crs (env w) key = Some old) (failed key t0)"
proof -
  have "always (onErr (invoke (CallUpdate d) (ClientUpdate P d)) (\<lambda>e. ret (noRequeue, Some e)) k)
      (\<lambda>w. signals_only key t0 w \<and> crs (env w) key = Some old) (failed key t0)"
    if d: "spec d = spec c" "key_of (metadata d) = key" for d
  proof (rule always_onErr [where I = "\<lambda>c' w. signals_only key t0 w \<and> (usesPrometheus c' \<and> key_of (metadata c') = key)"
        and H = "\<lambda>_. signals_only key t0"])
    show "always (invoke (CallUpdate d) (ClientUpdate P d)) (\<lambda>w. signals_only key t0 w \<and> crs (env w) key = Some old)
      (\<lambda>r w. case r of Ok c' \<Rightarrow> signals_only key t0 w \<and> (usesPrometheus c' \<and> key_of (metadata c') = key)
       | Err e \<Rightarrow> signals_only key t0 w | Panic \<Rightarrow> failed key t0 Panic w)"
    proof (intro always_invoke)
      fix w r x assume w: "signals_only key t0 w \<and> crs (env w) key = Some old" and u: "ClientUpdate P d (env w) = (r, x)"
      have "signals_only key t0 (w\<lparr>env := x, calls := calls w @ [CallUpdate d]\<rparr>)"
        using w by (auto elim: signals_only_call)
      moreover have "spec c' = spec d \<and> server_meta (metadata d) (metadata c')" if "r = Inr c'" for c'
        using law u w that d(2) unfolding update_law_def by blast
      ultimately show "case of_sum r of
          Ok c' \<Rightarrow> signals_only key t0 (w\<lparr>env := x, calls := calls w @ [CallUpdate d]\<rparr>) \<and> (usesPrometheus c' \<and> key_of (metadata c') = key)
        | Err e \<Rightarrow> signals_only key t0 (w\<lparr>env := x, calls := calls w @ [CallUpdate d]\<rparr>)
        | Panic \<Rightarrow> failed key t0 Panic (w\<lparr>env := x, calls := calls w @ [CallUpdate d]\<rparr>)"
        using c d by (cases r) (auto simp: usesPrometheus_def server_metaD)
    qed
  next
    show "always (k a) (\<lambda>w. signals_only key t0 w \<and> (usesPrometheus a \<and> key_of (metadata a) = key)) (failed key t0)" for a
      by (rule always_assume) (simp add: k)
  qed (rule failed_ret)
  then show ?thesis
    unfolding ensureFinalizer_def Let_def
    by (intro always_if) (auto intro: always_pre [OF k [OF c]] simp: putFinalizers_def key_of_def c(2) [unfolded key_of_def])
qed

lemma Reconcile_prometheus:
  assumes law: "contract P view crs"
    and c0: "crs (env w) req = Some c0" "DeletionTimestamp (metadata c0) = None" and prom: "usesPrometheus c0"
    and run: "Reconcile P req w = (r, w')"
  shows "failed (key_of (metadata c0)) (calls w) r w'"
  using law c0(1) run
proof (cases rule: Reconcile_start)
  case (stopped e t)
  then show ?thesis by (auto simp: failed_def signals_only_def)
next
  case (patched c u x)
  note M = server_metaD [OF patched(5)]
  have prom': "usesPrometheus c" using prom patched(3) by (simp add: usesPrometheus_def applyDefaults_def)
  have "always (ensureFinalizer P c (reconcileLive P c0)) (\<lambda>u. signals_only (key_of (metadata c0)) (calls w) u \<and>
      crs (env u) (key_of (metadata c0)) = Some c) (failed (key_of (metadata c0)) (calls w))"
    by (rule failed_ensureFinalizer [OF contractD(7) [OF law] prom' M(3)])
      (simp add: reconcileLive_def Let_def failed_withAutoscaling)
  moreover have "ensureFinalizer P c (reconcileLive P c0) u = (r, w')"
    using patched(1) M(7) c0(2) by (simp add: reconcilePatched_def)
  moreover have "signals_only (key_of (metadata c0)) (calls w) u" using patched(8) by (simp add: signals_only_def)
  ultimately show ?thesis using patched(2,7) by (auto dest: alwaysD)
qed

end
