(* ===== verification/Memory.thy ===== *)
theory Memory
  imports Prelude
begin

text \<open>
  Go's memory, where aliasing matters: a memory is the list of its cells, an address an index, a
  pointer an optional address, a slice a window into an array. Deep copying is a contract (a locale)
  between a copying function, the value a piece of data denotes and the addresses it reaches, with
  the combinators that build copies of pointers, slices and structs from copies of their parts.
\<close>

section \<open>Cells, pointers, slices\<close>

type_synonym addr = nat
type_synonym 'c memory = "'c list"

text \<open>\<open>new\<close> or \<open>make\<close> followed by the write that fills it.\<close>

definition new :: "'c \<Rightarrow> ('c memory, addr) comp" where
  "new c = (\<lambda>h. (Ok (length h), h @ [c]))"

text \<open>Reading a cell as the kind of data it holds.\<close>

definition peek :: "('c \<Rightarrow> 'v option) \<Rightarrow> 'c memory \<Rightarrow> addr \<Rightarrow> 'v option" where
  "peek as h a = (if a < length h then as (h ! a) else None)"

definition load :: "('c \<Rightarrow> 'v option) \<Rightarrow> addr \<Rightarrow> ('c memory, 'v) comp" where
  "load as a = (\<lambda>h. case peek as h a of Some v \<Rightarrow> (Ok v, h) | None \<Rightarrow> (Panic, h))"

record slice =
  sl_Array :: addr
  sl_Off :: nat
  sl_Len :: nat

definition window :: "slice \<Rightarrow> 'v list \<Rightarrow> 'v list option" where
  "window s xs = (if sl_Off s + sl_Len s \<le> length xs then Some (take (sl_Len s) (drop (sl_Off s) xs)) else None)"

definition elems :: "('c \<Rightarrow> 'v list option) \<Rightarrow> 'c memory \<Rightarrow> slice \<Rightarrow> 'v list option" where
  "elems as h s = Option.bind (peek as h (sl_Array s)) (window s)"

definition loadElems :: "('c \<Rightarrow> 'v list option) \<Rightarrow> slice \<Rightarrow> ('c memory, 'v list) comp" where
  "loadElems as s = (\<lambda>h. case elems as h s of Some xs \<Rightarrow> (Ok xs, h) | None \<Rightarrow> (Panic, h))"

section \<open>Copying\<close>

text \<open>\<open>if p != nil { q = new(T); *q = copy of *p }\<close>.\<close>

definition copyPointer ::
  "('c \<Rightarrow> 'x option) \<Rightarrow> ('x \<Rightarrow> 'c) \<Rightarrow> ('x \<Rightarrow> ('c memory, 'x) comp) \<Rightarrow> addr option \<Rightarrow> ('c memory, addr option) comp" where
  "copyPointer as mk c p =
     (case p of
        None \<Rightarrow> ret None
      | Some a \<Rightarrow> andThen (load as a) (\<lambda>x. andThen (c x) (\<lambda>y. andThen (new (mk y)) (\<lambda>b. ret (Some b)))))"

fun each :: "('x \<Rightarrow> ('s, 'y) comp) \<Rightarrow> 'x list \<Rightarrow> ('s, 'y list) comp" where
  "each c [] = ret []"
| "each c (x # xs) = andThen (c x) (\<lambda>y. andThen (each c xs) (\<lambda>ys. ret (y # ys)))"

text \<open>\<open>if s != nil { t = make([]T, len(s)); for i := range s { copy s[i] into t[i] } }\<close>.\<close>

definition copySlice ::
  "('c \<Rightarrow> 'x list option) \<Rightarrow> ('x list \<Rightarrow> 'c) \<Rightarrow> ('x \<Rightarrow> ('c memory, 'x) comp) \<Rightarrow> slice option \<Rightarrow>
     ('c memory, slice option) comp" where
  "copySlice as mk c p =
     (case p of
        None \<Rightarrow> ret None
      | Some s \<Rightarrow> andThen (loadElems as s) (\<lambda>xs. andThen (each c xs) (\<lambda>ys. andThen (new (mk ys))
          (\<lambda>b. ret (Some \<lparr>sl_Array = b, sl_Off = 0, sl_Len = length ys\<rparr>)))))"

definition copyPair ::
  "('x \<Rightarrow> ('s, 'x) comp) \<Rightarrow> ('y \<Rightarrow> ('s, 'y) comp) \<Rightarrow> 'x \<times> 'y \<Rightarrow> ('s, 'x \<times> 'y) comp" where
  "copyPair c d = (\<lambda>(x, y). andThen (c x) (\<lambda>x'. andThen (d y) (\<lambda>y'. ret (x', y'))))"

section \<open>What data denotes and reaches\<close>

definition plainVal :: "'c memory \<Rightarrow> 'x \<Rightarrow> 'x option" where
  "plainVal h x = Some x"

definition plainRefs :: "'c memory \<Rightarrow> 'x \<Rightarrow> addr set" where
  "plainRefs h x = {}"

definition pointerVal ::
  "('c \<Rightarrow> 'x option) \<Rightarrow> ('c memory \<Rightarrow> 'x \<Rightarrow> 'v option) \<Rightarrow> 'c memory \<Rightarrow> addr option \<Rightarrow> 'v option option" where
  "pointerVal as A h p =
     (case p of None \<Rightarrow> Some None | Some a \<Rightarrow> Option.bind (peek as h a) (\<lambda>x. map_option Some (A h x)))"

definition pointerRefs ::
  "('c \<Rightarrow> 'x option) \<Rightarrow> ('c memory \<Rightarrow> 'x \<Rightarrow> addr set) \<Rightarrow> 'c memory \<Rightarrow> addr option \<Rightarrow> addr set" where
  "pointerRefs as R h p =
     (case p of None \<Rightarrow> {} | Some a \<Rightarrow> insert a (case peek as h a of None \<Rightarrow> {} | Some x \<Rightarrow> R h x))"

fun listVal :: "('c memory \<Rightarrow> 'x \<Rightarrow> 'v option) \<Rightarrow> 'c memory \<Rightarrow> 'x list \<Rightarrow> 'v list option" where
  "listVal A h [] = Some []"
| "listVal A h (x # xs) = Option.bind (A h x) (\<lambda>v. map_option (\<lambda>vs. v # vs) (listVal A h xs))"

definition listRefs :: "('c memory \<Rightarrow> 'x \<Rightarrow> addr set) \<Rightarrow> 'c memory \<Rightarrow> 'x list \<Rightarrow> addr set" where
  "listRefs R h xs = \<Union> (R h ` set xs)"

definition sliceVal ::
  "('c \<Rightarrow> 'x list option) \<Rightarrow> ('c memory \<Rightarrow> 'x \<Rightarrow> 'v option) \<Rightarrow> 'c memory \<Rightarrow> slice option \<Rightarrow> 'v list option option" where
  "sliceVal as A h p =
     (case p of None \<Rightarrow> Some None | Some s \<Rightarrow> Option.bind (elems as h s) (\<lambda>xs. map_option Some (listVal A h xs)))"

definition sliceRefs ::
  "('c \<Rightarrow> 'x list option) \<Rightarrow> ('c memory \<Rightarrow> 'x \<Rightarrow> addr set) \<Rightarrow> 'c memory \<Rightarrow> slice option \<Rightarrow> addr set" where
  "sliceRefs as R h p =
     (case p of None \<Rightarrow> {} | Some s \<Rightarrow> insert (sl_Array s) (case elems as h s of None \<Rightarrow> {} | Some xs \<Rightarrow> listRefs R h xs))"

definition pairVal ::
  "('c memory \<Rightarrow> 'x \<Rightarrow> 'v option) \<Rightarrow> ('c memory \<Rightarrow> 'y \<Rightarrow> 'u option) \<Rightarrow> 'c memory \<Rightarrow> 'x \<times> 'y \<Rightarrow> ('v \<times> 'u) option" where
  "pairVal A B h = (\<lambda>(x, y). Option.bind (A h x) (\<lambda>v. map_option (\<lambda>u. (v, u)) (B h y)))"

definition pairRefs ::
  "('c memory \<Rightarrow> 'x \<Rightarrow> addr set) \<Rightarrow> ('c memory \<Rightarrow> 'y \<Rightarrow> addr set) \<Rightarrow> 'c memory \<Rightarrow> 'x \<times> 'y \<Rightarrow> addr set" where
  "pairRefs R S h = (\<lambda>(x, y). R h x \<union> S h y)"

section \<open>The contract\<close>

text \<open>
  Data that denotes a value is copied without a panic; the copy denotes the same value, only new cells
  are written, and the copy reaches only those. What data denotes and reaches depends on the cells it
  reaches and on nothing else.
\<close>

locale deep_copy =
  fixes copy :: "'x \<Rightarrow> ('c memory, 'x) comp"
    and A :: "'c memory \<Rightarrow> 'x \<Rightarrow> 'v option"
    and R :: "'c memory \<Rightarrow> 'x \<Rightarrow> addr set"
  assumes copies: "A h x = Some v \<Longrightarrow>
      \<exists>y t. copy x h = (Ok y, h @ t) \<and> A (h @ t) y = Some v \<and> R (h @ t) y \<subseteq> {length h..<length h + length t}"
    and bounded: "A h x = Some v \<Longrightarrow> R h x \<subseteq> {..<length h}"
    and stable: "A h x = Some v \<Longrightarrow> (\<And>a. a \<in> R h x \<Longrightarrow> a < length h' \<and> h' ! a = h ! a) \<Longrightarrow>
      A h' x = Some v \<and> R h' x = R h x"
begin

lemma grow: "A h x = Some v \<Longrightarrow> A (h @ t) x = Some v \<and> R (h @ t) x = R h x"
  using bounded [of h x v] by (intro stable) (auto simp: nth_append)

text \<open>Writing to a cell that some data does not reach leaves what it denotes.\<close>

lemma frame: "A h x = Some v \<Longrightarrow> a \<notin> R h x \<Longrightarrow> A (h[a := c]) x = Some v \<and> R (h[a := c]) x = R h x"
  using bounded [of h x v] by (intro stable) (auto, metis nth_list_update_neq)

text \<open>A copy and its original denote the same value and share no cell.\<close>

lemma separate:
  assumes "A h x = Some v" "copy x h = (r, h')"
  shows "\<exists>y. r = Ok y \<and> A h' y = Some v \<and> A h' x = Some v \<and> R h' y \<inter> R h' x = {} \<and>
    (\<forall>a < length h. h' ! a = h ! a) \<and> length h \<le> length h'"
proof -
  obtain y t where "copy x h = (Ok y, h @ t)" "A (h @ t) y = Some v"
      "R (h @ t) y \<subseteq> {length h..<length h + length t}"
    using copies [OF assms(1)] by blast
  then show ?thesis using assms grow [OF assms(1), of t] bounded [OF assms(1)] by (fastforce simp: nth_append)
qed

end

section \<open>Building contracts\<close>

lemma deep_copy_plain: "deep_copy ret plainVal plainRefs"
  by unfold_locales (auto simp: plainVal_def plainRefs_def comp_defs)

lemma deep_copy_pair:
  assumes c: "deep_copy c A R" and d: "deep_copy d B S"
  shows "deep_copy (copyPair c d) (pairVal A B) (pairRefs R S)"
proof
  fix h p v assume "pairVal A B h p = Some v"
  then obtain x y a b where p: "p = (x, y)" "v = (a, b)" and xy: "A h x = Some a" "B h y = Some b"
    by (cases p) (auto simp: pairVal_def bind_eq_Some_conv)
  show "pairRefs R S h p \<subseteq> {..<length h}"
    using deep_copy.bounded [OF c xy(1)] deep_copy.bounded [OF d xy(2)] p by (auto simp: pairRefs_def)
  obtain x' t where 1: "c x h = (Ok x', h @ t)" "A (h @ t) x' = Some a" "R (h @ t) x' \<subseteq> {length h..<length h + length t}"
    using deep_copy.copies [OF c xy(1)] by blast
  obtain y' u where 2: "d y (h @ t) = (Ok y', (h @ t) @ u)" "B ((h @ t) @ u) y' = Some b"
      "S ((h @ t) @ u) y' \<subseteq> {length (h @ t)..<length (h @ t) + length u}"
    using deep_copy.copies [OF d deep_copy.grow [OF d xy(2), of t, THEN conjunct1]] by blast
  show "\<exists>y t. copyPair c d p h = (Ok y, h @ t) \<and> pairVal A B (h @ t) y = Some v \<and>
      pairRefs R S (h @ t) y \<subseteq> {length h..<length h + length t}"
    using 1 2 deep_copy.grow [OF c 1(2), of u] p
    by (intro exI [of _ "(x', y')"] exI [of _ "t @ u"]) (fastforce simp: copyPair_def andThen_Ok pairVal_def pairRefs_def comp_defs)
next
  fix h p v h' assume "pairVal A B h p = Some v" and same: "\<And>a. a \<in> pairRefs R S h p \<Longrightarrow> a < length h' \<and> h' ! a = h ! a"
  then obtain x y a b where p: "p = (x, y)" "v = (a, b)" and xy: "A h x = Some a" "B h y = Some b"
    by (cases p) (auto simp: pairVal_def bind_eq_Some_conv)
  show "pairVal A B h' p = Some v \<and> pairRefs R S h' p = pairRefs R S h p"
    using deep_copy.stable [OF c xy(1), of h'] deep_copy.stable [OF d xy(2), of h'] same p
    by (simp add: pairVal_def pairRefs_def)
qed

text \<open>A struct copied through the fields that hold pointers.\<close>

lemma deep_copy_struct:
  assumes c: "deep_copy c A R"
    and "\<And>x. copy x = andThen (c (get x)) (\<lambda>p. ret (put p x))"
    and "\<And>p x. get (put p x) = p" "\<And>p x. wrap (put p x) = wrap x"
    and "\<And>h x. val h x = map_option (wrap x) (A h (get x))" "\<And>h x. refs h x = R h (get x)"
  shows "deep_copy copy val refs"
proof
  fix h x v assume "val h x = Some v"
  then obtain a where a: "A h (get x) = Some a" "v = wrap x a" by (auto simp: assms(5))
  show "refs h x \<subseteq> {..<length h}" using deep_copy.bounded [OF c a(1)] by (simp add: assms(6))
  obtain p t where "c (get x) h = (Ok p, h @ t)" "A (h @ t) p = Some a" "R (h @ t) p \<subseteq> {length h..<length h + length t}"
    using deep_copy.copies [OF c a(1)] by blast
  then show "\<exists>y t. copy x h = (Ok y, h @ t) \<and> val (h @ t) y = Some v \<and> refs (h @ t) y \<subseteq> {length h..<length h + length t}"
    using a(2) by (intro exI [of _ "put p x"] exI [of _ t]) (simp add: assms(2-6) andThen_Ok, simp add: ret_def)
next
  fix h x v h' assume "val h x = Some v" and same: "\<And>a. a \<in> refs h x \<Longrightarrow> a < length h' \<and> h' ! a = h ! a"
  then show "val h' x = Some v \<and> refs h' x = refs h x"
    using deep_copy.stable [OF c, of h "get x" _ h'] by (auto simp: assms(5,6))
qed

lemma listVal_elem: "listVal A h xs = Some vs \<Longrightarrow> x \<in> set xs \<Longrightarrow> \<exists>v. A h x = Some v"
  by (induction xs arbitrary: vs) (auto simp: bind_eq_Some_conv)

lemma deep_copy_each:
  assumes c: "deep_copy c A R"
  shows "deep_copy (each c) (listVal A) (listRefs R)"
proof
  fix h xs v assume v: "listVal A h xs = Some v"
  show "listRefs R h xs \<subseteq> {..<length h}"
    using listVal_elem [OF v] deep_copy.bounded [OF c] unfolding listRefs_def by blast
  show "\<exists>ys t. each c xs h = (Ok ys, h @ t) \<and> listVal A (h @ t) ys = Some v \<and>
      listRefs R (h @ t) ys \<subseteq> {length h..<length h + length t}"
    using v
  proof (induction xs arbitrary: v h)
    case Nil
    then show ?case by (auto simp: ret_def listRefs_def)
  next
    case (Cons x xs)
    then obtain a vs where a: "A h x = Some a" "listVal A h xs = Some vs" "v = a # vs"
      by (auto simp: bind_eq_Some_conv)
    obtain y t where 1: "c x h = (Ok y, h @ t)" "A (h @ t) y = Some a" "R (h @ t) y \<subseteq> {length h..<length h + length t}"
      using deep_copy.copies [OF c a(1)] by blast
    have "listVal A (h @ t) xs = Some vs"
      using a(2) deep_copy.grow [OF c] by (induction xs arbitrary: vs) (auto simp: bind_eq_Some_conv)
    then obtain ys u where 2: "each c xs (h @ t) = (Ok ys, (h @ t) @ u)" "listVal A ((h @ t) @ u) ys = Some vs"
        "listRefs R ((h @ t) @ u) ys \<subseteq> {length (h @ t)..<length (h @ t) + length u}"
      using Cons.IH by blast
    show ?case
      using 1 2 deep_copy.grow [OF c 1(2), of u] a(3)
      by (intro exI [of _ "y # ys"] exI [of _ "t @ u"]) (fastforce simp: andThen_Ok ret_def listRefs_def)
  qed
next
  fix h xs v h' assume "listVal A h xs = Some v" and same: "\<And>a. a \<in> listRefs R h xs \<Longrightarrow> a < length h' \<and> h' ! a = h ! a"
  then show "listVal A h' xs = Some v \<and> listRefs R h' xs = listRefs R h xs"
  proof (induction xs arbitrary: v)
    case (Cons x xs)
    then obtain a vs where a: "A h x = Some a" "listVal A h xs = Some vs" "v = a # vs"
      by (auto simp: bind_eq_Some_conv)
    then show ?case
      using Cons.IH Cons.prems(2) deep_copy.stable [OF c a(1), of h'] by (auto simp: listRefs_def)
  qed (simp add: listRefs_def)
qed

text \<open>Reading back a cell just written, and cells that stay.\<close>

lemma peek_new [simp]: "peek as (h @ [c]) (length h) = as c"
  by (simp add: peek_def)

lemma peek_same: "peek as h a = Some x \<Longrightarrow> a < length h' \<and> h' ! a = h ! a \<Longrightarrow> peek as h' a = Some x"
  by (simp add: peek_def split: if_splits)

lemma peek_bound: "peek as h a = Some x \<Longrightarrow> a < length h"
  by (simp add: peek_def split: if_splits)

lemma deep_copy_pointer:
  assumes c: "deep_copy c A R" and as: "\<And>x. as (mk x) = Some x"
  shows "deep_copy (copyPointer as mk c) (pointerVal as A) (pointerRefs as R)"
proof
  fix h p v assume v: "pointerVal as A h p = Some v"
  show "pointerRefs as R h p \<subseteq> {..<length h}"
    using v deep_copy.bounded [OF c]
    by (cases p) (fastforce simp: pointerVal_def pointerRefs_def bind_eq_Some_conv dest: peek_bound)+
  show "\<exists>q t. copyPointer as mk c p h = (Ok q, h @ t) \<and> pointerVal as A (h @ t) q = Some v \<and>
      pointerRefs as R (h @ t) q \<subseteq> {length h..<length h + length t}"
  proof (cases p)
    case None
    then show ?thesis using v by (auto simp: copyPointer_def ret_def pointerVal_def pointerRefs_def)
  next
    case (Some a)
    then obtain x w where x: "peek as h a = Some x" "A h x = Some w" "v = Some w"
      using v by (auto simp: pointerVal_def bind_eq_Some_conv)
    obtain y t where 1: "c x h = (Ok y, h @ t)" "A (h @ t) y = Some w" "R (h @ t) y \<subseteq> {length h..<length h + length t}"
      using deep_copy.copies [OF c x(2)] by blast
    have "peek as (h @ t @ [mk y]) (length h + length t) = Some y"
      using peek_new [of as "h @ t" "mk y"] as by simp
    then show ?thesis
      using 1 x Some deep_copy.grow [OF c 1(2), of "[mk y]"]
      by (intro exI [of _ "Some (length h + length t)"] exI [of _ "t @ [mk y]"])
        (fastforce simp: copyPointer_def load_def andThen_Ok new_def ret_def pointerVal_def pointerRefs_def comp_defs)
  qed
next
  fix h p v h' assume v: "pointerVal as A h p = Some v" and same: "\<And>a. a \<in> pointerRefs as R h p \<Longrightarrow> a < length h' \<and> h' ! a = h ! a"
  show "pointerVal as A h' p = Some v \<and> pointerRefs as R h' p = pointerRefs as R h p"
  proof (cases p)
    case (Some a)
    then obtain x w where x: "peek as h a = Some x" "A h x = Some w" "v = Some w"
      using v by (auto simp: pointerVal_def bind_eq_Some_conv)
    have "peek as h' a = Some x" by (rule peek_same [OF x(1)]) (use same Some in \<open>simp add: pointerRefs_def\<close>)
    then show ?thesis
      using x same Some deep_copy.stable [OF c x(2), of h'] by (auto simp: pointerVal_def pointerRefs_def)
  qed (use v in \<open>auto simp: pointerVal_def pointerRefs_def\<close>)
qed

lemma copyPointer_Some:
  assumes c: "deep_copy c A R" and as: "\<And>x. as (mk x) = Some x" and v: "pointerVal as A h (Some a) = Some v"
  shows "\<exists>b t. copyPointer as mk c (Some a) h = (Ok (Some b), h @ t) \<and> pointerVal as A (h @ t) (Some b) = Some v \<and>
    pointerRefs as R (h @ t) (Some b) \<subseteq> {length h..<length h + length t}"
proof -
  obtain q t where q: "copyPointer as mk c (Some a) h = (Ok q, h @ t)" "pointerVal as A (h @ t) q = Some v"
      "pointerRefs as R (h @ t) q \<subseteq> {length h..<length h + length t}"
    using deep_copy.copies [OF deep_copy_pointer [OF c as] v] by blast
  have "v \<noteq> None" using v by (auto simp: pointerVal_def bind_eq_Some_conv)
  then obtain b where "q = Some b" using q(2) by (cases q) (auto simp: pointerVal_def)
  then show ?thesis using q by (auto simp: pointerRefs_def)
qed

lemma window_all: "window \<lparr>sl_Array = b, sl_Off = 0, sl_Len = length ys\<rparr> ys = Some ys"
  by (simp add: window_def)

lemma deep_copy_slice:
  assumes e: "deep_copy c A R" and as: "\<And>x. as (mk x) = Some x"
  shows "deep_copy (copySlice as mk c) (sliceVal as A) (sliceRefs as R)"
proof
  note c = deep_copy_each [OF e]
  fix h p v assume v: "sliceVal as A h p = Some v"
  show "sliceRefs as R h p \<subseteq> {..<length h}"
    using v deep_copy.bounded [OF c]
    by (cases p) (fastforce simp: sliceVal_def sliceRefs_def elems_def bind_eq_Some_conv dest: peek_bound)+
  show "\<exists>q t. copySlice as mk c p h = (Ok q, h @ t) \<and> sliceVal as A (h @ t) q = Some v \<and>
      sliceRefs as R (h @ t) q \<subseteq> {length h..<length h + length t}"
  proof (cases p)
    case None
    then show ?thesis using v by (auto simp: copySlice_def ret_def sliceVal_def sliceRefs_def)
  next
    case (Some s)
    then obtain xs w where x: "elems as h s = Some xs" "listVal A h xs = Some w" "v = Some w"
      using v by (auto simp: sliceVal_def bind_eq_Some_conv)
    obtain ys t where 1: "each c xs h = (Ok ys, h @ t)" "listVal A (h @ t) ys = Some w"
        "listRefs R (h @ t) ys \<subseteq> {length h..<length h + length t}"
      using deep_copy.copies [OF c x(2)] by blast
    let ?s = "\<lparr>sl_Array = length h + length t, sl_Off = 0, sl_Len = length ys\<rparr>"
    have "elems as (h @ t @ [mk ys]) ?s = Some ys"
      using peek_new [of as "h @ t" "mk ys"] as by (simp add: elems_def window_all)
    then show ?thesis
      using 1 x Some deep_copy.grow [OF c 1(2), of "[mk ys]"]
      by (intro exI [of _ "Some ?s"] exI [of _ "t @ [mk ys]"])
        (fastforce simp: copySlice_def loadElems_def andThen_Ok new_def ret_def sliceVal_def sliceRefs_def comp_defs)
  qed
next
  note c = deep_copy_each [OF e]
  fix h p v h' assume v: "sliceVal as A h p = Some v" and same: "\<And>a. a \<in> sliceRefs as R h p \<Longrightarrow> a < length h' \<and> h' ! a = h ! a"
  show "sliceVal as A h' p = Some v \<and> sliceRefs as R h' p = sliceRefs as R h p"
  proof (cases p)
    case (Some s)
    then obtain xs w where x: "elems as h s = Some xs" "listVal A h xs = Some w" "v = Some w"
      using v by (auto simp: sliceVal_def bind_eq_Some_conv)
    then obtain ys where ys: "peek as h (sl_Array s) = Some ys" "window s ys = Some xs"
      by (auto simp: elems_def bind_eq_Some_conv)
    have "peek as h' (sl_Array s) = Some ys" by (rule peek_same [OF ys(1)]) (use same Some in \<open>simp add: sliceRefs_def\<close>)
    then have "elems as h' s = Some xs" using ys(2) by (simp add: elems_def)
    then show ?thesis
      using x same Some deep_copy.stable [OF c x(2), of h'] by (auto simp: sliceVal_def sliceRefs_def)
  qed (use v in \<open>auto simp: sliceVal_def sliceRefs_def\<close>)
qed

end
