(* ===== verification/DeepCopy.thy ===== *)
theory DeepCopy
  imports Memory Defaults
begin

text \<open>
  \<open>zz_generated.deepcopy.go\<close>: the copying functions of the API types over an explicit memory. A type
  \<open>hT\<close> is the struct \<open>T\<close> as it lies in memory, with addresses for pointers and slices; \<open>T_DeepCopyInto\<close>
  gives the struct written through \<open>out\<close>, \<open>T_DeepCopy\<close> follows and returns pointers. \<open>T_val\<close> is the
  value of \<open>Types\<close> a struct denotes, \<open>T_refs\<close> the addresses it reaches. Every copy is an instance of
  the contract \<open>deep_copy\<close>. At the end, the first lines of \<open>Reconcile\<close>, which copy the resource twice
  and write defaults into one of the copies.
\<close>

section \<open>Structs in memory\<close>

record hAutoscalingSignalsSpec =
  hs_Source :: SignalsSource
  hs_PrometheusURL :: "addr option"

record hAutoscalingSpec =
  ha_Enabled :: "addr option"
  ha_MinReplicas :: "addr option"
  ha_MaxReplicas :: "addr option"
  ha_Signals :: hAutoscalingSignalsSpec

record hKVCacheSpec =
  hk_Strategy :: KVCacheStrategy
  hk_NumShards :: "addr option"
  hk_EvictionPolicy :: EvictionPolicy
  hk_WarmCache :: WarmCacheMode

record hRoutingSpec =
  hr_Mode :: RoutingMode
  hr_HashKey :: "addr option"
  hr_RouterReplicas :: "addr option"

record hModelSpec =
  hm_Name :: string
  hm_Image :: string
  hm_Args :: "slice option"
  hm_Env :: "slice option"

record hWorkloadRoleSpec =
  hw_Replicas :: "addr option"
  hw_ServicePort :: "addr option"
  hw_PodLabels :: "addr option"

record hRuntimeSpec =
  hrt_Prefill :: hWorkloadRoleSpec
  hrt_Decode :: hWorkloadRoleSpec

record hLLMInferenceClusterSpec =
  hsp_Model :: hModelSpec
  hsp_Runtime :: hRuntimeSpec
  hsp_KVCache :: hKVCacheSpec
  hsp_Routing :: hRoutingSpec
  hsp_Autoscaling :: hAutoscalingSpec

record hLLMInferenceClusterStatus =
  hst_ObservedGeneration :: int64
  hst_Endpoints :: ClusterEndpointsStatus
  hst_Shards :: "slice option"
  hst_Conditions :: "slice option"

record TypeMeta =
  tm_Kind :: string
  tm_APIVersion :: string

text \<open>\<open>metav1.ObjectMeta\<close> and \<open>metav1.ListMeta\<close> as they lie in memory belong to the library: \<open>'m\<close>, \<open>'l\<close>.\<close>

record 'm hLLMInferenceCluster =
  hc_TypeMeta :: TypeMeta
  hc_ObjectMeta :: 'm
  hc_Spec :: hLLMInferenceClusterSpec
  hc_Status :: hLLMInferenceClusterStatus

record 'l hLLMInferenceClusterList =
  hl_TypeMeta :: TypeMeta
  hl_ListMeta :: 'l
  hl_Items :: "slice option"

datatype ('m, 'l) cell =
    CString "string"
  | CInt32 "int32"
  | CBool "bool"
  | CStrings "string list"
  | CEnvVars "EnvVar list"
  | CStringMap "labels"
  | CShardStatuses "ShardStatus list"
  | CConditions "Condition list"
  | CAutoscalingSignalsSpec "hAutoscalingSignalsSpec"
  | CAutoscalingSpec "hAutoscalingSpec"
  | CClusterEndpointsStatus "ClusterEndpointsStatus"
  | CEnvVar "EnvVar"
  | CKVCacheSpec "hKVCacheSpec"
  | CLLMInferenceCluster "'m hLLMInferenceCluster"
  | CLLMInferenceClusters "'m hLLMInferenceCluster list"
  | CLLMInferenceClusterList "'l hLLMInferenceClusterList"
  | CLLMInferenceClusterSpec "hLLMInferenceClusterSpec"
  | CLLMInferenceClusterStatus "hLLMInferenceClusterStatus"
  | CModelSpec "hModelSpec"
  | CRoutingSpec "hRoutingSpec"
  | CRuntimeSpec "hRuntimeSpec"
  | CShardStatus "ShardStatus"
  | CWorkloadRoleSpec "hWorkloadRoleSpec"

definition asString :: "('m, 'l) cell \<Rightarrow> string option" where
  "asString c = (case c of CString v \<Rightarrow> Some v | _ \<Rightarrow> None)"

definition asInt32 :: "('m, 'l) cell \<Rightarrow> int32 option" where
  "asInt32 c = (case c of CInt32 v \<Rightarrow> Some v | _ \<Rightarrow> None)"

definition asBool :: "('m, 'l) cell \<Rightarrow> bool option" where
  "asBool c = (case c of CBool v \<Rightarrow> Some v | _ \<Rightarrow> None)"

definition asStrings :: "('m, 'l) cell \<Rightarrow> (string list) option" where
  "asStrings c = (case c of CStrings v \<Rightarrow> Some v | _ \<Rightarrow> None)"

definition asEnvVars :: "('m, 'l) cell \<Rightarrow> (EnvVar list) option" where
  "asEnvVars c = (case c of CEnvVars v \<Rightarrow> Some v | _ \<Rightarrow> None)"

definition asStringMap :: "('m, 'l) cell \<Rightarrow> labels option" where
  "asStringMap c = (case c of CStringMap v \<Rightarrow> Some v | _ \<Rightarrow> None)"

definition asShardStatuses :: "('m, 'l) cell \<Rightarrow> (ShardStatus list) option" where
  "asShardStatuses c = (case c of CShardStatuses v \<Rightarrow> Some v | _ \<Rightarrow> None)"

definition asConditions :: "('m, 'l) cell \<Rightarrow> (Condition list) option" where
  "asConditions c = (case c of CConditions v \<Rightarrow> Some v | _ \<Rightarrow> None)"

definition asAutoscalingSignalsSpec :: "('m, 'l) cell \<Rightarrow> hAutoscalingSignalsSpec option" where
  "asAutoscalingSignalsSpec c = (case c of CAutoscalingSignalsSpec v \<Rightarrow> Some v | _ \<Rightarrow> None)"

definition asAutoscalingSpec :: "('m, 'l) cell \<Rightarrow> hAutoscalingSpec option" where
  "asAutoscalingSpec c = (case c of CAutoscalingSpec v \<Rightarrow> Some v | _ \<Rightarrow> None)"

definition asClusterEndpointsStatus :: "('m, 'l) cell \<Rightarrow> ClusterEndpointsStatus option" where
  "asClusterEndpointsStatus c = (case c of CClusterEndpointsStatus v \<Rightarrow> Some v | _ \<Rightarrow> None)"

definition asEnvVar :: "('m, 'l) cell \<Rightarrow> EnvVar option" where
  "asEnvVar c = (case c of CEnvVar v \<Rightarrow> Some v | _ \<Rightarrow> None)"

definition asKVCacheSpec :: "('m, 'l) cell \<Rightarrow> hKVCacheSpec option" where
  "asKVCacheSpec c = (case c of CKVCacheSpec v \<Rightarrow> Some v | _ \<Rightarrow> None)"

definition asLLMInferenceCluster :: "('m, 'l) cell \<Rightarrow> ('m hLLMInferenceCluster) option" where
  "asLLMInferenceCluster c = (case c of CLLMInferenceCluster v \<Rightarrow> Some v | _ \<Rightarrow> None)"

definition asLLMInferenceClusters :: "('m, 'l) cell \<Rightarrow> ('m hLLMInferenceCluster list) option" where
  "asLLMInferenceClusters c = (case c of CLLMInferenceClusters v \<Rightarrow> Some v | _ \<Rightarrow> None)"

definition asLLMInferenceClusterList :: "('m, 'l) cell \<Rightarrow> ('l hLLMInferenceClusterList) option" where
  "asLLMInferenceClusterList c = (case c of CLLMInferenceClusterList v \<Rightarrow> Some v | _ \<Rightarrow> None)"

definition asLLMInferenceClusterSpec :: "('m, 'l) cell \<Rightarrow> hLLMInferenceClusterSpec option" where
  "asLLMInferenceClusterSpec c = (case c of CLLMInferenceClusterSpec v \<Rightarrow> Some v | _ \<Rightarrow> None)"

definition asLLMInferenceClusterStatus :: "('m, 'l) cell \<Rightarrow> hLLMInferenceClusterStatus option" where
  "asLLMInferenceClusterStatus c = (case c of CLLMInferenceClusterStatus v \<Rightarrow> Some v | _ \<Rightarrow> None)"

definition asModelSpec :: "('m, 'l) cell \<Rightarrow> hModelSpec option" where
  "asModelSpec c = (case c of CModelSpec v \<Rightarrow> Some v | _ \<Rightarrow> None)"

definition asRoutingSpec :: "('m, 'l) cell \<Rightarrow> hRoutingSpec option" where
  "asRoutingSpec c = (case c of CRoutingSpec v \<Rightarrow> Some v | _ \<Rightarrow> None)"

definition asRuntimeSpec :: "('m, 'l) cell \<Rightarrow> hRuntimeSpec option" where
  "asRuntimeSpec c = (case c of CRuntimeSpec v \<Rightarrow> Some v | _ \<Rightarrow> None)"

definition asShardStatus :: "('m, 'l) cell \<Rightarrow> ShardStatus option" where
  "asShardStatus c = (case c of CShardStatus v \<Rightarrow> Some v | _ \<Rightarrow> None)"

definition asWorkloadRoleSpec :: "('m, 'l) cell \<Rightarrow> hWorkloadRoleSpec option" where
  "asWorkloadRoleSpec c = (case c of CWorkloadRoleSpec v \<Rightarrow> Some v | _ \<Rightarrow> None)"

lemma as_cell [simp]:
  "asString (CString v0) = Some v0"
  "asInt32 (CInt32 v1) = Some v1"
  "asBool (CBool v2) = Some v2"
  "asStrings (CStrings v3) = Some v3"
  "asEnvVars (CEnvVars v4) = Some v4"
  "asStringMap (CStringMap v5) = Some v5"
  "asShardStatuses (CShardStatuses v6) = Some v6"
  "asConditions (CConditions v7) = Some v7"
  "asAutoscalingSignalsSpec (CAutoscalingSignalsSpec v8) = Some v8"
  "asAutoscalingSpec (CAutoscalingSpec v9) = Some v9"
  "asClusterEndpointsStatus (CClusterEndpointsStatus v10) = Some v10"
  "asEnvVar (CEnvVar v11) = Some v11"
  "asKVCacheSpec (CKVCacheSpec v12) = Some v12"
  "asLLMInferenceCluster (CLLMInferenceCluster v13) = Some v13"
  "asLLMInferenceClusters (CLLMInferenceClusters v14) = Some v14"
  "asLLMInferenceClusterList (CLLMInferenceClusterList v15) = Some v15"
  "asLLMInferenceClusterSpec (CLLMInferenceClusterSpec v16) = Some v16"
  "asLLMInferenceClusterStatus (CLLMInferenceClusterStatus v17) = Some v17"
  "asModelSpec (CModelSpec v18) = Some v18"
  "asRoutingSpec (CRoutingSpec v19) = Some v19"
  "asRuntimeSpec (CRuntimeSpec v20) = Some v20"
  "asShardStatus (CShardStatus v21) = Some v21"
  "asWorkloadRoleSpec (CWorkloadRoleSpec v22) = Some v22"
  by (simp_all add: asString_def asInt32_def asBool_def asStrings_def asEnvVars_def asStringMap_def asShardStatuses_def asConditions_def asAutoscalingSignalsSpec_def asAutoscalingSpec_def asClusterEndpointsStatus_def asEnvVar_def asKVCacheSpec_def asLLMInferenceCluster_def asLLMInferenceClusters_def asLLMInferenceClusterList_def asLLMInferenceClusterSpec_def asLLMInferenceClusterStatus_def asModelSpec_def asRoutingSpec_def asRuntimeSpec_def asShardStatus_def asWorkloadRoleSpec_def)

type_synonym ('m, 'l) mem = "('m, 'l) cell memory"

text \<open>
  The copying functions of the library's own types, with what its types denote and reach, and the
  contract its documentation gives: each is a deep copy. \<open>metav1.Condition\<close> and \<open>metav1.Time\<close> hold no
  pointers the program looks at.
\<close>

record ('m, 'l, 'v) apimachinery =
  om_DeepCopyInto :: "'m \<Rightarrow> (('m, 'l) mem, 'm) comp"
  om_val :: "('m, 'l) mem \<Rightarrow> 'm \<Rightarrow> ObjectMeta option"
  om_refs :: "('m, 'l) mem \<Rightarrow> 'm \<Rightarrow> addr set"
  lm_DeepCopyInto :: "'l \<Rightarrow> (('m, 'l) mem, 'l) comp"
  lm_val :: "('m, 'l) mem \<Rightarrow> 'l \<Rightarrow> 'v option"
  lm_refs :: "('m, 'l) mem \<Rightarrow> 'l \<Rightarrow> addr set"
  cond_DeepCopyInto :: "Condition \<Rightarrow> (('m, 'l) mem, Condition) comp"
  time_DeepCopyInto :: "Time \<Rightarrow> (('m, 'l) mem, Time) comp"

definition copies_deeply :: "('m, 'l, 'v) apimachinery \<Rightarrow> bool" where
  "copies_deeply K \<longleftrightarrow>
     deep_copy (om_DeepCopyInto K) (om_val K) (om_refs K) \<and> deep_copy (lm_DeepCopyInto K) (lm_val K) (lm_refs K) \<and>
     deep_copy (cond_DeepCopyInto K) plainVal plainRefs \<and> deep_copy (time_DeepCopyInto K) plainVal plainRefs"

lemma copies_deeplyD:
  assumes "copies_deeply K"
  shows "deep_copy (om_DeepCopyInto K) (om_val K) (om_refs K)" "deep_copy (lm_DeepCopyInto K) (lm_val K) (lm_refs K)"
    "deep_copy (cond_DeepCopyInto K) plainVal plainRefs" "deep_copy (time_DeepCopyInto K) plainVal plainRefs"
  using assms by (simp_all add: copies_deeply_def)

section \<open>The copying functions\<close>

text \<open>The pointer and map blocks: \<open>if in.F != nil { *out = new(T); **out = **in }\<close> and the loop over a map.\<close>

definition copyString :: "addr option \<Rightarrow> (('m, 'l) mem, addr option) comp" where
  "copyString = copyPointer asString CString ret"

definition copyInt32 :: "addr option \<Rightarrow> (('m, 'l) mem, addr option) comp" where
  "copyInt32 = copyPointer asInt32 CInt32 ret"

definition copyBool :: "addr option \<Rightarrow> (('m, 'l) mem, addr option) comp" where
  "copyBool = copyPointer asBool CBool ret"

definition copyStringMap :: "addr option \<Rightarrow> (('m, 'l) mem, addr option) comp" where
  "copyStringMap = copyPointer asStringMap CStringMap ret"

definition AutoscalingSignalsSpec_DeepCopyInto ::
  "hAutoscalingSignalsSpec \<Rightarrow> (('m, 'l) mem, hAutoscalingSignalsSpec) comp" where
  "AutoscalingSignalsSpec_DeepCopyInto i =
     (let out = i in
      andThen (copyString (hs_PrometheusURL i)) (\<lambda>p. ret (out\<lparr>hs_PrometheusURL := p\<rparr>)))"

definition AutoscalingSpec_DeepCopyInto :: "hAutoscalingSpec \<Rightarrow> (('m, 'l) mem, hAutoscalingSpec) comp" where
  "AutoscalingSpec_DeepCopyInto i =
     (let out = i in
      andThen (copyBool (ha_Enabled i)) (\<lambda>p. let out = out\<lparr>ha_Enabled := p\<rparr> in
      andThen (copyInt32 (ha_MinReplicas i)) (\<lambda>p. let out = out\<lparr>ha_MinReplicas := p\<rparr> in
      andThen (copyInt32 (ha_MaxReplicas i)) (\<lambda>p. let out = out\<lparr>ha_MaxReplicas := p\<rparr> in
      andThen (AutoscalingSignalsSpec_DeepCopyInto (ha_Signals i)) (\<lambda>s. ret (out\<lparr>ha_Signals := s\<rparr>))))))"

definition ClusterEndpointsStatus_DeepCopyInto ::
  "ClusterEndpointsStatus \<Rightarrow> (('m, 'l) mem, ClusterEndpointsStatus) comp" where
  "ClusterEndpointsStatus_DeepCopyInto i = ret i"

definition EnvVar_DeepCopyInto :: "EnvVar \<Rightarrow> (('m, 'l) mem, EnvVar) comp" where
  "EnvVar_DeepCopyInto i = ret i"

definition KVCacheSpec_DeepCopyInto :: "hKVCacheSpec \<Rightarrow> (('m, 'l) mem, hKVCacheSpec) comp" where
  "KVCacheSpec_DeepCopyInto i =
     (let out = i in andThen (copyInt32 (hk_NumShards i)) (\<lambda>p. ret (out\<lparr>hk_NumShards := p\<rparr>)))"

definition ModelSpec_DeepCopyInto :: "hModelSpec \<Rightarrow> (('m, 'l) mem, hModelSpec) comp" where
  "ModelSpec_DeepCopyInto i =
     (let out = i in
      andThen (copySlice asStrings CStrings ret (hm_Args i)) (\<lambda>s. let out = out\<lparr>hm_Args := s\<rparr> in
      andThen (copySlice asEnvVars CEnvVars ret (hm_Env i)) (\<lambda>s. ret (out\<lparr>hm_Env := s\<rparr>))))"

definition RoutingSpec_DeepCopyInto :: "hRoutingSpec \<Rightarrow> (('m, 'l) mem, hRoutingSpec) comp" where
  "RoutingSpec_DeepCopyInto i =
     (let out = i in
      andThen (copyString (hr_HashKey i)) (\<lambda>p. let out = out\<lparr>hr_HashKey := p\<rparr> in
      andThen (copyInt32 (hr_RouterReplicas i)) (\<lambda>p. ret (out\<lparr>hr_RouterReplicas := p\<rparr>))))"

definition WorkloadRoleSpec_DeepCopyInto :: "hWorkloadRoleSpec \<Rightarrow> (('m, 'l) mem, hWorkloadRoleSpec) comp" where
  "WorkloadRoleSpec_DeepCopyInto i =
     (let out = i in
      andThen (copyInt32 (hw_Replicas i)) (\<lambda>p. let out = out\<lparr>hw_Replicas := p\<rparr> in
      andThen (copyInt32 (hw_ServicePort i)) (\<lambda>p. let out = out\<lparr>hw_ServicePort := p\<rparr> in
      andThen (copyStringMap (hw_PodLabels i)) (\<lambda>p. ret (out\<lparr>hw_PodLabels := p\<rparr>)))))"

definition RuntimeSpec_DeepCopyInto :: "hRuntimeSpec \<Rightarrow> (('m, 'l) mem, hRuntimeSpec) comp" where
  "RuntimeSpec_DeepCopyInto i =
     (let out = i in
      andThen (WorkloadRoleSpec_DeepCopyInto (hrt_Prefill i)) (\<lambda>r. let out = out\<lparr>hrt_Prefill := r\<rparr> in
      andThen (WorkloadRoleSpec_DeepCopyInto (hrt_Decode i)) (\<lambda>r. ret (out\<lparr>hrt_Decode := r\<rparr>))))"

definition LLMInferenceClusterSpec_DeepCopyInto ::
  "hLLMInferenceClusterSpec \<Rightarrow> (('m, 'l) mem, hLLMInferenceClusterSpec) comp" where
  "LLMInferenceClusterSpec_DeepCopyInto i =
     (let out = i in
      andThen (ModelSpec_DeepCopyInto (hsp_Model i)) (\<lambda>x. let out = out\<lparr>hsp_Model := x\<rparr> in
      andThen (RuntimeSpec_DeepCopyInto (hsp_Runtime i)) (\<lambda>x. let out = out\<lparr>hsp_Runtime := x\<rparr> in
      andThen (KVCacheSpec_DeepCopyInto (hsp_KVCache i)) (\<lambda>x. let out = out\<lparr>hsp_KVCache := x\<rparr> in
      andThen (RoutingSpec_DeepCopyInto (hsp_Routing i)) (\<lambda>x. let out = out\<lparr>hsp_Routing := x\<rparr> in
      andThen (AutoscalingSpec_DeepCopyInto (hsp_Autoscaling i)) (\<lambda>x. ret (out\<lparr>hsp_Autoscaling := x\<rparr>)))))))"

definition ShardStatus_DeepCopyInto ::
  "('m, 'l, 'v) apimachinery \<Rightarrow> ShardStatus \<Rightarrow> (('m, 'l) mem, ShardStatus) comp" where
  "ShardStatus_DeepCopyInto K i =
     (let out = i in
      andThen (time_DeepCopyInto K (ss_LastHeartbeat i)) (\<lambda>t. ret (out\<lparr>ss_LastHeartbeat := t\<rparr>)))"

definition LLMInferenceClusterStatus_DeepCopyInto ::
  "('m, 'l, 'v) apimachinery \<Rightarrow> hLLMInferenceClusterStatus \<Rightarrow> (('m, 'l) mem, hLLMInferenceClusterStatus) comp" where
  "LLMInferenceClusterStatus_DeepCopyInto K i =
     (let out = i\<lparr>hst_Endpoints := hst_Endpoints i\<rparr> in
      andThen (copySlice asShardStatuses CShardStatuses (ShardStatus_DeepCopyInto K) (hst_Shards i))
        (\<lambda>s. let out = out\<lparr>hst_Shards := s\<rparr> in
      andThen (copySlice asConditions CConditions (cond_DeepCopyInto K) (hst_Conditions i))
        (\<lambda>s. ret (out\<lparr>hst_Conditions := s\<rparr>))))"

definition LLMInferenceCluster_DeepCopyInto ::
  "('m, 'l, 'v) apimachinery \<Rightarrow> 'm hLLMInferenceCluster \<Rightarrow> (('m, 'l) mem, 'm hLLMInferenceCluster) comp" where
  "LLMInferenceCluster_DeepCopyInto K i =
     (let out = i\<lparr>hc_TypeMeta := hc_TypeMeta i\<rparr> in
      andThen (om_DeepCopyInto K (hc_ObjectMeta i)) (\<lambda>m. let out = out\<lparr>hc_ObjectMeta := m\<rparr> in
      andThen (LLMInferenceClusterSpec_DeepCopyInto (hc_Spec i)) (\<lambda>s. let out = out\<lparr>hc_Spec := s\<rparr> in
      andThen (LLMInferenceClusterStatus_DeepCopyInto K (hc_Status i)) (\<lambda>s. ret (out\<lparr>hc_Status := s\<rparr>)))))"

definition LLMInferenceClusterList_DeepCopyInto ::
  "('m, 'l, 'v) apimachinery \<Rightarrow> 'l hLLMInferenceClusterList \<Rightarrow> (('m, 'l) mem, 'l hLLMInferenceClusterList) comp" where
  "LLMInferenceClusterList_DeepCopyInto K i =
     (let out = i\<lparr>hl_TypeMeta := hl_TypeMeta i\<rparr> in
      andThen (lm_DeepCopyInto K (hl_ListMeta i)) (\<lambda>m. let out = out\<lparr>hl_ListMeta := m\<rparr> in
      andThen (copySlice asLLMInferenceClusters CLLMInferenceClusters (LLMInferenceCluster_DeepCopyInto K) (hl_Items i))
        (\<lambda>s. ret (out\<lparr>hl_Items := s\<rparr>))))"

section \<open>Copies behind pointers\<close>

text \<open>\<open>if in == nil { return nil }; out := new(T); in.DeepCopyInto(out); return out\<close>.\<close>

definition AutoscalingSignalsSpec_DeepCopy :: "addr option \<Rightarrow> (('m, 'l) mem, addr option) comp" where
  "AutoscalingSignalsSpec_DeepCopy =
     copyPointer asAutoscalingSignalsSpec CAutoscalingSignalsSpec AutoscalingSignalsSpec_DeepCopyInto"

definition AutoscalingSpec_DeepCopy :: "addr option \<Rightarrow> (('m, 'l) mem, addr option) comp" where
  "AutoscalingSpec_DeepCopy = copyPointer asAutoscalingSpec CAutoscalingSpec AutoscalingSpec_DeepCopyInto"

definition ClusterEndpointsStatus_DeepCopy :: "addr option \<Rightarrow> (('m, 'l) mem, addr option) comp" where
  "ClusterEndpointsStatus_DeepCopy =
     copyPointer asClusterEndpointsStatus CClusterEndpointsStatus ClusterEndpointsStatus_DeepCopyInto"

definition EnvVar_DeepCopy :: "addr option \<Rightarrow> (('m, 'l) mem, addr option) comp" where
  "EnvVar_DeepCopy = copyPointer asEnvVar CEnvVar EnvVar_DeepCopyInto"

definition KVCacheSpec_DeepCopy :: "addr option \<Rightarrow> (('m, 'l) mem, addr option) comp" where
  "KVCacheSpec_DeepCopy = copyPointer asKVCacheSpec CKVCacheSpec KVCacheSpec_DeepCopyInto"

definition LLMInferenceCluster_DeepCopy ::
  "('m, 'l, 'v) apimachinery \<Rightarrow> addr option \<Rightarrow> (('m, 'l) mem, addr option) comp" where
  "LLMInferenceCluster_DeepCopy K =
     copyPointer asLLMInferenceCluster CLLMInferenceCluster (LLMInferenceCluster_DeepCopyInto K)"

definition LLMInferenceClusterList_DeepCopy ::
  "('m, 'l, 'v) apimachinery \<Rightarrow> addr option \<Rightarrow> (('m, 'l) mem, addr option) comp" where
  "LLMInferenceClusterList_DeepCopy K =
     copyPointer asLLMInferenceClusterList CLLMInferenceClusterList (LLMInferenceClusterList_DeepCopyInto K)"

definition LLMInferenceClusterSpec_DeepCopy :: "addr option \<Rightarrow> (('m, 'l) mem, addr option) comp" where
  "LLMInferenceClusterSpec_DeepCopy =
     copyPointer asLLMInferenceClusterSpec CLLMInferenceClusterSpec LLMInferenceClusterSpec_DeepCopyInto"

definition LLMInferenceClusterStatus_DeepCopy ::
  "('m, 'l, 'v) apimachinery \<Rightarrow> addr option \<Rightarrow> (('m, 'l) mem, addr option) comp" where
  "LLMInferenceClusterStatus_DeepCopy K =
     copyPointer asLLMInferenceClusterStatus CLLMInferenceClusterStatus (LLMInferenceClusterStatus_DeepCopyInto K)"

definition ModelSpec_DeepCopy :: "addr option \<Rightarrow> (('m, 'l) mem, addr option) comp" where
  "ModelSpec_DeepCopy = copyPointer asModelSpec CModelSpec ModelSpec_DeepCopyInto"

definition RoutingSpec_DeepCopy :: "addr option \<Rightarrow> (('m, 'l) mem, addr option) comp" where
  "RoutingSpec_DeepCopy = copyPointer asRoutingSpec CRoutingSpec RoutingSpec_DeepCopyInto"

definition RuntimeSpec_DeepCopy :: "addr option \<Rightarrow> (('m, 'l) mem, addr option) comp" where
  "RuntimeSpec_DeepCopy = copyPointer asRuntimeSpec CRuntimeSpec RuntimeSpec_DeepCopyInto"

definition ShardStatus_DeepCopy ::
  "('m, 'l, 'v) apimachinery \<Rightarrow> addr option \<Rightarrow> (('m, 'l) mem, addr option) comp" where
  "ShardStatus_DeepCopy K = copyPointer asShardStatus CShardStatus (ShardStatus_DeepCopyInto K)"

definition WorkloadRoleSpec_DeepCopy :: "addr option \<Rightarrow> (('m, 'l) mem, addr option) comp" where
  "WorkloadRoleSpec_DeepCopy = copyPointer asWorkloadRoleSpec CWorkloadRoleSpec WorkloadRoleSpec_DeepCopyInto"

text \<open>A \<open>runtime.Object\<close>: the nil interface or a typed pointer, which is never a typed nil.\<close>

datatype runtimeObject = NilObject | ClusterObject addr | ClusterListObject addr

definition LLMInferenceCluster_DeepCopyObject ::
  "('m, 'l, 'v) apimachinery \<Rightarrow> addr option \<Rightarrow> (('m, 'l) mem, runtimeObject) comp" where
  "LLMInferenceCluster_DeepCopyObject K i =
     andThen (LLMInferenceCluster_DeepCopy K i)
       (\<lambda>c. case c of Some a \<Rightarrow> ret (ClusterObject a) | None \<Rightarrow> ret NilObject)"

definition LLMInferenceClusterList_DeepCopyObject ::
  "('m, 'l, 'v) apimachinery \<Rightarrow> addr option \<Rightarrow> (('m, 'l) mem, runtimeObject) comp" where
  "LLMInferenceClusterList_DeepCopyObject K i =
     andThen (LLMInferenceClusterList_DeepCopy K i)
       (\<lambda>c. case c of Some a \<Rightarrow> ret (ClusterListObject a) | None \<Rightarrow> ret NilObject)"

section \<open>What the structs denote and reach\<close>

abbreviation strVal :: "('m, 'l) mem \<Rightarrow> addr option \<Rightarrow> string option option" where
  "strVal \<equiv> pointerVal asString plainVal"

abbreviation strRefs :: "('m, 'l) mem \<Rightarrow> addr option \<Rightarrow> addr set" where
  "strRefs \<equiv> pointerRefs asString plainRefs"

abbreviation intVal :: "('m, 'l) mem \<Rightarrow> addr option \<Rightarrow> int32 option option" where
  "intVal \<equiv> pointerVal asInt32 plainVal"

abbreviation intRefs :: "('m, 'l) mem \<Rightarrow> addr option \<Rightarrow> addr set" where
  "intRefs \<equiv> pointerRefs asInt32 plainRefs"

abbreviation boolVal :: "('m, 'l) mem \<Rightarrow> addr option \<Rightarrow> bool option option" where
  "boolVal \<equiv> pointerVal asBool plainVal"

abbreviation boolRefs :: "('m, 'l) mem \<Rightarrow> addr option \<Rightarrow> addr set" where
  "boolRefs \<equiv> pointerRefs asBool plainRefs"

abbreviation mapVal :: "('m, 'l) mem \<Rightarrow> addr option \<Rightarrow> labels option option" where
  "mapVal \<equiv> pointerVal asStringMap plainVal"

abbreviation mapRefs :: "('m, 'l) mem \<Rightarrow> addr option \<Rightarrow> addr set" where
  "mapRefs \<equiv> pointerRefs asStringMap plainRefs"

text \<open>A nil slice denotes the empty list and a nil map the empty map.\<close>

abbreviation orNil :: "'a list option \<Rightarrow> 'a list" where
  "orNil xs \<equiv> case xs of None \<Rightarrow> [] | Some ys \<Rightarrow> ys"

abbreviation orEmpty :: "labels option \<Rightarrow> labels" where
  "orEmpty m \<equiv> case m of None \<Rightarrow> Map.empty | Some n \<Rightarrow> n"

definition AutoscalingSignalsSpec_val ::
  "('m, 'l) mem \<Rightarrow> hAutoscalingSignalsSpec \<Rightarrow> AutoscalingSignalsSpec option" where
  "AutoscalingSignalsSpec_val h x =
     map_option (\<lambda>u. \<lparr>Source = hs_Source x, PrometheusURL = u\<rparr>) (strVal h (hs_PrometheusURL x))"

definition AutoscalingSignalsSpec_refs :: "('m, 'l) mem \<Rightarrow> hAutoscalingSignalsSpec \<Rightarrow> addr set" where
  "AutoscalingSignalsSpec_refs h x = strRefs h (hs_PrometheusURL x)"

abbreviation as_parts :: "hAutoscalingSpec \<Rightarrow> _" where
  "as_parts x \<equiv> (ha_Enabled x, ha_MinReplicas x, ha_MaxReplicas x, ha_Signals x)"

definition AutoscalingSpec_val :: "('m, 'l) mem \<Rightarrow> hAutoscalingSpec \<Rightarrow> AutoscalingSpec option" where
  "AutoscalingSpec_val h x =
     map_option (\<lambda>(e, mn, mx, s). \<lparr>Enabled = e, MinReplicas = mn, MaxReplicas = mx, as_Signals = s\<rparr>)
       (pairVal boolVal (pairVal intVal (pairVal intVal AutoscalingSignalsSpec_val)) h (as_parts x))"

definition AutoscalingSpec_refs :: "('m, 'l) mem \<Rightarrow> hAutoscalingSpec \<Rightarrow> addr set" where
  "AutoscalingSpec_refs h x =
     pairRefs boolRefs (pairRefs intRefs (pairRefs intRefs AutoscalingSignalsSpec_refs)) h (as_parts x)"

definition KVCacheSpec_val :: "('m, 'l) mem \<Rightarrow> hKVCacheSpec \<Rightarrow> KVCacheSpec option" where
  "KVCacheSpec_val h x =
     map_option (\<lambda>n. \<lparr>Strategy = hk_Strategy x, NumShards = n, kv_EvictionPolicy = hk_EvictionPolicy x,
         WarmCache = hk_WarmCache x\<rparr>) (intVal h (hk_NumShards x))"

definition KVCacheSpec_refs :: "('m, 'l) mem \<Rightarrow> hKVCacheSpec \<Rightarrow> addr set" where
  "KVCacheSpec_refs h x = intRefs h (hk_NumShards x)"

definition ModelSpec_val :: "('m, 'l) mem \<Rightarrow> hModelSpec \<Rightarrow> ModelSpec option" where
  "ModelSpec_val h x =
     map_option (\<lambda>(a, e). \<lparr>model_Name = hm_Name x, model_Image = hm_Image x, model_Args = orNil a, model_Env = orNil e\<rparr>)
       (pairVal (sliceVal asStrings plainVal) (sliceVal asEnvVars plainVal) h (hm_Args x, hm_Env x))"

definition ModelSpec_refs :: "('m, 'l) mem \<Rightarrow> hModelSpec \<Rightarrow> addr set" where
  "ModelSpec_refs h x =
     pairRefs (sliceRefs asStrings plainRefs) (sliceRefs asEnvVars plainRefs) h (hm_Args x, hm_Env x)"

definition RoutingSpec_val :: "('m, 'l) mem \<Rightarrow> hRoutingSpec \<Rightarrow> RoutingSpec option" where
  "RoutingSpec_val h x =
     map_option (\<lambda>(k, r). \<lparr>Mode = hr_Mode x, HashKey = k, RouterReplicas = r\<rparr>)
       (pairVal strVal intVal h (hr_HashKey x, hr_RouterReplicas x))"

definition RoutingSpec_refs :: "('m, 'l) mem \<Rightarrow> hRoutingSpec \<Rightarrow> addr set" where
  "RoutingSpec_refs h x = pairRefs strRefs intRefs h (hr_HashKey x, hr_RouterReplicas x)"

definition WorkloadRoleSpec_val :: "('m, 'l) mem \<Rightarrow> hWorkloadRoleSpec \<Rightarrow> WorkloadRoleSpec option" where
  "WorkloadRoleSpec_val h x =
     map_option (\<lambda>(r, p, m). \<lparr>Replicas = r, ServicePort = p, PodLabels = orEmpty m\<rparr>)
       (pairVal intVal (pairVal intVal mapVal) h (hw_Replicas x, hw_ServicePort x, hw_PodLabels x))"

definition WorkloadRoleSpec_refs :: "('m, 'l) mem \<Rightarrow> hWorkloadRoleSpec \<Rightarrow> addr set" where
  "WorkloadRoleSpec_refs h x =
     pairRefs intRefs (pairRefs intRefs mapRefs) h (hw_Replicas x, hw_ServicePort x, hw_PodLabels x)"

definition RuntimeSpec_val :: "('m, 'l) mem \<Rightarrow> hRuntimeSpec \<Rightarrow> RuntimeSpec option" where
  "RuntimeSpec_val h x =
     map_option (\<lambda>(p, d). \<lparr>Prefill = p, Decode = d\<rparr>)
       (pairVal WorkloadRoleSpec_val WorkloadRoleSpec_val h (hrt_Prefill x, hrt_Decode x))"

definition RuntimeSpec_refs :: "('m, 'l) mem \<Rightarrow> hRuntimeSpec \<Rightarrow> addr set" where
  "RuntimeSpec_refs h x =
     pairRefs WorkloadRoleSpec_refs WorkloadRoleSpec_refs h (hrt_Prefill x, hrt_Decode x)"

abbreviation spec_parts :: "hLLMInferenceClusterSpec \<Rightarrow> _" where
  "spec_parts x \<equiv> (hsp_Model x, hsp_Runtime x, hsp_KVCache x, hsp_Routing x, hsp_Autoscaling x)"

definition LLMInferenceClusterSpec_val ::
  "('m, 'l) mem \<Rightarrow> hLLMInferenceClusterSpec \<Rightarrow> LLMInferenceClusterSpec option" where
  "LLMInferenceClusterSpec_val h x =
     map_option (\<lambda>(m, r, k, g, a). \<lparr>Model = m, Runtime = r, KVCache = k, Routing = g, Autoscaling = a\<rparr>)
       (pairVal ModelSpec_val (pairVal RuntimeSpec_val (pairVal KVCacheSpec_val
         (pairVal RoutingSpec_val AutoscalingSpec_val))) h (spec_parts x))"

definition LLMInferenceClusterSpec_refs :: "('m, 'l) mem \<Rightarrow> hLLMInferenceClusterSpec \<Rightarrow> addr set" where
  "LLMInferenceClusterSpec_refs h x =
     pairRefs ModelSpec_refs (pairRefs RuntimeSpec_refs (pairRefs KVCacheSpec_refs
       (pairRefs RoutingSpec_refs AutoscalingSpec_refs))) h (spec_parts x)"

definition LLMInferenceClusterStatus_val ::
  "('m, 'l) mem \<Rightarrow> hLLMInferenceClusterStatus \<Rightarrow> LLMInferenceClusterStatus option" where
  "LLMInferenceClusterStatus_val h x =
     map_option (\<lambda>(s, c). \<lparr>ObservedGeneration = hst_ObservedGeneration x, Endpoints = hst_Endpoints x,
         Shards = orNil s, Conditions = orNil c\<rparr>)
       (pairVal (sliceVal asShardStatuses plainVal) (sliceVal asConditions plainVal) h
         (hst_Shards x, hst_Conditions x))"

definition LLMInferenceClusterStatus_refs :: "('m, 'l) mem \<Rightarrow> hLLMInferenceClusterStatus \<Rightarrow> addr set" where
  "LLMInferenceClusterStatus_refs h x =
     pairRefs (sliceRefs asShardStatuses plainRefs) (sliceRefs asConditions plainRefs) h
       (hst_Shards x, hst_Conditions x)"

definition LLMInferenceCluster_val ::
  "('m, 'l, 'v) apimachinery \<Rightarrow> ('m, 'l) mem \<Rightarrow> 'm hLLMInferenceCluster \<Rightarrow> (TypeMeta \<times> LLMInferenceCluster) option" where
  "LLMInferenceCluster_val K h x =
     map_option (\<lambda>(m, s, t). (hc_TypeMeta x, \<lparr>metadata = m, spec = s, status = t\<rparr>))
       (pairVal (om_val K) (pairVal LLMInferenceClusterSpec_val LLMInferenceClusterStatus_val) h
         (hc_ObjectMeta x, hc_Spec x, hc_Status x))"

definition LLMInferenceCluster_refs ::
  "('m, 'l, 'v) apimachinery \<Rightarrow> ('m, 'l) mem \<Rightarrow> 'm hLLMInferenceCluster \<Rightarrow> addr set" where
  "LLMInferenceCluster_refs K h x =
     pairRefs (om_refs K) (pairRefs LLMInferenceClusterSpec_refs LLMInferenceClusterStatus_refs) h
       (hc_ObjectMeta x, hc_Spec x, hc_Status x)"

definition LLMInferenceClusterList_val ::
  "('m, 'l, 'v) apimachinery \<Rightarrow> ('m, 'l) mem \<Rightarrow> 'l hLLMInferenceClusterList \<Rightarrow>
     (TypeMeta \<times> 'v \<times> (TypeMeta \<times> LLMInferenceCluster) list option) option" where
  "LLMInferenceClusterList_val K h x =
     map_option (\<lambda>p. (hl_TypeMeta x, p))
       (pairVal (lm_val K) (sliceVal asLLMInferenceClusters (LLMInferenceCluster_val K)) h (hl_ListMeta x, hl_Items x))"

definition LLMInferenceClusterList_refs ::
  "('m, 'l, 'v) apimachinery \<Rightarrow> ('m, 'l) mem \<Rightarrow> 'l hLLMInferenceClusterList \<Rightarrow> addr set" where
  "LLMInferenceClusterList_refs K h x =
     pairRefs (lm_refs K) (sliceRefs asLLMInferenceClusters (LLMInferenceCluster_refs K)) h (hl_ListMeta x, hl_Items x)"

section \<open>Every copy is deep\<close>

lemma copyString_deep: "deep_copy copyString strVal strRefs"
  unfolding copyString_def by (rule deep_copy_pointer [OF deep_copy_plain]) simp

lemma copyInt32_deep: "deep_copy copyInt32 intVal intRefs"
  unfolding copyInt32_def by (rule deep_copy_pointer [OF deep_copy_plain]) simp

lemma copyBool_deep: "deep_copy copyBool boolVal boolRefs"
  unfolding copyBool_def by (rule deep_copy_pointer [OF deep_copy_plain]) simp

lemma copyStringMap_deep: "deep_copy copyStringMap mapVal mapRefs"
  unfolding copyStringMap_def by (rule deep_copy_pointer [OF deep_copy_plain]) simp

interpretation AutoscalingSignalsSpec:
  deep_copy AutoscalingSignalsSpec_DeepCopyInto AutoscalingSignalsSpec_val AutoscalingSignalsSpec_refs
  by (rule deep_copy_struct [OF copyString_deep, where get = hs_PrometheusURL and
        put = "\<lambda>p x. x\<lparr>hs_PrometheusURL := p\<rparr>"])
    (simp_all add: AutoscalingSignalsSpec_DeepCopyInto_def AutoscalingSignalsSpec_val_def AutoscalingSignalsSpec_refs_def)

lemma andThen_assoc: "andThen (andThen m f) g = andThen m (\<lambda>a. andThen (f a) g)"
  by (rule ext) (simp add: comp_defs split: prod.split go.split)

interpretation AutoscalingSpec: deep_copy AutoscalingSpec_DeepCopyInto AutoscalingSpec_val AutoscalingSpec_refs
  by (rule deep_copy_struct [OF deep_copy_pair [OF copyBool_deep deep_copy_pair [OF copyInt32_deep
        deep_copy_pair [OF copyInt32_deep AutoscalingSignalsSpec.deep_copy_axioms]]], where get = as_parts and
        put = "\<lambda>(e, mn, mx, s) x. x\<lparr>ha_Enabled := e, ha_MinReplicas := mn, ha_MaxReplicas := mx, ha_Signals := s\<rparr>"
        and wrap = "\<lambda>x (e, mn, mx, s). \<lparr>Enabled = e, MinReplicas = mn, MaxReplicas = mx, as_Signals = s\<rparr>"])
    (auto simp: AutoscalingSpec_DeepCopyInto_def AutoscalingSpec_val_def AutoscalingSpec_refs_def copyPair_def
      andThen_assoc Let_def)

interpretation ClusterEndpointsStatus: deep_copy ClusterEndpointsStatus_DeepCopyInto plainVal plainRefs
  using deep_copy_plain by (simp add: ClusterEndpointsStatus_DeepCopyInto_def [abs_def])

interpretation EnvVar: deep_copy EnvVar_DeepCopyInto plainVal plainRefs
  using deep_copy_plain by (simp add: EnvVar_DeepCopyInto_def [abs_def])

interpretation KVCacheSpec: deep_copy KVCacheSpec_DeepCopyInto KVCacheSpec_val KVCacheSpec_refs
  by (rule deep_copy_struct [OF copyInt32_deep, where get = hk_NumShards and put = "\<lambda>p x. x\<lparr>hk_NumShards := p\<rparr>"])
    (simp_all add: KVCacheSpec_DeepCopyInto_def KVCacheSpec_val_def KVCacheSpec_refs_def)

lemma copyStrings_deep:
  "deep_copy (copySlice asStrings CStrings ret) (sliceVal asStrings plainVal) (sliceRefs asStrings plainRefs)"
  by (rule deep_copy_slice [OF deep_copy_plain]) simp

lemma copyEnvVars_deep:
  "deep_copy (copySlice asEnvVars CEnvVars ret) (sliceVal asEnvVars plainVal) (sliceRefs asEnvVars plainRefs)"
  by (rule deep_copy_slice [OF deep_copy_plain]) simp

interpretation ModelSpec: deep_copy ModelSpec_DeepCopyInto ModelSpec_val ModelSpec_refs
  by (rule deep_copy_struct [OF deep_copy_pair [OF copyStrings_deep copyEnvVars_deep], where
        get = "\<lambda>x. (hm_Args x, hm_Env x)" and put = "\<lambda>(a, e) x. x\<lparr>hm_Args := a, hm_Env := e\<rparr>" and
        wrap = "\<lambda>x (a, e). \<lparr>model_Name = hm_Name x, model_Image = hm_Image x, model_Args = orNil a, model_Env = orNil e\<rparr>"])
    (auto simp: ModelSpec_DeepCopyInto_def ModelSpec_val_def ModelSpec_refs_def copyPair_def andThen_assoc Let_def)

interpretation RoutingSpec: deep_copy RoutingSpec_DeepCopyInto RoutingSpec_val RoutingSpec_refs
  by (rule deep_copy_struct [OF deep_copy_pair [OF copyString_deep copyInt32_deep], where
        get = "\<lambda>x. (hr_HashKey x, hr_RouterReplicas x)" and
        put = "\<lambda>(k, r) x. x\<lparr>hr_HashKey := k, hr_RouterReplicas := r\<rparr>" and
        wrap = "\<lambda>x (k, r). \<lparr>Mode = hr_Mode x, HashKey = k, RouterReplicas = r\<rparr>"])
    (auto simp: RoutingSpec_DeepCopyInto_def RoutingSpec_val_def RoutingSpec_refs_def copyPair_def andThen_assoc Let_def)

interpretation WorkloadRoleSpec: deep_copy WorkloadRoleSpec_DeepCopyInto WorkloadRoleSpec_val WorkloadRoleSpec_refs
  by (rule deep_copy_struct [OF deep_copy_pair [OF copyInt32_deep deep_copy_pair [OF copyInt32_deep copyStringMap_deep]],
        where get = "\<lambda>x. (hw_Replicas x, hw_ServicePort x, hw_PodLabels x)" and
        put = "\<lambda>(r, p, m) x. x\<lparr>hw_Replicas := r, hw_ServicePort := p, hw_PodLabels := m\<rparr>" and
        wrap = "\<lambda>x (r, p, m). \<lparr>Replicas = r, ServicePort = p, PodLabels = orEmpty m\<rparr>"])
    (auto simp: WorkloadRoleSpec_DeepCopyInto_def WorkloadRoleSpec_val_def WorkloadRoleSpec_refs_def copyPair_def
      andThen_assoc Let_def)

interpretation RuntimeSpec: deep_copy RuntimeSpec_DeepCopyInto RuntimeSpec_val RuntimeSpec_refs
  by (rule deep_copy_struct [OF deep_copy_pair [OF WorkloadRoleSpec.deep_copy_axioms WorkloadRoleSpec.deep_copy_axioms],
        where get = "\<lambda>x. (hrt_Prefill x, hrt_Decode x)" and
        put = "\<lambda>(p, d) x. x\<lparr>hrt_Prefill := p, hrt_Decode := d\<rparr>" and wrap = "\<lambda>x (p, d). \<lparr>Prefill = p, Decode = d\<rparr>"])
    (auto simp: RuntimeSpec_DeepCopyInto_def RuntimeSpec_val_def RuntimeSpec_refs_def copyPair_def andThen_assoc Let_def)

interpretation LLMInferenceClusterSpec:
  deep_copy LLMInferenceClusterSpec_DeepCopyInto LLMInferenceClusterSpec_val LLMInferenceClusterSpec_refs
  by (rule deep_copy_struct [OF deep_copy_pair [OF ModelSpec.deep_copy_axioms deep_copy_pair [OF RuntimeSpec.deep_copy_axioms
        deep_copy_pair [OF KVCacheSpec.deep_copy_axioms deep_copy_pair [OF RoutingSpec.deep_copy_axioms
        AutoscalingSpec.deep_copy_axioms]]]], where get = spec_parts and
        put = "\<lambda>(m, r, k, g, a) x. x\<lparr>hsp_Model := m, hsp_Runtime := r, hsp_KVCache := k, hsp_Routing := g, hsp_Autoscaling := a\<rparr>"
        and wrap = "\<lambda>x (m, r, k, g, a). \<lparr>Model = m, Runtime = r, KVCache = k, Routing = g, Autoscaling = a\<rparr>"])
    (auto simp: LLMInferenceClusterSpec_DeepCopyInto_def LLMInferenceClusterSpec_val_def
      LLMInferenceClusterSpec_refs_def copyPair_def andThen_assoc Let_def)

text \<open>The types that hold the library's types: under the library's contract.\<close>

lemma ShardStatus_deep:
  assumes "copies_deeply K"
  shows "deep_copy (ShardStatus_DeepCopyInto K) plainVal plainRefs"
  by (rule deep_copy_struct [OF copies_deeplyD(4) [OF assms], where get = ss_LastHeartbeat and
        put = "\<lambda>t x. x\<lparr>ss_LastHeartbeat := t\<rparr>" and wrap = "\<lambda>x t. x\<lparr>ss_LastHeartbeat := t\<rparr>"])
    (simp_all add: ShardStatus_DeepCopyInto_def plainVal_def plainRefs_def)

lemma LLMInferenceClusterStatus_deep:
  assumes "copies_deeply K"
  shows "deep_copy (LLMInferenceClusterStatus_DeepCopyInto K) LLMInferenceClusterStatus_val LLMInferenceClusterStatus_refs"
proof -
  have "deep_copy (copySlice asShardStatuses CShardStatuses (ShardStatus_DeepCopyInto K))
      (sliceVal asShardStatuses plainVal) (sliceRefs asShardStatuses plainRefs)"
    by (rule deep_copy_slice [OF ShardStatus_deep [OF assms]]) simp
  moreover have "deep_copy (copySlice asConditions CConditions (cond_DeepCopyInto K))
      (sliceVal asConditions plainVal) (sliceRefs asConditions plainRefs)"
    by (rule deep_copy_slice [OF copies_deeplyD(3) [OF assms]]) simp
  ultimately show ?thesis
    by (rule deep_copy_struct [OF deep_copy_pair, where get = "\<lambda>x. (hst_Shards x, hst_Conditions x)" and
          put = "\<lambda>(s, c) x. x\<lparr>hst_Shards := s, hst_Conditions := c\<rparr>" and
          wrap = "\<lambda>x (s, c). \<lparr>ObservedGeneration = hst_ObservedGeneration x, Endpoints = hst_Endpoints x,
            Shards = orNil s, Conditions = orNil c\<rparr>"])
      (auto simp: LLMInferenceClusterStatus_DeepCopyInto_def LLMInferenceClusterStatus_val_def
        LLMInferenceClusterStatus_refs_def copyPair_def andThen_assoc Let_def)
qed

lemma LLMInferenceCluster_deep:
  assumes "copies_deeply K"
  shows "deep_copy (LLMInferenceCluster_DeepCopyInto K) (LLMInferenceCluster_val K) (LLMInferenceCluster_refs K)"
  by (rule deep_copy_struct [OF deep_copy_pair [OF copies_deeplyD(1) [OF assms] deep_copy_pair
        [OF LLMInferenceClusterSpec.deep_copy_axioms LLMInferenceClusterStatus_deep [OF assms]]], where
        get = "\<lambda>x. (hc_ObjectMeta x, hc_Spec x, hc_Status x)" and
        put = "\<lambda>(m, s, t) x. x\<lparr>hc_ObjectMeta := m, hc_Spec := s, hc_Status := t\<rparr>" and
        wrap = "\<lambda>x (m, s, t). (hc_TypeMeta x, \<lparr>metadata = m, spec = s, status = t\<rparr>)"])
    (auto simp: LLMInferenceCluster_DeepCopyInto_def LLMInferenceCluster_val_def LLMInferenceCluster_refs_def
      copyPair_def andThen_assoc Let_def)

lemma LLMInferenceClusterList_deep:
  assumes "copies_deeply K"
  shows "deep_copy (LLMInferenceClusterList_DeepCopyInto K) (LLMInferenceClusterList_val K) (LLMInferenceClusterList_refs K)"
proof -
  have "deep_copy (copySlice asLLMInferenceClusters CLLMInferenceClusters (LLMInferenceCluster_DeepCopyInto K))
      (sliceVal asLLMInferenceClusters (LLMInferenceCluster_val K)) (sliceRefs asLLMInferenceClusters (LLMInferenceCluster_refs K))"
    by (rule deep_copy_slice [OF LLMInferenceCluster_deep [OF assms]]) simp
  then show ?thesis
    by (rule deep_copy_struct [OF deep_copy_pair [OF copies_deeplyD(2) [OF assms]], where
          get = "\<lambda>x. (hl_ListMeta x, hl_Items x)" and put = "\<lambda>(m, s) x. x\<lparr>hl_ListMeta := m, hl_Items := s\<rparr>" and
          wrap = "\<lambda>x p. (hl_TypeMeta x, p)"])
      (auto simp: LLMInferenceClusterList_DeepCopyInto_def LLMInferenceClusterList_val_def
        LLMInferenceClusterList_refs_def copyPair_def andThen_assoc Let_def)
qed

section \<open>The first lines of Reconcile\<close>

text \<open>
  \<open>if p == nil { v := d; p = &v }\<close>: a variable whose address is kept is a new cell.
\<close>

definition defaultTo :: "('x \<Rightarrow> ('m, 'l) cell) \<Rightarrow> 'x \<Rightarrow> addr option \<Rightarrow> (('m, 'l) mem, addr option) comp" where
  "defaultTo mk d p =
     (case p of None \<Rightarrow> andThen (new (mk d)) (\<lambda>a. ret (Some a)) | Some a \<Rightarrow> ret (Some a))"

definition memDefaults :: "hLLMInferenceClusterSpec \<Rightarrow> (('m, 'l) mem, hLLMInferenceClusterSpec) comp" where
  "memDefaults s =
     (let s = s\<lparr>hsp_Routing := (hsp_Routing s)\<lparr>hr_Mode := orNonEmpty (hr_Mode (hsp_Routing s)) RoutingModeSessionAffinity\<rparr>\<rparr> in
      andThen (defaultTo CString ''conversationId'' (hr_HashKey (hsp_Routing s))) (\<lambda>p.
      let s = s\<lparr>hsp_Routing := (hsp_Routing s)\<lparr>hr_HashKey := p\<rparr>\<rparr> in
      andThen (defaultTo CInt32 1 (hr_RouterReplicas (hsp_Routing s))) (\<lambda>p.
      let s = s\<lparr>hsp_Routing := (hsp_Routing s)\<lparr>hr_RouterReplicas := p\<rparr>\<rparr> in
      andThen (defaultTo CInt32 8000 (hw_ServicePort (hrt_Decode (hsp_Runtime s)))) (\<lambda>p.
      let s = s\<lparr>hsp_Runtime := (hsp_Runtime s)\<lparr>hrt_Decode := (hrt_Decode (hsp_Runtime s))\<lparr>hw_ServicePort := p\<rparr>\<rparr>\<rparr> in
      andThen (defaultTo CInt32 8001 (hw_ServicePort (hrt_Prefill (hsp_Runtime s)))) (\<lambda>p.
      let s = s\<lparr>hsp_Runtime := (hsp_Runtime s)\<lparr>hrt_Prefill := (hrt_Prefill (hsp_Runtime s))\<lparr>hw_ServicePort := p\<rparr>\<rparr>\<rparr>;
          s = s\<lparr>hsp_KVCache := (hsp_KVCache s)\<lparr>hk_Strategy := orNonEmpty (hk_Strategy (hsp_KVCache s)) KVCacheStrategySharded\<rparr>\<rparr> in
      andThen (defaultTo CInt32 8 (hk_NumShards (hsp_KVCache s))) (\<lambda>p.
      let s = s\<lparr>hsp_KVCache := (hsp_KVCache s)\<lparr>hk_NumShards := p\<rparr>\<rparr>;
          s = s\<lparr>hsp_KVCache := (hsp_KVCache s)\<lparr>hk_EvictionPolicy := orNonEmpty (hk_EvictionPolicy (hsp_KVCache s)) EvictionPolicyLRU\<rparr>\<rparr>;
          s = s\<lparr>hsp_KVCache := (hsp_KVCache s)\<lparr>hk_WarmCache := orNonEmpty (hk_WarmCache (hsp_KVCache s)) WarmCacheNone\<rparr>\<rparr> in
      ret s))))))"

text \<open>
  \<open>cluster = *cluster.DeepCopy(); original := cluster.DeepCopy()\<close> and the defaults. Both copies are
  followed at once, so the structs they point to are what is kept.
\<close>

definition prepareCluster ::
  "('m, 'l, 'v) apimachinery \<Rightarrow> 'm hLLMInferenceCluster \<Rightarrow>
     (('m, 'l) mem, 'm hLLMInferenceCluster \<times> 'm hLLMInferenceCluster) comp" where
  "prepareCluster K cluster =
     andThen (LLMInferenceCluster_DeepCopyInto K cluster) (\<lambda>cluster.
     andThen (LLMInferenceCluster_DeepCopyInto K cluster) (\<lambda>original.
     andThen (memDefaults (hc_Spec cluster)) (\<lambda>s. ret (cluster\<lparr>hc_Spec := s\<rparr>, original))))"

text \<open>
  A computation that replaces data by data with a new value, which reaches what the old data reached
  and new cells.
\<close>

definition updates ::
  "('x \<Rightarrow> ('c memory, 'x) comp) \<Rightarrow> ('c memory \<Rightarrow> 'x \<Rightarrow> 'v option) \<Rightarrow> ('c memory \<Rightarrow> 'x \<Rightarrow> addr set) \<Rightarrow> ('v \<Rightarrow> 'v) \<Rightarrow> bool" where
  "updates f A R g \<longleftrightarrow> (\<forall>h x v. A h x = Some v \<longrightarrow>
     (\<exists>y t. f x h = (Ok y, h @ t) \<and> A (h @ t) y = Some (g v) \<and> R (h @ t) y \<subseteq> R h x \<union> {length h..}))"

lemma updatesD: "updates f A R g \<Longrightarrow> A h x = Some v \<Longrightarrow>
    \<exists>y t. f x h = (Ok y, h @ t) \<and> A (h @ t) y = Some (g v) \<and> R (h @ t) y \<subseteq> R h x \<union> {length h..}"
  unfolding updates_def by blast

lemma updates_defaultTo:
  assumes "\<And>x. as (mk x) = Some x"
  shows "updates (defaultTo mk d) (pointerVal as plainVal) (pointerRefs as plainRefs) (\<lambda>v. orDefault v d)"
  unfolding updates_def
proof (intro allI impI)
  fix h p v assume v: "pointerVal as plainVal h p = Some v"
  show "\<exists>q t. defaultTo mk d p h = (Ok q, h @ t) \<and> pointerVal as plainVal (h @ t) q = Some (orDefault v d) \<and>
      pointerRefs as plainRefs (h @ t) q \<subseteq> pointerRefs as plainRefs h p \<union> {length h..}"
  proof (cases p)
    case None
    then show ?thesis
      using assms v by (auto simp: defaultTo_def new_def comp_defs pointerVal_def pointerRefs_def plainVal_def plainRefs_def)
  next
    case (Some a)
    then obtain w where "v = Some w" using v by (auto simp: pointerVal_def bind_eq_Some_conv)
    then show ?thesis using Some v by (intro exI [of _ p] exI [of _ "[]"]) (simp add: defaultTo_def ret_def)
  qed
qed

lemma updates_pair:
  assumes c: "deep_copy c A R" "deep_copy d B S" and u: "updates f A R g" "updates f' B S g'"
  shows "updates (copyPair f f') (pairVal A B) (pairRefs R S) (map_prod g g')"
  unfolding updates_def
proof (intro allI impI)
  fix h p v assume "pairVal A B h p = Some v"
  then obtain x y a b where p: "p = (x, y)" "v = (a, b)" and xy: "A h x = Some a" "B h y = Some b"
    by (cases p) (auto simp: pairVal_def bind_eq_Some_conv)
  obtain x' t where 1: "f x h = (Ok x', h @ t)" "A (h @ t) x' = Some (g a)" "R (h @ t) x' \<subseteq> R h x \<union> {length h..}"
    using u(1) xy(1) unfolding updates_def by blast
  have y: "B (h @ t) y = Some b" "S (h @ t) y = S h y" using deep_copy.grow [OF c(2) xy(2), of t] by simp_all
  obtain y' w where 2: "f' y (h @ t) = (Ok y', (h @ t) @ w)" "B ((h @ t) @ w) y' = Some (g' b)"
      "S ((h @ t) @ w) y' \<subseteq> S (h @ t) y \<union> {length (h @ t)..}"
    using u(2) y(1) unfolding updates_def by blast
  show "\<exists>q t. copyPair f f' p h = (Ok q, h @ t) \<and> pairVal A B (h @ t) q = Some (map_prod g g' v) \<and>
      pairRefs R S (h @ t) q \<subseteq> pairRefs R S h p \<union> {length h..}"
    using 1 2 y(2) deep_copy.grow [OF c(1) 1(2), of w] p
    by (intro exI [of _ "(x', y')"] exI [of _ "t @ w"])
      (fastforce simp: copyPair_def andThen_Ok pairVal_def pairRefs_def comp_defs)
qed

text \<open>The five pointers that get defaults.\<close>

abbreviation defaulted_parts :: "hLLMInferenceClusterSpec \<Rightarrow> _" where
  "defaulted_parts s \<equiv> (hr_HashKey (hsp_Routing s), hr_RouterReplicas (hsp_Routing s),
     hw_ServicePort (hrt_Decode (hsp_Runtime s)), hw_ServicePort (hrt_Prefill (hsp_Runtime s)), hk_NumShards (hsp_KVCache s))"

abbreviation put_defaults :: "_ \<Rightarrow> hLLMInferenceClusterSpec \<Rightarrow> hLLMInferenceClusterSpec" where
  "put_defaults p s \<equiv> (case p of (hk, rr, dp, pp, ns) \<Rightarrow>
     s\<lparr>hsp_Routing := (hsp_Routing s)\<lparr>hr_Mode := orNonEmpty (hr_Mode (hsp_Routing s)) RoutingModeSessionAffinity,
         hr_HashKey := hk, hr_RouterReplicas := rr\<rparr>,
       hsp_Runtime := (hsp_Runtime s)\<lparr>hrt_Decode := (hrt_Decode (hsp_Runtime s))\<lparr>hw_ServicePort := dp\<rparr>,
         hrt_Prefill := (hrt_Prefill (hsp_Runtime s))\<lparr>hw_ServicePort := pp\<rparr>\<rparr>,
       hsp_KVCache := (hsp_KVCache s)\<lparr>hk_Strategy := orNonEmpty (hk_Strategy (hsp_KVCache s)) KVCacheStrategySharded,
         hk_NumShards := ns,
         hk_EvictionPolicy := orNonEmpty (hk_EvictionPolicy (hsp_KVCache s)) EvictionPolicyLRU,
         hk_WarmCache := orNonEmpty (hk_WarmCache (hsp_KVCache s)) WarmCacheNone\<rparr>\<rparr>)"

abbreviation copyDefaulted :: "_ \<Rightarrow> (('m, 'l) mem, _) comp" where
  "copyDefaulted \<equiv> copyPair (defaultTo CString ''conversationId'') (copyPair (defaultTo CInt32 1)
     (copyPair (defaultTo CInt32 8000) (copyPair (defaultTo CInt32 8001) (defaultTo CInt32 8))))"

lemma memDefaults_parts: "memDefaults s = andThen (copyDefaulted (defaulted_parts s)) (\<lambda>p. ret (put_defaults p s))"
  by (simp add: memDefaults_def copyPair_def andThen_assoc Let_def)

lemma updates_defaulted:
  "updates copyDefaulted (pairVal strVal (pairVal intVal (pairVal intVal (pairVal intVal intVal))))
    (pairRefs strRefs (pairRefs intRefs (pairRefs intRefs (pairRefs intRefs intRefs))))
    (map_prod (\<lambda>v. orDefault v ''conversationId'') (map_prod (\<lambda>v. orDefault v 1)
      (map_prod (\<lambda>v. orDefault v 8000) (map_prod (\<lambda>v. orDefault v 8001) (\<lambda>v. orDefault v 8)))))"
proof -
  have i: "updates (defaultTo CInt32 d) intVal intRefs (\<lambda>v. orDefault v d)" for d
    by (rule updates_defaultTo) simp
  have s: "updates (defaultTo CString d) strVal strRefs (\<lambda>v. orDefault v d)" for d
    by (rule updates_defaultTo) simp
  note ii = deep_copy_pair [OF copyInt32_deep copyInt32_deep]
  note iii = deep_copy_pair [OF copyInt32_deep ii]
  show ?thesis
    by (intro updates_pair [OF copyString_deep deep_copy_pair [OF copyInt32_deep iii]] updates_pair [OF copyInt32_deep iii]
      updates_pair [OF copyInt32_deep ii] updates_pair [OF copyInt32_deep copyInt32_deep] i s)
qed

lemmas mem_vals = LLMInferenceClusterSpec_val_def RoutingSpec_val_def RuntimeSpec_val_def WorkloadRoleSpec_val_def
  KVCacheSpec_val_def pairVal_def

lemmas mem_refs = LLMInferenceClusterSpec_refs_def RoutingSpec_refs_def RuntimeSpec_refs_def WorkloadRoleSpec_refs_def
  KVCacheSpec_refs_def pairRefs_def

lemma intVal_grow:
  "intVal h p = Some v \<Longrightarrow> intVal (h @ t) p = Some v \<and> intRefs (h @ t) p = intRefs h p"
  by (rule deep_copy.grow [OF copyInt32_deep])

lemma mapVal_grow:
  "mapVal h p = Some v \<Longrightarrow> mapVal (h @ t) p = Some v \<and> mapRefs (h @ t) p = mapRefs h p"
  by (rule deep_copy.grow [OF copyStringMap_deep])

text \<open>The defaults written through pointers are the defaults of \<open>Defaults\<close>.\<close>

lemma memDefaults_ok: "updates memDefaults LLMInferenceClusterSpec_val LLMInferenceClusterSpec_refs applyDefaults"
  unfolding updates_def
proof (intro allI impI)
  fix h :: "('m, 'l) mem" and s v assume v: "LLMInferenceClusterSpec_val h s = Some v"
  define dr where "dr = hrt_Decode (hsp_Runtime s)"
  define pr where "pr = hrt_Prefill (hsp_Runtime s)"
  obtain m a hk rr dn dp dl pn pp pl ns where
    parts: "ModelSpec_val h (hsp_Model s) = Some m" "AutoscalingSpec_val h (hsp_Autoscaling s) = Some a"
      "strVal h (hr_HashKey (hsp_Routing s)) = Some hk" "intVal h (hr_RouterReplicas (hsp_Routing s)) = Some rr"
      "intVal h (hw_Replicas dr) = Some dn" "intVal h (hw_ServicePort dr) = Some dp" "mapVal h (hw_PodLabels dr) = Some dl"
      "intVal h (hw_Replicas pr) = Some pn" "intVal h (hw_ServicePort pr) = Some pp" "mapVal h (hw_PodLabels pr) = Some pl"
      "intVal h (hk_NumShards (hsp_KVCache s)) = Some ns"
    using v by (auto simp: mem_vals bind_eq_Some_conv dr_def pr_def)
  let ?V = "pairVal strVal (pairVal intVal (pairVal intVal (pairVal intVal intVal)))"
  have five: "?V h (defaulted_parts s) = Some (hk, rr, dp, pp, ns)"
    using parts by (simp add: pairVal_def dr_def pr_def)
  obtain q t where q: "copyDefaulted (defaulted_parts s) h = (Ok q, h @ t)"
      "?V (h @ t) q = Some (orDefault hk ''conversationId'', orDefault rr 1, orDefault dp 8000, orDefault pp 8001, orDefault ns 8)"
      "pairRefs strRefs (pairRefs intRefs (pairRefs intRefs (pairRefs intRefs intRefs))) (h @ t) q \<subseteq>
        pairRefs strRefs (pairRefs intRefs (pairRefs intRefs (pairRefs intRefs intRefs))) h (defaulted_parts s) \<union> {length h..}"
    using updatesD [OF updates_defaulted, OF five, unfolded map_prod_simp] by (elim exE conjE) (rule that)
  obtain hk' rr' dp' pp' ns' where q': "q = (hk', rr', dp', pp', ns')" by (cases q) auto
  note grow = ModelSpec.grow [OF parts(1), of t] AutoscalingSpec.grow [OF parts(2), of t]
    intVal_grow [OF parts(5), of t] intVal_grow [OF parts(8), of t] mapVal_grow [OF parts(7), of t] mapVal_grow [OF parts(10), of t]
  have "memDefaults s h = (Ok (put_defaults q s), h @ t)"
    using q(1) by (simp add: memDefaults_parts andThen_Ok) (simp add: ret_def)
  moreover have "LLMInferenceClusterSpec_val (h @ t) (put_defaults q s) = Some (applyDefaults v)"
    using v q(2) parts grow by (auto simp: mem_vals q' bind_eq_Some_conv applyDefaults_def dr_def pr_def)
  moreover have "LLMInferenceClusterSpec_refs (h @ t) (put_defaults q s) \<subseteq> LLMInferenceClusterSpec_refs h s \<union> {length h..}"
  proof -
    have "strRefs (h @ t) hk' \<union> intRefs (h @ t) rr' \<union> intRefs (h @ t) dp' \<union> intRefs (h @ t) pp' \<union> intRefs (h @ t) ns' \<subseteq>
        LLMInferenceClusterSpec_refs h s \<union> {length h..}"
      using q(3) unfolding q' mem_refs prod.case by blast
    moreover have "ModelSpec_refs h (hsp_Model s) \<union> AutoscalingSpec_refs h (hsp_Autoscaling s) \<union> intRefs h (hw_Replicas dr) \<union>
        intRefs h (hw_Replicas pr) \<union> mapRefs h (hw_PodLabels dr) \<union> mapRefs h (hw_PodLabels pr) \<subseteq>
        LLMInferenceClusterSpec_refs h s"
      unfolding mem_refs prod.case dr_def pr_def by blast
    moreover have "LLMInferenceClusterSpec_refs (h @ t) (put_defaults q s) =
        ModelSpec_refs h (hsp_Model s) \<union> (intRefs h (hw_Replicas pr) \<union> (intRefs (h @ t) pp' \<union> mapRefs h (hw_PodLabels pr)) \<union>
        (intRefs h (hw_Replicas dr) \<union> (intRefs (h @ t) dp' \<union> mapRefs h (hw_PodLabels dr))) \<union>
        (intRefs (h @ t) ns' \<union> (strRefs (h @ t) hk' \<union> intRefs (h @ t) rr' \<union> AutoscalingSpec_refs h (hsp_Autoscaling s))))"
      using grow by (simp add: mem_refs q' dr_def pr_def)
    ultimately show ?thesis by blast
  qed
  ultimately show "\<exists>y t. memDefaults s h = (Ok y, h @ t) \<and> LLMInferenceClusterSpec_val (h @ t) y = Some (applyDefaults v) \<and>
      LLMInferenceClusterSpec_refs (h @ t) y \<subseteq> LLMInferenceClusterSpec_refs h s \<union> {length h..}"
    by blast
qed

lemma prepareCluster_ok:
  assumes K: "copies_deeply K" and v: "LLMInferenceCluster_val K h c = Some (tm, v)"
  shows "\<exists>cl orig h'. prepareCluster K c h = (Ok (cl, orig), h') \<and>
    LLMInferenceCluster_val K h' cl = Some (tm, v\<lparr>spec := applyDefaults (spec v)\<rparr>) \<and>
    LLMInferenceCluster_val K h' orig = Some (tm, v) \<and>
    LLMInferenceCluster_refs K h' cl \<inter> LLMInferenceCluster_refs K h' orig = {}"
proof -
  note deep = LLMInferenceCluster_deep [OF K]
  obtain c1 t1 where 1: "LLMInferenceCluster_DeepCopyInto K c h = (Ok c1, h @ t1)"
      "LLMInferenceCluster_val K (h @ t1) c1 = Some (tm, v)"
    using deep_copy.copies [OF deep v] by blast
  let ?h = "h @ t1"
  obtain orig t2 where 2: "LLMInferenceCluster_DeepCopyInto K c1 ?h = (Ok orig, ?h @ t2)"
      "LLMInferenceCluster_val K (?h @ t2) orig = Some (tm, v)"
      "LLMInferenceCluster_refs K (?h @ t2) orig \<subseteq> {length ?h..<length ?h + length t2}"
    using deep_copy.copies [OF deep 1(2)] by blast
  let ?k = "?h @ t2"
  have c1: "LLMInferenceCluster_val K ?k c1 = Some (tm, v)" "LLMInferenceCluster_refs K ?k c1 \<subseteq> {..<length ?h}"
    using deep_copy.grow [OF deep 1(2), of t2] deep_copy.bounded [OF deep 1(2)] by simp_all
  then have parts: "hc_TypeMeta c1 = tm" "om_val K ?k (hc_ObjectMeta c1) = Some (metadata v)"
      "LLMInferenceClusterSpec_val ?k (hc_Spec c1) = Some (spec v)"
      "LLMInferenceClusterStatus_val ?k (hc_Status c1) = Some (status v)"
    by (auto simp: LLMInferenceCluster_val_def pairVal_def bind_eq_Some_conv)
  obtain s t3 where 3: "memDefaults (hc_Spec c1) ?k = (Ok s, ?k @ t3)"
      "LLMInferenceClusterSpec_val (?k @ t3) s = Some (applyDefaults (spec v))"
      "LLMInferenceClusterSpec_refs (?k @ t3) s \<subseteq> LLMInferenceClusterSpec_refs ?k (hc_Spec c1) \<union> {length ?k..}"
    using updatesD [OF memDefaults_ok, OF parts(3)] by blast
  note grow = deep_copy.grow [OF copies_deeplyD(1) [OF K] parts(2), of t3]
    deep_copy.grow [OF LLMInferenceClusterStatus_deep [OF K] parts(4), of t3]
  have "prepareCluster K c h = (Ok (c1\<lparr>hc_Spec := s\<rparr>, orig), ?k @ t3)"
    using 1(1) 2(1) 3(1) by (simp add: prepareCluster_def andThen_Ok) (simp add: ret_def)
  moreover have "LLMInferenceCluster_val K (?k @ t3) (c1\<lparr>hc_Spec := s\<rparr>) = Some (tm, v\<lparr>spec := applyDefaults (spec v)\<rparr>)"
    using parts(1) 3(2) grow by (simp add: LLMInferenceCluster_val_def pairVal_def)
  moreover have "LLMInferenceCluster_refs K (?k @ t3) (c1\<lparr>hc_Spec := s\<rparr>) \<subseteq> {..<length ?h} \<union> {length ?k..}"
    using 3(3) grow c1(2) by (auto simp: LLMInferenceCluster_refs_def pairRefs_def)
  moreover have "LLMInferenceCluster_val K (?k @ t3) orig = Some (tm, v)"
      "LLMInferenceCluster_refs K (?k @ t3) orig \<subseteq> {length ?h..<length ?k}"
    using deep_copy.grow [OF deep 2(2), of t3] 2(3) by (simp_all add: add.assoc)
  moreover have "({..<length ?h} \<union> {length ?k..}) \<inter> {length ?h..<length ?k} = {}" by auto
  ultimately show ?thesis by blast
qed

section \<open>An instance of the library's contract\<close>

text \<open>Metadata with its labels behind a pointer, list metadata that is a resource version.\<close>

definition pointedMeta :: "(ObjectMeta \<times> addr option, string, string) apimachinery" where
  "pointedMeta =
     \<lparr>om_DeepCopyInto = (\<lambda>(m, p). andThen (copyStringMap p) (\<lambda>q. ret (m, q))),
      om_val = (\<lambda>h (m, p). map_option (\<lambda>l. m\<lparr>Labels := orEmpty l\<rparr>) (mapVal h p)),
      om_refs = (\<lambda>h (m, p). mapRefs h p),
      lm_DeepCopyInto = ret, lm_val = plainVal, lm_refs = plainRefs,
      cond_DeepCopyInto = ret, time_DeepCopyInto = ret\<rparr>"

lemma pointedMeta_deep: "copies_deeply pointedMeta"
  unfolding copies_deeply_def
proof (intro conjI)
  show "deep_copy (om_DeepCopyInto pointedMeta) (om_val pointedMeta) (om_refs pointedMeta)"
    by (rule deep_copy_struct [OF copyStringMap_deep, where get = snd and put = "\<lambda>q (m, p). (m, q)" and
          wrap = "\<lambda>(m, p) l. m\<lparr>Labels := orEmpty l\<rparr>"])
      (auto simp: pointedMeta_def)
qed (simp_all add: pointedMeta_def deep_copy_plain)

text \<open>A memory with one resource: labels, arguments, replicas and shard count behind pointers.\<close>

definition sampleMemory :: "(ObjectMeta \<times> addr option, string) mem" where
  "sampleMemory = [CStringMap [''a'' \<mapsto> ''b''], CStrings [''x'', ''--v'', ''y''], CInt32 3, CInt32 4, CString ''k'']"

definition sampleStruct :: "(ObjectMeta \<times> addr option) hLLMInferenceCluster" where
  "sampleStruct =
     (let role = \<lparr>hw_Replicas = Some 2, hw_ServicePort = None, hw_PodLabels = Some 0\<rparr> in
      \<lparr>hc_TypeMeta = \<lparr>tm_Kind = ''LLMInferenceCluster'', tm_APIVersion = ''inference.llm.io/v1alpha1''\<rparr>,
       hc_ObjectMeta = (new_meta ''ns'' ''c'', Some 0),
       hc_Spec = \<lparr>hsp_Model = \<lparr>hm_Name = ''m'', hm_Image = ''i'',
             hm_Args = Some \<lparr>sl_Array = 1, sl_Off = 1, sl_Len = 1\<rparr>, hm_Env = None\<rparr>,
           hsp_Runtime = \<lparr>hrt_Prefill = role, hrt_Decode = role\<rparr>,
           hsp_KVCache = \<lparr>hk_Strategy = [], hk_NumShards = Some 3, hk_EvictionPolicy = [], hk_WarmCache = []\<rparr>,
           hsp_Routing = \<lparr>hr_Mode = [], hr_HashKey = Some 4, hr_RouterReplicas = None\<rparr>,
           hsp_Autoscaling = \<lparr>ha_Enabled = None, ha_MinReplicas = None, ha_MaxReplicas = None,
             ha_Signals = \<lparr>hs_Source = [], hs_PrometheusURL = None\<rparr>\<rparr>\<rparr>,
       hc_Status = \<lparr>hst_ObservedGeneration = 0,
           hst_Endpoints = \<lparr>RouterURL = [], DecodeService = [], PrefillService = []\<rparr>,
           hst_Shards = None, hst_Conditions = None\<rparr>\<rparr>)"

lemma sampleStruct_val:
  "\<exists>tm v. LLMInferenceCluster_val pointedMeta sampleMemory sampleStruct = Some (tm, v) \<and>
    model_Args (Model (spec v)) = [''--v''] \<and> NumShards (KVCache (spec v)) = Some 4 \<and> RouterReplicas (Routing (spec v)) = None"
  by (simp add: LLMInferenceCluster_val_def LLMInferenceClusterStatus_val_def mem_vals ModelSpec_val_def
    AutoscalingSpec_val_def AutoscalingSignalsSpec_val_def pointedMeta_def sampleStruct_def sampleMemory_def Let_def
    pointerVal_def sliceVal_def elems_def peek_def window_def plainVal_def)

lemmas DeepCopyObject_defs = LLMInferenceCluster_DeepCopyObject_def LLMInferenceClusterList_DeepCopyObject_def
  LLMInferenceCluster_DeepCopy_def LLMInferenceClusterList_DeepCopy_def

section \<open>Properties\<close>

text \<open>
  C10: Copies are deep. For every API type, \<open>DeepCopy\<close> of a pointer to data that denotes a value returns
  a pointer to data with the same value (nil for nil), writes only new cells, and the copy reaches only
  those; so do the copies of the resource and of the list, given that the library's metadata types copy
  themselves deeply.
\<close>

theorem DeepCopy_deep:
  assumes K: "copies_deeply K"
  shows "deep_copy AutoscalingSignalsSpec_DeepCopy (pointerVal asAutoscalingSignalsSpec AutoscalingSignalsSpec_val)
      (pointerRefs asAutoscalingSignalsSpec AutoscalingSignalsSpec_refs) \<and>
    deep_copy AutoscalingSpec_DeepCopy (pointerVal asAutoscalingSpec AutoscalingSpec_val)
      (pointerRefs asAutoscalingSpec AutoscalingSpec_refs) \<and>
    deep_copy ClusterEndpointsStatus_DeepCopy (pointerVal asClusterEndpointsStatus plainVal)
      (pointerRefs asClusterEndpointsStatus plainRefs) \<and>
    deep_copy EnvVar_DeepCopy (pointerVal asEnvVar plainVal) (pointerRefs asEnvVar plainRefs) \<and>
    deep_copy KVCacheSpec_DeepCopy (pointerVal asKVCacheSpec KVCacheSpec_val) (pointerRefs asKVCacheSpec KVCacheSpec_refs) \<and>
    deep_copy (LLMInferenceCluster_DeepCopy K) (pointerVal asLLMInferenceCluster (LLMInferenceCluster_val K))
      (pointerRefs asLLMInferenceCluster (LLMInferenceCluster_refs K)) \<and>
    deep_copy (LLMInferenceClusterList_DeepCopy K) (pointerVal asLLMInferenceClusterList (LLMInferenceClusterList_val K))
      (pointerRefs asLLMInferenceClusterList (LLMInferenceClusterList_refs K)) \<and>
    deep_copy LLMInferenceClusterSpec_DeepCopy (pointerVal asLLMInferenceClusterSpec LLMInferenceClusterSpec_val)
      (pointerRefs asLLMInferenceClusterSpec LLMInferenceClusterSpec_refs) \<and>
    deep_copy (LLMInferenceClusterStatus_DeepCopy K) (pointerVal asLLMInferenceClusterStatus LLMInferenceClusterStatus_val)
      (pointerRefs asLLMInferenceClusterStatus LLMInferenceClusterStatus_refs) \<and>
    deep_copy ModelSpec_DeepCopy (pointerVal asModelSpec ModelSpec_val) (pointerRefs asModelSpec ModelSpec_refs) \<and>
    deep_copy RoutingSpec_DeepCopy (pointerVal asRoutingSpec RoutingSpec_val) (pointerRefs asRoutingSpec RoutingSpec_refs) \<and>
    deep_copy RuntimeSpec_DeepCopy (pointerVal asRuntimeSpec RuntimeSpec_val) (pointerRefs asRuntimeSpec RuntimeSpec_refs) \<and>
    deep_copy (ShardStatus_DeepCopy K) (pointerVal asShardStatus plainVal) (pointerRefs asShardStatus plainRefs) \<and>
    deep_copy WorkloadRoleSpec_DeepCopy (pointerVal asWorkloadRoleSpec WorkloadRoleSpec_val)
      (pointerRefs asWorkloadRoleSpec WorkloadRoleSpec_refs)"
  unfolding AutoscalingSignalsSpec_DeepCopy_def AutoscalingSpec_DeepCopy_def ClusterEndpointsStatus_DeepCopy_def
    EnvVar_DeepCopy_def KVCacheSpec_DeepCopy_def LLMInferenceCluster_DeepCopy_def LLMInferenceClusterList_DeepCopy_def
    LLMInferenceClusterSpec_DeepCopy_def LLMInferenceClusterStatus_DeepCopy_def ModelSpec_DeepCopy_def
    RoutingSpec_DeepCopy_def RuntimeSpec_DeepCopy_def ShardStatus_DeepCopy_def WorkloadRoleSpec_DeepCopy_def
  by (intro conjI deep_copy_pointer AutoscalingSignalsSpec.deep_copy_axioms AutoscalingSpec.deep_copy_axioms
    ClusterEndpointsStatus.deep_copy_axioms EnvVar.deep_copy_axioms KVCacheSpec.deep_copy_axioms
    LLMInferenceCluster_deep [OF K] LLMInferenceClusterList_deep [OF K] LLMInferenceClusterSpec.deep_copy_axioms
    LLMInferenceClusterStatus_deep [OF K] ModelSpec.deep_copy_axioms RoutingSpec.deep_copy_axioms
    RuntimeSpec.deep_copy_axioms ShardStatus_deep [OF K] WorkloadRoleSpec.deep_copy_axioms as_cell)

theorem DeepCopy_deep_witness:
  "deep_copy (LLMInferenceCluster_DeepCopy pointedMeta) (pointerVal asLLMInferenceCluster (LLMInferenceCluster_val pointedMeta))
    (pointerRefs asLLMInferenceCluster (LLMInferenceCluster_refs pointedMeta))"
  using DeepCopy_deep [OF pointedMeta_deep] by blast

text \<open>
  C11: The original survives. The first lines of \<open>Reconcile\<close> give two structs over separate memory: one
  with the defaults written through pointers, which denotes the defaulted resource, and \<open>original\<close>,
  which still denotes the resource as it was read; this is what makes the merge patch between them, and
  the reading of the rest of \<open>Reconcile\<close> as a function on values, right.
\<close>

theorem prepare_refines:
  assumes "copies_deeply K" "LLMInferenceCluster_val K h c = Some (tm, v)"
  shows "\<exists>cl orig h'. prepareCluster K c h = (Ok (cl, orig), h') \<and>
    LLMInferenceCluster_val K h' cl = Some (tm, v\<lparr>spec := applyDefaults (spec v)\<rparr>) \<and>
    LLMInferenceCluster_val K h' orig = Some (tm, v) \<and>
    (\<forall>a \<in> LLMInferenceCluster_refs K h' cl. \<forall>x. LLMInferenceCluster_val K (h'[a := x]) orig = Some (tm, v))"
proof -
  obtain cl orig h' where run: "prepareCluster K c h = (Ok (cl, orig), h')"
      "LLMInferenceCluster_val K h' cl = Some (tm, v\<lparr>spec := applyDefaults (spec v)\<rparr>)"
      "LLMInferenceCluster_val K h' orig = Some (tm, v)"
      "LLMInferenceCluster_refs K h' cl \<inter> LLMInferenceCluster_refs K h' orig = {}"
    using prepareCluster_ok [OF assms] by blast
  have "LLMInferenceCluster_val K (h'[a := x]) orig = Some (tm, v)" if "a \<in> LLMInferenceCluster_refs K h' cl" for a x
    using deep_copy.frame [OF LLMInferenceCluster_deep [OF assms(1)] run(3), of a x] run(4) that by blast
  then show ?thesis using run by blast
qed

theorem prepare_refines_witness:
  "\<exists>cl orig h' tm v. prepareCluster pointedMeta sampleStruct sampleMemory = (Ok (cl, orig), h') \<and>
    LLMInferenceCluster_val pointedMeta h' cl = Some (tm, v\<lparr>spec := applyDefaults (spec v)\<rparr>) \<and>
    LLMInferenceCluster_val pointedMeta h' orig = Some (tm, v) \<and> model_Args (Model (spec v)) = [''--v'']"
proof -
  obtain tm v where v: "LLMInferenceCluster_val pointedMeta sampleMemory sampleStruct = Some (tm, v)"
      "model_Args (Model (spec v)) = [''--v'']"
    using sampleStruct_val by blast
  show ?thesis using prepare_refines [OF pointedMeta_deep v(1)] v(2) by blast
qed

text \<open>
  C33: Copies as objects. \<open>DeepCopyObject\<close> gives the nil interface for a nil pointer, and otherwise a typed
  pointer to a deep copy: it has the same value, the memory before is unchanged, and every cell that
  the copy reaches, through whatever pointers, slices and maps, is new.
\<close>

theorem DeepCopyObject_deep:
  assumes "copies_deeply K"
  shows "LLMInferenceCluster_DeepCopyObject K None h = (Ok NilObject, h) \<and>
    LLMInferenceClusterList_DeepCopyObject K None h = (Ok NilObject, h) \<and>
    (pointerVal asLLMInferenceCluster (LLMInferenceCluster_val K) h (Some a) = Some v \<longrightarrow>
      (\<exists>b t. LLMInferenceCluster_DeepCopyObject K (Some a) h = (Ok (ClusterObject b), h @ t) \<and>
        pointerVal asLLMInferenceCluster (LLMInferenceCluster_val K) (h @ t) (Some b) = Some v \<and>
        pointerRefs asLLMInferenceCluster (LLMInferenceCluster_refs K) (h @ t) (Some b) \<subseteq> {length h..<length h + length t})) \<and>
    (pointerVal asLLMInferenceClusterList (LLMInferenceClusterList_val K) h (Some a) = Some u \<longrightarrow>
      (\<exists>b t. LLMInferenceClusterList_DeepCopyObject K (Some a) h = (Ok (ClusterListObject b), h @ t) \<and>
        pointerVal asLLMInferenceClusterList (LLMInferenceClusterList_val K) (h @ t) (Some b) = Some u \<and>
        pointerRefs asLLMInferenceClusterList (LLMInferenceClusterList_refs K) (h @ t) (Some b) \<subseteq> {length h..<length h + length t}))"
proof (intro conjI impI)
  show "LLMInferenceCluster_DeepCopyObject K None h = (Ok NilObject, h)"
    "LLMInferenceClusterList_DeepCopyObject K None h = (Ok NilObject, h)"
    by (simp_all add: DeepCopyObject_defs copyPointer_def comp_defs)
next
  assume "pointerVal asLLMInferenceCluster (LLMInferenceCluster_val K) h (Some a) = Some v"
  from copyPointer_Some [OF LLMInferenceCluster_deep [OF assms] as_cell(14) this]
  show "\<exists>b t. LLMInferenceCluster_DeepCopyObject K (Some a) h = (Ok (ClusterObject b), h @ t) \<and>
      pointerVal asLLMInferenceCluster (LLMInferenceCluster_val K) (h @ t) (Some b) = Some v \<and>
        pointerRefs asLLMInferenceCluster (LLMInferenceCluster_refs K) (h @ t) (Some b) \<subseteq> {length h..<length h + length t}"
    by (elim exE conjE) (simp add: DeepCopyObject_defs andThen_Ok ret_def)
next
  assume "pointerVal asLLMInferenceClusterList (LLMInferenceClusterList_val K) h (Some a) = Some u"
  from copyPointer_Some [OF LLMInferenceClusterList_deep [OF assms] as_cell(16) this]
  show "\<exists>b t. LLMInferenceClusterList_DeepCopyObject K (Some a) h = (Ok (ClusterListObject b), h @ t) \<and>
      pointerVal asLLMInferenceClusterList (LLMInferenceClusterList_val K) (h @ t) (Some b) = Some u \<and>
        pointerRefs asLLMInferenceClusterList (LLMInferenceClusterList_refs K) (h @ t) (Some b) \<subseteq> {length h..<length h + length t}"
    by (elim exE conjE) (simp add: DeepCopyObject_defs andThen_Ok ret_def)
qed

theorem DeepCopyObject_deep_witness:
  "LLMInferenceCluster_DeepCopyObject pointedMeta None sampleMemory = (Ok NilObject, sampleMemory) \<and>
    (\<exists>b t v. LLMInferenceCluster_DeepCopyObject pointedMeta (Some 5) (sampleMemory @ [CLLMInferenceCluster sampleStruct]) =
        (Ok (ClusterObject b), (sampleMemory @ [CLLMInferenceCluster sampleStruct]) @ t) \<and>
      pointerVal asLLMInferenceCluster (LLMInferenceCluster_val pointedMeta)
        ((sampleMemory @ [CLLMInferenceCluster sampleStruct]) @ t) (Some b) = Some v \<and> v \<noteq> None \<and>
      pointerRefs asLLMInferenceCluster (LLMInferenceCluster_refs pointedMeta)
        ((sampleMemory @ [CLLMInferenceCluster sampleStruct]) @ t) (Some b) \<subseteq> {6..<6 + length t})"
proof -
  let ?h = "sampleMemory @ [CLLMInferenceCluster sampleStruct]"
  obtain tm v where "LLMInferenceCluster_val pointedMeta sampleMemory sampleStruct = Some (tm, v)"
    using sampleStruct_val by blast
  then have "LLMInferenceCluster_val pointedMeta ?h sampleStruct = Some (tm, v)"
    using deep_copy.grow [OF LLMInferenceCluster_deep [OF pointedMeta_deep]] by blast
  moreover have "peek asLLMInferenceCluster ?h 5 = Some sampleStruct" by (simp add: peek_def sampleMemory_def)
  ultimately have "pointerVal asLLMInferenceCluster (LLMInferenceCluster_val pointedMeta) ?h (Some 5) = Some (Some (tm, v))"
    by (simp add: pointerVal_def)
  moreover have "length ?h = 6" by (simp add: sampleMemory_def)
  ultimately show ?thesis
    using DeepCopyObject_deep [OF pointedMeta_deep, of sampleMemory 0] DeepCopyObject_deep [OF pointedMeta_deep, of ?h 5]
    by (metis option.distinct(1))
qed

end
