(* ===== verification/Manager.thy ===== *)
theory Manager
  imports Platform GoFlag
begin

text \<open>
  \<open>cmd/main.go\<close>: flags, the TLS, webhook, metrics and manager options built from them, and the start-up
  sequence with its exit codes; \<open>groupversion_info.go\<close> and the \<open>init\<close> functions that register the
  types; \<open>SetupWithManager\<close>, which says what a reconciliation is triggered by. controller-runtime's own
  functions are a record of functions over an outside world, like the API client of \<open>Platform\<close>.
\<close>

section \<open>Registering the types\<close>

record GroupVersion =
  gv_Group :: string
  gv_Version :: string

definition SchemeGroupVersion :: GroupVersion where
  "SchemeGroupVersion = \<lparr>gv_Group = ''inference.llm.io'', gv_Version = ''v1alpha1''\<rparr>"

text \<open>The scheme builder: a group version and the types registered for it.\<close>

record schemeBuilder =
  sb_GroupVersion :: GroupVersion
  sb_Types :: "string list"

definition Register :: "string list \<Rightarrow> schemeBuilder \<Rightarrow> schemeBuilder" where
  "Register ts b = b\<lparr>sb_Types := sb_Types b @ ts\<rparr>"

text \<open>\<open>SchemeBuilder\<close> after the \<open>init\<close> function of the API package.\<close>

definition SchemeBuilder :: schemeBuilder where
  "SchemeBuilder = Register [''LLMInferenceCluster'', ''LLMInferenceClusterList'']
     \<lparr>sb_GroupVersion = SchemeGroupVersion, sb_Types = []\<rparr>"

text \<open>\<open>init\<close> of the manager: register Kubernetes' types, then these; \<open>utilruntime.Must\<close> panics on an error.\<close>

definition managerInit :: "('s \<Rightarrow> error + 's) \<Rightarrow> (schemeBuilder \<Rightarrow> 's \<Rightarrow> error + 's) \<Rightarrow> 's \<Rightarrow> 's go" where
  "managerInit addClientGo addTypes scheme =
     (case addClientGo scheme of
        Inl e \<Rightarrow> Panic
      | Inr scheme \<Rightarrow> (case addTypes SchemeBuilder scheme of Inl e \<Rightarrow> Panic | Inr scheme \<Rightarrow> Ok scheme))"

section \<open>Flags\<close>

record managerFlags =
  mf_metricsAddr :: string
  mf_probeAddr :: string
  enableLeaderElection :: bool
  secureMetrics :: bool
  webhookCertPath :: string
  webhookCertName :: string
  webhookCertKey :: string
  metricsCertPath :: string
  metricsCertName :: string
  metricsCertKey :: string
  enableHTTP2 :: bool

definition managerFlagDefaults :: managerFlags where
  "managerFlagDefaults =
     \<lparr>mf_metricsAddr = ''0'', mf_probeAddr = '':8081'', enableLeaderElection = False, secureMetrics = True,
      webhookCertPath = [], webhookCertName = ''tls.crt'', webhookCertKey = ''tls.key'',
      metricsCertPath = [], metricsCertName = ''tls.crt'', metricsCertKey = ''tls.key'', enableHTTP2 = False\<rparr>"

text \<open>The flags beside those that the logging library binds, \<open>zapFlags\<close>, which set nothing the program reads.\<close>

definition managerFlagSet :: "(string \<Rightarrow> managerFlags flag option) \<Rightarrow> string \<Rightarrow> managerFlags flag option" where
  "managerFlagSet zapFlags name =
     (if name = ''metrics-bind-address'' then Some (StringFlag (\<lambda>v x. x\<lparr>mf_metricsAddr := v\<rparr>))
      else if name = ''health-probe-bind-address'' then Some (StringFlag (\<lambda>v x. x\<lparr>mf_probeAddr := v\<rparr>))
      else if name = ''leader-elect'' then Some (BoolFlag (\<lambda>v x. x\<lparr>enableLeaderElection := v\<rparr>))
      else if name = ''metrics-secure'' then Some (BoolFlag (\<lambda>v x. x\<lparr>secureMetrics := v\<rparr>))
      else if name = ''webhook-cert-path'' then Some (StringFlag (\<lambda>v x. x\<lparr>webhookCertPath := v\<rparr>))
      else if name = ''webhook-cert-name'' then Some (StringFlag (\<lambda>v x. x\<lparr>webhookCertName := v\<rparr>))
      else if name = ''webhook-cert-key'' then Some (StringFlag (\<lambda>v x. x\<lparr>webhookCertKey := v\<rparr>))
      else if name = ''metrics-cert-path'' then Some (StringFlag (\<lambda>v x. x\<lparr>metricsCertPath := v\<rparr>))
      else if name = ''metrics-cert-name'' then Some (StringFlag (\<lambda>v x. x\<lparr>metricsCertName := v\<rparr>))
      else if name = ''metrics-cert-key'' then Some (StringFlag (\<lambda>v x. x\<lparr>metricsCertKey := v\<rparr>))
      else if name = ''enable-http2'' then Some (BoolFlag (\<lambda>v x. x\<lparr>enableHTTP2 := v\<rparr>))
      else zapFlags name)"

section \<open>Options\<close>

record tlsConfig =
  NextProtos :: "string list"

definition disableHTTP2 :: "tlsConfig \<Rightarrow> tlsConfig" where
  "disableHTTP2 c = c\<lparr>NextProtos := [''http/1.1'']\<rparr>"

definition tlsOpts :: "managerFlags \<Rightarrow> (tlsConfig \<Rightarrow> tlsConfig) list" where
  "tlsOpts f = [] @ (if \<not> enableHTTP2 f then [disableHTTP2] else [])"

record webhookOptions =
  wo_TLSOpts :: "(tlsConfig \<Rightarrow> tlsConfig) list"
  wo_CertDir :: string
  wo_CertName :: string
  wo_KeyName :: string

definition webhookServerOptions :: "managerFlags \<Rightarrow> webhookOptions" where
  "webhookServerOptions f =
     (let o1 = \<lparr>wo_TLSOpts = tlsOpts f, wo_CertDir = [], wo_CertName = [], wo_KeyName = []\<rparr> in
      if 0 < length (webhookCertPath f)
      then o1\<lparr>wo_CertDir := webhookCertPath f, wo_CertName := webhookCertName f, wo_KeyName := webhookCertKey f\<rparr>
      else o1)"

datatype filterProvider = NoFilter | WithAuthenticationAndAuthorization

record metricsOptions =
  mo_BindAddress :: string
  mo_SecureServing :: bool
  mo_TLSOpts :: "(tlsConfig \<Rightarrow> tlsConfig) list"
  mo_FilterProvider :: filterProvider
  mo_CertDir :: string
  mo_CertName :: string
  mo_KeyName :: string

definition metricsServerOptions :: "managerFlags \<Rightarrow> metricsOptions" where
  "metricsServerOptions f =
     (let m = \<lparr>mo_BindAddress = mf_metricsAddr f, mo_SecureServing = secureMetrics f, mo_TLSOpts = tlsOpts f,
               mo_FilterProvider = NoFilter, mo_CertDir = [], mo_CertName = [], mo_KeyName = []\<rparr>;
          m = (if secureMetrics f then m\<lparr>mo_FilterProvider := WithAuthenticationAndAuthorization\<rparr> else m)
      in if 0 < length (metricsCertPath f)
         then m\<lparr>mo_CertDir := metricsCertPath f, mo_CertName := metricsCertName f, mo_KeyName := metricsCertKey f\<rparr>
         else m)"

record 's managerOptions =
  op_Scheme :: 's
  op_Metrics :: metricsOptions
  op_WebhookServer :: webhookOptions
  op_HealthProbeBindAddress :: string
  op_LeaderElection :: bool
  op_LeaderElectionID :: string

definition managerOptionsOf :: "'s \<Rightarrow> managerFlags \<Rightarrow> 's managerOptions" where
  "managerOptionsOf scheme f =
     \<lparr>op_Scheme = scheme, op_Metrics = metricsServerOptions f, op_WebhookServer = webhookServerOptions f,
      op_HealthProbeBindAddress = mf_probeAddr f, op_LeaderElection = enableLeaderElection f,
      op_LeaderElectionID = ''dd64864b.llm.io''\<rparr>"

section \<open>The controller's triggers\<close>

text \<open>What \<open>SetupWithManager\<close> hands to the builder: the reconciled type and the owned kinds.\<close>

record controllerSetup =
  cs_For :: string
  cs_Owns :: "kind list"
  cs_Name :: string

definition controllerSetupOf :: controllerSetup where
  "controllerSetupOf = \<lparr>cs_For = ''LLMInferenceCluster'', cs_Owns = [KDeployment, KService, KConfigMap],
     cs_Name = ''llminferencecluster''\<rparr>"

section \<open>Start-up\<close>

datatype 's startCall =
    GetConfig
  | NewManager "'s managerOptions"
  | Complete controllerSetup
  | AddHealthzCheck string
  | AddReadyzCheck string
  | Start

text \<open>controller-runtime: each call fails or not, and every call is logged.\<close>

record ('s, 'w) startWorld =
  sw_env :: 'w
  sw_calls :: "'s startCall list"

type_synonym ('s, 'w) runtime = "'s startCall \<Rightarrow> 'w \<Rightarrow> error option \<times> 'w"

definition perform :: "('s, 'w) runtime \<Rightarrow> 's startCall \<Rightarrow> (('s, 'w) startWorld, unit) comp" where
  "perform R c = (\<lambda>w. case R c (sw_env w) of
       (None, x) \<Rightarrow> (Ok (), w\<lparr>sw_env := x, sw_calls := sw_calls w @ [c]\<rparr>)
     | (Some e, x) \<Rightarrow> (Err e, w\<lparr>sw_env := x, sw_calls := sw_calls w @ [c]\<rparr>))"

definition SetupWithManager :: "('s, 'w) runtime \<Rightarrow> (('s, 'w) startWorld, unit) comp" where
  "SetupWithManager R = perform R (Complete controllerSetupOf)"

text \<open>\<open>main\<close> after the flags are read: the exit code of the process.\<close>

definition managerMain :: "('s, 'w) runtime \<Rightarrow> 's \<Rightarrow> managerFlags \<Rightarrow> (('s, 'w) startWorld, int) comp" where
  "managerMain R scheme f =
     (let exit1 = (\<lambda>_. ret 1) in
      onErr (perform R GetConfig) exit1 (\<lambda>_.
      onErr (perform R (NewManager (managerOptionsOf scheme f))) exit1 (\<lambda>_.
      onErr (SetupWithManager R) exit1 (\<lambda>_.
      onErr (perform R (AddHealthzCheck ''healthz'')) exit1 (\<lambda>_.
      onErr (perform R (AddReadyzCheck ''readyz'')) exit1 (\<lambda>_.
      onErr (perform R Start) exit1 (\<lambda>_. ret 0)))))))"

definition managerProcess ::
  "('s, 'w) runtime \<Rightarrow> (string \<Rightarrow> managerFlags flag option) \<Rightarrow> 's \<Rightarrow> string list \<Rightarrow> (('s, 'w) startWorld, int) comp" where
  "managerProcess R zapFlags scheme args =
     (case parseArgs (managerFlagSet zapFlags) args managerFlagDefaults of
        Inl code \<Rightarrow> ret code
      | Inr (f, rest) \<Rightarrow> managerMain R scheme f)"

section \<open>The sequence\<close>

definition startSequence :: "'s \<Rightarrow> managerFlags \<Rightarrow> 's startCall list" where
  "startSequence scheme f = [GetConfig, NewManager (managerOptionsOf scheme f), Complete controllerSetupOf,
     AddHealthzCheck ''healthz'', AddReadyzCheck ''readyz'', Start]"

text \<open>Running a list of calls until one fails.\<close>

fun runCalls :: "('s, 'w) runtime \<Rightarrow> 's startCall list \<Rightarrow> (('s, 'w) startWorld, int) comp" where
  "runCalls R [] = ret 0"
| "runCalls R (c # cs) = onErr (perform R c) (\<lambda>_. ret 1) (\<lambda>_. runCalls R cs)"

lemma managerMain_runs: "managerMain R scheme f = runCalls R (startSequence scheme f)"
  by (simp add: managerMain_def startSequence_def SetupWithManager_def Let_def)

lemma runCalls_step:
  "runCalls R (c # cs) w =
    (case R c (sw_env w) of
       (None, x) \<Rightarrow> runCalls R cs (w\<lparr>sw_env := x, sw_calls := sw_calls w @ [c]\<rparr>)
     | (Some e, x) \<Rightarrow> (Ok 1, w\<lparr>sw_env := x, sw_calls := sw_calls w @ [c]\<rparr>))"
  by (simp add: perform_def onErr_def ret_def split: prod.split option.split)

declare runCalls.simps(2) [simp del]

text \<open>The state after a list of calls that all succeed.\<close>

fun succeeding :: "('s, 'w) runtime \<Rightarrow> 's startCall list \<Rightarrow> 'w \<Rightarrow> 'w option" where
  "succeeding R [] x = Some x"
| "succeeding R (c # cs) x = (case R c x of (None, x') \<Rightarrow> succeeding R cs x' | (Some e, x') \<Rightarrow> None)"

lemma runCalls_exact:
  "runCalls R cs w = (r, w') \<Longrightarrow>
    (\<exists>x. succeeding R cs (sw_env w) = Some x \<and> r = Ok 0 \<and> w' = w\<lparr>sw_env := x, sw_calls := sw_calls w @ cs\<rparr>) \<or>
    (\<exists>as c bs x e x'. cs = as @ c # bs \<and> succeeding R as (sw_env w) = Some x \<and> R c x = (Some e, x') \<and>
      r = Ok 1 \<and> w' = w\<lparr>sw_env := x', sw_calls := sw_calls w @ as @ [c]\<rparr>)"
proof (induction cs arbitrary: w)
  case Nil
  then show ?case by (auto simp: ret_def)
next
  case (Cons c cs)
  obtain e x where R: "R c (sw_env w) = (e, x)" by fastforce
  show ?case
  proof (cases e)
    case None
    let ?v = "w\<lparr>sw_env := x, sw_calls := sw_calls w @ [c]\<rparr>"
    have "runCalls R cs ?v = (r, w')" using Cons.prems R None by (simp add: runCalls_step)
    from Cons.IH [OF this] show ?thesis
    proof (elim disjE exE conjE)
      fix as d bs y e y'
      assume "cs = as @ d # bs" "succeeding R as (sw_env ?v) = Some y" "R d y = (Some e, y')" "r = Ok 1"
        "w' = ?v\<lparr>sw_env := y', sw_calls := sw_calls ?v @ as @ [d]\<rparr>"
      then show ?thesis using R None
        by (intro disjI2 exI [of _ "c # as"] exI [of _ d] exI [of _ bs] exI [of _ y] exI [of _ e] exI [of _ y']) simp
    qed (use R None in simp)
  next
    case (Some err)
    then show ?thesis using R Cons.prems
      by (intro disjI2 exI [of _ "[]"] exI [of _ c] exI [of _ cs] exI [of _ "sw_env w"] exI [of _ err] exI [of _ x])
        (auto simp: runCalls_step)
  qed
qed



section \<open>Properties\<close>

text \<open>
  C30: Start-up. Whatever controller-runtime answers, the manager process makes its calls in the order
  configuration, manager, controller, health check, readiness check, start. When all of them succeed the
  process ends with exit code 0; otherwise it makes those before the first that fails, which succeed,
  and that one, and ends there with exit code 1. A command line that cannot be read makes no call at all.
\<close>

theorem manager_startup:
  "\<exists>code w'. managerProcess R zapFlags scheme args w = (Ok code, w') \<and>
    (case parseArgs (managerFlagSet zapFlags) args managerFlagDefaults of
       Inl c \<Rightarrow> code = c \<and> w' = w
     | Inr (f, rest) \<Rightarrow>
         let order = [GetConfig, NewManager (managerOptionsOf scheme f), Complete controllerSetupOf,
               AddHealthzCheck ''healthz'', AddReadyzCheck ''readyz'', Start] in
         (\<exists>x. succeeding R order (sw_env w) = Some x \<and> code = 0 \<and>
            w' = w\<lparr>sw_env := x, sw_calls := sw_calls w @ order\<rparr>) \<or>
         (\<exists>as c bs x e x'. order = as @ c # bs \<and> succeeding R as (sw_env w) = Some x \<and> R c x = (Some e, x') \<and> code = 1 \<and>
            w' = w\<lparr>sw_env := x', sw_calls := sw_calls w @ as @ [c]\<rparr>))"
proof (cases "parseArgs (managerFlagSet zapFlags) args managerFlagDefaults")
  case (Inr p)
  obtain r w' where run: "runCalls R (startSequence scheme (fst p)) w = (r, w')" by fastforce
  have proc: "managerProcess R zapFlags scheme args w = (r, w')"
    using run Inr by (cases p) (simp add: managerProcess_def managerMain_runs)
  have "\<exists>code. r = Ok code" using runCalls_exact [OF run] by blast
  then show ?thesis
    using runCalls_exact [OF run] unfolding proc Inr startSequence_def [symmetric] Let_def sum.case case_prod_beta
    by (metis go.inject)
qed (simp add: managerProcess_def ret_def)



text \<open>The logging library's flags leave the program's variables alone.\<close>

definition zap_neutral :: "(string \<Rightarrow> managerFlags flag option) \<Rightarrow> bool" where
  "zap_neutral zapFlags \<longleftrightarrow> (\<forall>n.
     (\<forall>f b x. zapFlags n = Some (BoolFlag f) \<longrightarrow> f b x = x) \<and>
     (\<forall>f v x y. zapFlags n = Some (ValueFlag f) \<longrightarrow> f v x = Some y \<longrightarrow> y = x))"

lemma zap_neutralD:
  "zap_neutral zapFlags \<Longrightarrow> zapFlags n = Some (BoolFlag f) \<Longrightarrow> f = (\<lambda>b x. x)"
  "zap_neutral zapFlags \<Longrightarrow> zapFlags n = Some (ValueFlag g) \<Longrightarrow> g v x = Some y \<Longrightarrow> y = x"
  unfolding zap_neutral_def by blast+

lemma manager_flags_separate:
  assumes "zap_neutral zapFlags"
  shows "onlySetBy (managerFlagSet zapFlags) ''metrics-secure'' secureMetrics"
    and "onlySetBy (managerFlagSet zapFlags) ''enable-http2'' enableHTTP2"
    and "onlySetBy (managerFlagSet zapFlags) ''leader-elect'' enableLeaderElection"
    and "onlySetBy (managerFlagSet zapFlags) ''metrics-bind-address'' mf_metricsAddr"
  using assms
  by (auto simp: onlySetBy_def managerFlagSet_def StringFlag_def split: if_splits dest: zap_neutralD)

text \<open>
  C32: The manager's options. The options with which the process asks for a manager follow from its command
  line: the metrics server is served securely, and then with authentication and authorization, exactly
  as \<open>--metrics-secure\<close> says; without \<open>--enable-http2\<close> every TLS configuration of the webhook and of the
  metrics server offers HTTP/1.1 only, with it they are left alone; certificates are used exactly where a
  directory is given. On a command line that does not set them, metrics are secure, HTTP/2 and leader
  election are off, and the metrics address is \<open>0\<close>, which means no metrics server.
\<close>

theorem manager_options:
  assumes "zap_neutral zapFlags" "sw_calls w = []"
    and "NewManager opts \<in> set (sw_calls (snd (managerProcess R zapFlags scheme args w)))"
  shows "\<exists>f rest. parseArgs (managerFlagSet zapFlags) args managerFlagDefaults = Inr (f, rest) \<and>
    op_Scheme opts = scheme \<and> op_LeaderElection opts = enableLeaderElection f \<and>
    op_HealthProbeBindAddress opts = mf_probeAddr f \<and> mo_BindAddress (op_Metrics opts) = mf_metricsAddr f \<and>
    mo_SecureServing (op_Metrics opts) = secureMetrics f \<and>
    mo_FilterProvider (op_Metrics opts) = (if secureMetrics f then WithAuthenticationAndAuthorization else NoFilter) \<and>
    (\<forall>tls. fold (\<lambda>g. g) (wo_TLSOpts (op_WebhookServer opts)) tls =
       (if enableHTTP2 f then tls else tls\<lparr>NextProtos := [''http/1.1'']\<rparr>)) \<and>
    (\<forall>tls. fold (\<lambda>g. g) (mo_TLSOpts (op_Metrics opts)) tls =
       (if enableHTTP2 f then tls else tls\<lparr>NextProtos := [''http/1.1'']\<rparr>)) \<and>
    (mo_CertDir (op_Metrics opts), mo_CertName (op_Metrics opts), mo_KeyName (op_Metrics opts)) =
      (if metricsCertPath f = [] then ([], [], []) else (metricsCertPath f, metricsCertName f, metricsCertKey f)) \<and>
    (wo_CertDir (op_WebhookServer opts), wo_CertName (op_WebhookServer opts), wo_KeyName (op_WebhookServer opts)) =
      (if webhookCertPath f = [] then ([], [], []) else (webhookCertPath f, webhookCertName f, webhookCertKey f)) \<and>
    (list_ex (setsFlag ''metrics-secure'') args \<or> secureMetrics f) \<and>
    (list_ex (setsFlag ''enable-http2'') args \<or> \<not> enableHTTP2 f) \<and>
    (list_ex (setsFlag ''leader-elect'') args \<or> \<not> enableLeaderElection f) \<and>
    (list_ex (setsFlag ''metrics-bind-address'') args \<or> mf_metricsAddr f = ''0'')"
proof -
  obtain p where p: "parseArgs (managerFlagSet zapFlags) args managerFlagDefaults = Inr p"
    using assms(2,3) by (cases "parseArgs (managerFlagSet zapFlags) args managerFlagDefaults") (auto simp: managerProcess_def ret_def)
  obtain f rest where f: "p = (f, rest)" by fastforce
  obtain r w' where run: "runCalls R (startSequence scheme f) w = (r, w')" by fastforce
  then have "NewManager opts \<in> set (sw_calls w')" using assms(3) p f by (simp add: managerProcess_def managerMain_runs)
  moreover have "set (sw_calls w') \<subseteq> set (startSequence scheme f)" using runCalls_exact [OF run] assms(2) by auto
  ultimately have opts: "opts = managerOptionsOf scheme f" by (auto simp: startSequence_def)
  note keep = manager_flags_separate [OF assms(1), THEN parseArgs_default, OF p [unfolded f]]
  show ?thesis
    unfolding p f opts managerOptionsOf_def
    using keep by (intro exI [of _ f] exI [of _ rest])
      (auto simp: webhookServerOptions_def metricsServerOptions_def tlsOpts_def disableHTTP2_def managerFlagDefaults_def Let_def)
qed

theorem manager_options_witness:
  "\<exists>f rest. parseArgs (managerFlagSet (\<lambda>_. None)) [''--leader-elect''] managerFlagDefaults = Inr (f, rest) \<and> secureMetrics f \<and>
    mo_FilterProvider (op_Metrics (managerOptionsOf () f)) = WithAuthenticationAndAuthorization"
proof -
  let ?w = "\<lparr>sw_env = (), sw_calls = []\<rparr>" and ?R = "\<lambda>c x. (None, x) :: error option \<times> unit"
  let ?f = "managerFlagDefaults\<lparr>enableLeaderElection := True\<rparr>"
  have parse: "parseArgs (managerFlagSet (\<lambda>_. None)) [''--leader-elect''] managerFlagDefaults = Inr (?f, [])"
    by (simp add: arg_shape_def splitFlag_def managerFlagSet_def Let_def)
  have "NewManager (managerOptionsOf () ?f) \<in> set (sw_calls (snd (managerProcess ?R (\<lambda>_. None) () [''--leader-elect''] ?w)))"
    by (simp add: managerProcess_def parse managerMain_runs startSequence_def runCalls_step ret_def del: parseArgs.simps)
  moreover have "zap_neutral (\<lambda>_. None)" by (simp add: zap_neutral_def)
  ultimately show ?thesis
    using manager_options [of "\<lambda>_. None" ?w "managerOptionsOf () ?f" ?R "()" "[''--leader-elect'']"] parse
    by (auto simp: setsFlag_def arg_shape_def splitFlag_def Let_def simp del: parseArgs.simps)
qed

end
