(* ===== verification/Spec2Isabelle.thy ===== *)
theory Spec2Isabelle
  imports System Traces Samples Outcomes DeepCopy Manager
begin

text \<open>
  A verification library for the LLM inference operator: a Kubernetes operator that runs inference
  clusters, a router that sends chats to them, and a mock worker.

  \<^bold>\<open>The program.\<close> The manager (\<open>cmd/main.go\<close>) starts controller-runtime, which calls \<open>Reconcile\<close>
  (\<open>internal/controller/llminferencecluster_controller.go\<close>) for every change of an
  \<open>LLMInferenceCluster\<close> (\<open>api/v1alpha1\<close>). A reconciliation reads the resource, copies it, fills in
  defaults and persists them, keeps a finalizer, asks the autoscaler for the number of decode replicas
  (signals come through the adapters of \<open>internal/signals\<close>), creates or updates the services, the
  router's account, role and binding and the three deployments, assigns the KV-cache shards to the
  decode pods with the hash ring of \<open>internal/routing\<close>, publishes the assignment as JSON in a ConfigMap
  and in the status, and sets conditions. The router (\<open>cmd/router/main.go\<close>) polls that ConfigMap, picks
  a shard for the conversation of each chat and forwards the chat to the decode service, where the mock
  worker (\<open>cmd/mock-worker/main.go\<close>) answers.

  \<^bold>\<open>Theories and sources.\<close>
  \<^item> \<open>Prelude\<close>: results (value, error, panic), computations over a state with Go's early returns, a
    calculus of triples for them (\<open>always\<close>), 32-bit integers.
  \<^item> \<open>GoStd\<close>, \<open>GoFloat\<close>, \<open>GoJson\<close>, \<open>GoFlag\<close>, \<open>GoHttp\<close>: the parts of Go's library the program computes
    with: decimal texts and FNV hashes, \<open>strconv.ParseFloat\<close> with IEEE rounding, \<open>encoding/json\<close> (scanner,
    printer, struct decoding), \<open>flag.Parse\<close>, and of \<open>net/http\<close> headers, \<open>Client.Do\<close>'s checks and \<open>ServeMux\<close>.
  \<^item> \<open>Types\<close>, \<open>Defaults\<close>: the API types with the validation markers as predicates; the defaulting at the
    start of \<open>Reconcile\<close>. In these records a pointer is an option; \<open>Memory\<close> and \<open>DeepCopy\<close> model the
    same structs with addresses, every function of \<open>zz_generated.deepcopy.go\<close> on them, and show that
    the copies make the reading on values right.
  \<^item> \<open>Platform\<close>, \<open>Contracts\<close>, \<open>MemServer\<close>: what the program calls and does not contain (the API client,
    \<open>controllerutil\<close>, \<open>meta.SetStatusCondition\<close>, the clock, \<open>sort.Slice\<close>) is a record of functions over an
    arbitrary outside state, an argument of every definition; the documented behaviour of these
    functions is the predicate \<open>contract\<close>, which an in-memory server meets. The log of calls also
    keeps what the listing of the pods answered. The server fills in the port
    protocol and the field reference's version that the deployment closures leave empty.
  \<^item> \<open>Signals\<close>, \<open>Autoscaler\<close>, \<open>Routing\<close>, \<open>ShardAssign\<close>, \<open>Resources\<close>, \<open>Controller\<close>: the operator, one
    definition per function or block of the source under its own name. \<open>reconcileX\<close> is the source's
    function, \<open>mutateX\<close> its closure, \<open>writeX\<close> the part of the closure before the owner is set; \<open>Reconcile\<close>
    is cut into the blocks of the source, each taking the rest of the function as an argument.
  \<^item> \<open>Router\<close>, \<open>Worker\<close>, \<open>Manager\<close>: the other programs with their flags and start-up, the router also as a
    transition system in which polls and requests interleave.
  \<^item> \<open>Guarantees\<close>, \<open>Deployed\<close>, \<open>Progress\<close>, \<open>Steady\<close>, \<open>Traces\<close>, \<open>Outcomes\<close>, \<open>System\<close>: the lemmas about whole
    reconciliations (what holds after them, that they succeed, that a second one changes nothing, which
    calls they make in which order,
    how they end early) and about the components together; \<open>Samples\<close>: inputs for the witnesses.

  \<^bold>\<open>Interfaces.\<close> The locales are \<open>signals_adapter\<close> (the Go interface \<open>Adapter\<close>, interpreted on both
  implementations), the ring's contract in \<open>Routing\<close> (on 64-bit integers), \<open>owned_child\<close> (a closure for
  \<open>CreateOrUpdate\<close>, interpreted on all nine), \<open>document_codec\<close> (the shard map between its writer and its
  reader) and \<open>deep_copy\<close> (a copying function with the value and the
  addresses of its data, interpreted on the API types).

  \<^bold>\<open>What is shown.\<close> A successful reconciliation leaves the whole system on the server as the spec asks,
  with a truthful status, and the next one changes nothing; the published shard map sends every conversation to a shard of the status
  and to a pod of the cluster; the deployed router reads exactly that map and forwards to exactly that
  service; a valid resource on a responsive server is reconciled; no answer of the server makes the
  controller panic; errors are reported; calls are ordered; deletion and missing resources are handled.
  Per component: the closures are idempotent, the assignment is total, ordered, independent of the
  order of the pods and equal to a reference definition, its document is read back by the router,
  which refuses exactly the documents with a wrong type in them; the name of a conversation is that of
  the request document, for every body;
  autoscaling stays in its bounds and moves by one step; deep copies are deep; the router's counters,
  outcomes, pages and polling are exact and invariant under interleaving; the manager's start-up is
  ordered, ends at the first failing call, and its options follow from the command line. The behaviours
  where the code falls short (wrap-around of the replica count, the ring on 32-bit integers, Prometheus
  signals, deployments that are sent again in every reconciliation) are theorems as well.

  \<^bold>\<open>Bounds and fuel.\<close> No definition uses fuel: loops are structural recursions or folds over finite
  data, and every function is total, with panics as values. Replica counts, ports and shard numbers are
  32-bit words with wrap-around; \<open>int\<close> is 64 bits unless a theorem says otherwise; queue depths are exact
  up to \<open>2 ^ 53\<close>; the JSON nesting limit is the library's. The poll loop is given the finite sequence of
  answers of a run so far.

  \<^bold>\<open>Hypotheses.\<close> The laws of \<open>contract\<close> describe a server on which nobody else writes the cluster's
  own objects while a reconciliation runs, and reads that are up to date. The manager gives the
  reconciler \<open>mgr.GetClient()\<close>, whose reads may come from a cache that lags behind the server: the
  theorems that assume \<open>contract\<close> or \<open>responsive\<close> are about runs in which it does not. \<open>deployments_ok\<close> excludes a stored deployment with an empty,
  non-nil list of containers, which the API server's validation refuses. \<open>valid_Spec\<close> is the CRD's
  validation.

  \<^bold>\<open>Not modelled.\<close> Sockets, time-outs and the rendering of metrics pages (library code without logic
  of this repository); the other defaults of the API server, on fields the closures neither set nor read; log messages; percent escapes in request paths; the test utilities under \<open>test\<close>
  (they run external commands); YAML manifests, the chart and the documentation.
\<close>

section \<open>What a reconciliation achieves\<close>

text \<open>
  C1: Deployment. After a reconciliation that returns no error, for a stored resource that is not being
  deleted, the server holds the whole system for the defaulted spec: the decode, prefill and router
  services with their ports and selectors, the three deployments with the right image, replicas,
  arguments and environment, the router's account, role and binding, all owned by the stored cluster;
  when autoscaling is on the decode replicas are the decision for the numbers in the stored signals
  ConfigMap.
\<close>

theorem reconcile_deploys:
  assumes "contract P view crs" "crs (env w) req = Some c0" "DeletionTimestamp (metadata c0) = None"
    "valid_Spec (spec c0)" "deployments_ok (view (env w))"
    "fst (Reconcile P req w) = Ok (res, None)"
  shows "\<exists>c ov dp pp. crs (env (snd (Reconcile P req w))) (key_of (metadata c0)) = Some c \<and>
    spec c = applyDefaults (spec c0) \<and> key_of (metadata c) = key_of (metadata c0) \<and>
    ServicePort (Decode (Runtime (spec c))) = Some dp \<and> ServicePort (Prefill (Runtime (spec c))) = Some pp \<and>
    replicas_decided c (view (env (snd (Reconcile P req w)))) ov \<and> deployed c ov dp pp (view (env (snd (Reconcile P req w))))"
proof -
  obtain w' where run: "Reconcile P req w = (Ok (res, None), w')" using assms(6) by (metis prod.collapse)
  have "reconciled view crs P (crs (env w)) c0 w'"
    using Reconcile_run [OF assms(1-3) valid_numShards [OF assms(4)] assms(5) run] by (simp add: run_post_def)
  then show ?thesis using reconciled_deployed [OF assms(1)] run by simp
qed

theorem reconcile_deploys_witness:
  "\<exists>c ov dp pp. spec c = applyDefaults (spec sampleCluster) \<and>
    deployed c ov dp pp (ms_objects (env (snd (Reconcile mem sampleKey (worldWith sampleCluster)))))"
  using reconcile_deploys [OF mem_contract sample_world(1) sample_cluster(2) sample_valid sample_world(2) sample_run]
  by blast

text \<open>
  C2: Routing. After such a reconciliation the router that polls the shard map ConfigMap chooses, for
  every conversation, a shard that the resource's status lists. The pods that the run's own listing of
  the decode pods returned decide about it: all of them are decode pods of this cluster; when there are
  none the shard is pending and has no owner, otherwise it is ready and owned by one of them, a ready
  one unless none is ready.
\<close>

theorem reconcile_routable:
  assumes "contract P view crs" "crs (env w) req = Some c0" "DeletionTimestamp (metadata c0) = None"
    "valid_Spec (spec c0)" "deployments_ok (view (env w))"
    "fst (Reconcile P req w) = Ok (res, None)"
  shows "\<exists>t pods c' cm. calls (snd (Reconcile P req w)) = calls w @ t \<and>
    CallListPods (Namespace (metadata c0)) (roleLabels (baseLabels c0) ''decode'') (Inr pods) \<in> set t \<and>
    list_all (decodePodOf c0) pods \<and>
    crs (env (snd (Reconcile P req w))) (key_of (metadata c0)) = Some c' \<and>
    stored asConfigMap (KConfigMap, Namespace (metadata c0), Name (metadata c0) @ ''-shardmap'')
      (view (env (snd (Reconcile P req w)))) = Some cm \<and>
    routable pods c' cm"
proof -
  obtain w' where run: "Reconcile P req w = (Ok (res, None), w')" using assms(6) by (metis prod.collapse)
  obtain v where v: "Reconcile P req (w\<lparr>calls := []\<rparr>) = (Ok (res, None), v)" "env v = env w'" "calls w' = calls w @ calls v"
    by (rule appends_run [OF appends_Reconcile run])
  have "reconciled view crs P (crs (env w)) c0 v"
    using Reconcile_run [OF assms(1) _ assms(3) valid_numShards [OF assms(4)] _ v(1)] assms(2,5) by (simp add: run_post_def)
  from reconciled_routable [OF assms(1) this valid_numShards_pos [OF assms(4)]] show ?thesis
    using v(2,3) unfolding run snd_conv listedPods_def roleDecode_def by metis
qed

theorem reconcile_routable_witness:
  "\<exists>t pods c' cm. calls (snd (Reconcile mem sampleKey (worldWith sampleCluster))) = t \<and>
    CallListPods ''ns'' (roleLabels (baseLabels sampleCluster) ''decode'') (Inr pods) \<in> set t \<and>
    ms_clusters (env (snd (Reconcile mem sampleKey (worldWith sampleCluster)))) sampleKey = Some c' \<and>
    routable pods c' cm"
proof -
  have "Namespace (metadata sampleCluster) = ''ns''" "calls (worldWith sampleCluster) = []"
    by (simp_all add: sampleCluster_def worldWith_def)
  then show ?thesis
    using reconcile_routable [OF mem_contract sample_world(1) sample_cluster(2) sample_valid sample_world(2) sample_run]
    unfolding sample_cluster(1) by (metis append_Nil)
qed

text \<open>
  C3: Progress. If the API server answers without errors, nobody else controls the child objects and
  the signals do not come from Prometheus, a reconciliation of a valid resource succeeds and asks to be
  run again in 30 seconds.
\<close>

theorem reconcile_succeeds:
  assumes "responsive P view crs" "crs (env w) req = Some c0" "key_of (metadata c0) = req"
    "DeletionTimestamp (metadata c0) = None" "valid_Spec (spec c0)" "\<not> usesPrometheus c0"
    "deployments_ok (view (env w))" "unclaimed (metadata c0) (view (env w))"
  shows "fst (Reconcile P req w) = Ok (\<lparr>RequeueAfter = 30\<rparr>, None)"
  using Reconcile_succeeds assms valid_numShards by blast

theorem reconcile_succeeds_witness:
  "fst (Reconcile mem sampleKey (worldWith sampleCluster)) = Ok (\<lparr>RequeueAfter = 30\<rparr>, None)"
  by (rule reconcile_succeeds [OF mem_responsive sample_world(1) sample_cluster(1,2) sample_valid
    sample_cluster(4) sample_world(2,3)])

text \<open>
  C4: No panic. Whatever the API server answers within its contract, a reconciliation of a valid
  resource returns a result (no nil dereference, no index out of range), and leaves no deployment
  without containers behind, so the next one does not panic either.
\<close>

theorem reconcile_no_panic:
  assumes "contract P view crs" "crs (env w) req = Some c0" "DeletionTimestamp (metadata c0) = None"
    "valid_Spec (spec c0)" "deployments_ok (view (env w))"
  shows "(\<exists>res. fst (Reconcile P req w) = Ok res) \<and> deployments_ok (view (env (snd (Reconcile P req w))))"
proof -
  obtain r w' where run: "Reconcile P req w = (r, w')" by fastforce
  show ?thesis
    using Reconcile_run [OF assms(1-3) valid_numShards [OF assms(4)] assms(5) run] run
    by (auto simp: run_post_def split: go.splits)
qed

theorem reconcile_no_panic_witness:
  "\<exists>res. fst (Reconcile mem sampleKey (worldWith sampleCluster)) = Ok res"
  using reconcile_no_panic [OF mem_contract sample_world(1) sample_cluster(2) sample_valid sample_world(2)]
  by blast

text \<open>
  C5: Status. After a reconciliation without error the stored resource has the defaulted spec and the
  finalizer, its status has the observed generation, the three endpoints, a true Ready and a false
  Degraded condition.
\<close>

theorem reconcile_status:
  assumes "contract P view crs" "crs (env w) req = Some c0" "DeletionTimestamp (metadata c0) = None"
    "valid_Spec (spec c0)" "deployments_ok (view (env w))"
    "fst (Reconcile P req w) = Ok (res, None)"
  shows "RequeueAfter res = 30 \<and> (\<exists>c dp pp. crs (env (snd (Reconcile P req w))) (key_of (metadata c0)) = Some c \<and>
    spec c = applyDefaults (spec c0) \<and> llmInferenceClusterFinalizer \<in> set (Finalizers (metadata c)) \<and>
    ServicePort (Decode (Runtime (spec c))) = Some dp \<and> ServicePort (Prefill (Runtime (spec c))) = Some pp \<and>
    published c dp pp c)"
proof -
  obtain w' where run: "Reconcile P req w = (Ok (res, None), w')" using assms(6) by (metis prod.collapse)
  have post: "RequeueAfter res = 30" "reconciled view crs P (crs (env w)) c0 w'"
    using Reconcile_run [OF assms(1-3) valid_numShards [OF assms(4)] assms(5) run] by (simp_all add: run_post_def)
  then show ?thesis using reconciled_status [OF post(2)] run by auto
qed

theorem reconcile_status_witness:
  "\<exists>c dp pp. ms_clusters (env (snd (Reconcile mem sampleKey (worldWith sampleCluster)))) sampleKey = Some c \<and>
    published c dp pp c"
  using reconcile_status [OF mem_contract sample_world(1) sample_cluster(2) sample_valid sample_world(2) sample_run]
  unfolding sample_cluster(1) by blast

text \<open>
  C6: Steady state. When a reconciliation has succeeded and nobody changes the resource, the pods or the
  signals, the next reconciliation leaves every child object exactly as it is, whatever it answers
  itself: the system has converged, also with autoscaling on and whatever the order of the listed
  pods. Writes that change nothing are taken to be no writes.
\<close>

theorem reconcile_converges:
  assumes "contract P view crs" "quiet P view crs" "pods_steady P"
    "crs (env w) req = Some c0" "key_of (metadata c0) = req" "DeletionTimestamp (metadata c0) = None"
    "valid_Spec (spec c0)" "deployments_ok (view (env w))"
    "fst (Reconcile P req w) = Ok (res, None)"
  shows "view (env (snd (Reconcile P req (snd (Reconcile P req w))))) = view (env (snd (Reconcile P req w)))"
proof -
  obtain w' where run: "Reconcile P req w = (Ok (res, None), w')" using assms(9) by (metis prod.collapse)
  have "reconciled view crs P (crs (env w)) c0 w'"
    using Reconcile_run [OF assms(1,4,6) valid_numShards [OF assms(7)] assms(8) run] by (simp add: run_post_def)
  then show ?thesis using Reconcile_again [OF assms(1-3) _ assms(5)] run by (metis prod.collapse snd_conv)
qed

theorem reconcile_converges_witness:
  "ms_objects (env (snd (Reconcile steadyMem sampleKey (snd (Reconcile steadyMem sampleKey (worldWith scalingCluster)))))) =
   ms_objects (env (snd (Reconcile steadyMem sampleKey (worldWith scalingCluster))))"
  by (rule reconcile_converges [OF steadyMem_contract steadyMem_quiet steadyMem_pods sample_world(1) scaling_cluster(1,2,4)
    sample_world(2) steady_run])

section \<open>The router in the deployed system\<close>

lemma deployed_router:
  assumes "deployed c ov dp pp st" "Namespace (metadata c) \<noteq> []"
  shows "\<exists>dep ct cs.
    stored asDeployment (KDeployment, Namespace (metadata c), Name (metadata c) @ ''-router'') st = Some dep \<and>
    dep_Containers dep = Some (ct # cs) \<and>
    (\<forall>pd getenv. container_env ct (Namespace (metadata c)) getenv \<longrightarrow> (\<exists>opt. routerOptions pd getenv (ct_Args ct) = Inr opt \<and>
      opt_namespace opt = Namespace (metadata c) \<and> shardMapConfigMap opt = Name (metadata c) @ ''-shardmap'' \<and>
      decodeServiceDNS opt = serviceDNS (Name (metadata c) @ ''-decode'') (Namespace (metadata c)) dp))"
proof -
  obtain dep ct cs where
    "stored asDeployment (KDeployment, Namespace (metadata c), Name (metadata c) @ ''-router'') st = Some dep"
    "dep_Containers dep = Some (ct # cs)" "router_spec c dp pp ct"
    using assms(1) by (auto simp: deployed_def object_spec_def deployment_spec_def Let_def)
  then show ?thesis using router_options [OF _ _ assms(2)] by (intro exI [of _ dep] exI [of _ ct] exI [of _ cs]) simp
qed

text \<open>
  C7: The router is wired to the system. After a successful reconciliation, a process started with the
  arguments and the environment of the deployed router container polls the shard map ConfigMap that
  the reconciliation wrote, and forwards to the decode service that the status announces.
\<close>

theorem reconcile_wires_router:
  assumes "contract P view crs" "crs (env w) req = Some c0" "DeletionTimestamp (metadata c0) = None"
    "valid_Spec (spec c0)" "deployments_ok (view (env w))" "Namespace (metadata c0) \<noteq> []"
    "fst (Reconcile P req w) = Ok (res, None)"
  shows "\<exists>dep ct cs c' cm.
    stored asDeployment (KDeployment, Namespace (metadata c0), Name (metadata c0) @ ''-router'')
      (view (env (snd (Reconcile P req w)))) = Some dep \<and> dep_Containers dep = Some (ct # cs) \<and>
    crs (env (snd (Reconcile P req w))) (key_of (metadata c0)) = Some c' \<and>
    stored asConfigMap (KConfigMap, Namespace (metadata c0), Name (metadata c0) @ ''-shardmap'')
      (view (env (snd (Reconcile P req w)))) = Some cm \<and>
    (\<forall>pd getenv. container_env ct (Namespace (metadata c0)) getenv \<longrightarrow>
      (\<exists>opt. routerOptions pd getenv (ct_Args ct) = Inr opt \<and> opt_namespace opt = Namespace (metadata c0) \<and>
        shardMapConfigMap opt = Name (metadata c0) @ ''-shardmap'' \<and>
        decodeServiceDNS opt = DecodeService (Endpoints (status c'))))"
proof -
  obtain w' where run: "Reconcile P req w = (Ok (res, None), w')" using assms(7) by (metis prod.collapse)
  have rec: "reconciled view crs P (crs (env w)) c0 w'"
    using Reconcile_run [OF assms(1-3) valid_numShards [OF assms(4)] assms(5) run] by (simp add: run_post_def)
  obtain c ov dp pp where c: "spec c = applyDefaults (spec c0)" "key_of (metadata c) = key_of (metadata c0)"
      "ServicePort (Decode (Runtime (spec c))) = Some dp" and dep: "deployed c ov dp pp (view (env w'))"
    using reconciled_deployed [OF assms(1) rec] by metis
  obtain c' dp' pp' where c': "crs (env w') (key_of (metadata c0)) = Some c'" "spec c' = applyDefaults (spec c0)"
      "ServicePort (Decode (Runtime (spec c'))) = Some dp'" "published c' dp' pp' c'" "key_of (metadata c') = key_of (metadata c0)"
    using reconciled_status [OF rec] by blast
  obtain cm where cm: "stored asConfigMap (KConfigMap, Namespace (metadata c0), Name (metadata c0) @ ''-shardmap'') (view (env w')) = Some cm"
    using reconciled_routable [OF assms(1) rec valid_numShards_pos [OF assms(4)]] by blast
  have names: "Name (metadata c) = Name (metadata c0)" "Namespace (metadata c) = Namespace (metadata c0)"
      "Name (metadata c') = Name (metadata c0)" "Namespace (metadata c') = Namespace (metadata c0)"
    using c(2) c'(5) by (simp_all add: key_of_def)
  have dns: "DecodeService (Endpoints (status c')) = serviceDNS (Name (metadata c0) @ ''-decode'') (Namespace (metadata c0)) dp"
    using c'(2-4) c(1,3) names by (simp add: published_def Let_def)
  show ?thesis
    using deployed_router [OF dep, unfolded names, OF assms(6)] c'(1) cm unfolding run snd_conv dns [symmetric]
    by (elim exE) (rule exI, rule exI, rule exI, rule exI [of _ c'], rule exI [of _ cm], elim conjE, intro conjI)
qed

theorem reconcile_wires_router_witness:
  "\<exists>dep ct cs c' cm. stored asDeployment (KDeployment, ''ns'', ''c'' @ ''-router'')
      (ms_objects (env (snd (Reconcile mem sampleKey (worldWith sampleCluster))))) = Some dep \<and>
    dep_Containers dep = Some (ct # cs) \<and>
    ms_clusters (env (snd (Reconcile mem sampleKey (worldWith sampleCluster)))) (key_of (metadata sampleCluster)) = Some c' \<and>
    stored asConfigMap (KConfigMap, ''ns'', ''c'' @ ''-shardmap'')
      (ms_objects (env (snd (Reconcile mem sampleKey (worldWith sampleCluster))))) = Some cm \<and>
    (\<forall>pd getenv. container_env ct ''ns'' getenv \<longrightarrow>
      (\<exists>opt. routerOptions pd getenv (ct_Args ct) = Inr opt \<and> opt_namespace opt = ''ns'' \<and>
        shardMapConfigMap opt = ''c'' @ ''-shardmap'' \<and> decodeServiceDNS opt = DecodeService (Endpoints (status c'))))"
proof -
  have n: "Namespace (metadata sampleCluster) = ''ns''" "Name (metadata sampleCluster) = ''c''" "''ns'' \<noteq> []"
    by (simp_all add: sampleCluster_def)
  show ?thesis
    by (rule reconcile_wires_router [OF mem_contract sample_world(1) sample_cluster(2) sample_valid sample_world(2) _ sample_run,
      unfolded n, OF n(3)])
qed

text \<open>
  C8: A chat from end to end. For a conversation name that can travel in a header, a request through the
  router to a worker answers with status 200 and the
  conversation the client named, or a new one; the document the client reads names that conversation,
  the shard the router chose for it, the worker's role and its pod; the request is counted once under
  its status and its shard.
\<close>

theorem chat_end_to_end:
  assumes "urlOK (''http://'' @ decodeServiceDNS opt @ ''/v1/chat/completions'')"
    and "ascii role" "valid_utf8 (hostname host)" "valid_utf8 (conversationFor body rnd)"
    and "header_safe (conversationFor body rnd)" "header_safe ct"
  shows "\<exists>resp s'. handleChat opt urlOK (workerNetwork render role host reqs) (Inr body) ct rnd s = (Ok resp, s') \<and>
    rs_Status resp = 200 \<and> rs_Headers resp ''X-Conversation-Id'' = Some (conversationFor body rnd) \<and>
    (\<exists>a. decodeResponse (rs_Body resp) = Some a \<and> wr_ConversationID a = conversationFor body rnd \<and>
      wr_KVShard a = Itoa (sint (chooseShard (currentShardMap s) (conversationFor body rnd))) \<and>
      wr_Role a = role \<and> wr_Pod a = hostname host) \<and>
    routeTotal s' ''200'' = routeTotal s ''200'' + 1 \<and> routeLatencyCount s' = routeLatencyCount s + 1 \<and>
    (let l = Itoa (sint (chooseShard (currentShardMap s) (conversationFor body rnd))) in
     chosenShard s' l = chosenShard s l + 1) \<and>
    currentShardMap s' = currentShardMap s"
  using chat_roundtrip [where urlOK = urlOK and opt = opt and host = host and body = body and rnd = rnd and role = role and ct = ct and render = render and reqs = reqs, OF assms, of s]
  by (elim exE conjE) (simp add: countRoute_def countShard_def observeLatency_def Let_def)

theorem chat_end_to_end_witness:
  "\<exists>resp s'. handleChat (flagDefaults ''ns'' ''d:8000'') (\<lambda>_. True) (workerNetwork (\<lambda>_. emptyOK) ''decode'' (Inr ''p'') (\<lambda>_. 0))
      (Inr ''{}'') ''application/json'' [] initialState = (Ok resp, s') \<and>
    rs_Status resp = 200 \<and> routeTotal s' ''200'' = 1"
proof -
  have "valid_utf8 (conversationFor ''{}'' [])" by code_simp
  moreover have "ascii ''decode''" "valid_utf8 (hostname (Inr ''p''))" by (code_simp, simp add: hostname_def) code_simp
  moreover have "header_safe (conversationFor ''{}'' [])" "header_safe ''application/json''" by code_simp+
  ultimately show ?thesis
    using chat_end_to_end [of "\<lambda>_. True" "flagDefaults ''ns'' ''d:8000''" "''decode''" "Inr ''p''" "''{}''" "[]"
      "''application/json''" "\<lambda>_. emptyOK" "\<lambda>_. 0" initialState]
    by (auto simp: initialState_def)
qed

section \<open>Runs that fail, and the order of calls\<close>

text \<open>
  C9: Errors are reported. Whenever a reconciliation returns an error, its last call was a status update
  that carries the error's text in a false Ready and a true Degraded condition, and a requeue after 5
  seconds is asked for; or its last call was a read, patch or update of the resource itself (or a patch
  of its status), the API server answered that very call with this error, which does not say that the
  resource is missing, and the error is returned as it is.
\<close>

theorem reconcile_error_reported:
  assumes "condition_law P" "Reconcile P req w = (Ok (res, Some e), w')"
  shows "calls w' \<noteq> [] \<and>
    (RequeueAfter res = 5 \<and> reports e (last (calls w')) \<or>
     RequeueAfter res = 0 \<and> failed_with P (last (calls w')) e (env w'))"
  using alwaysD [OF err_Reconcile [OF assms(1)] _ assms(2)] by (simp add: err_post_def)

lemma prom_run:
  "\<exists>res e w'. Reconcile mem sampleKey (worldWith promCluster) = (Ok (res, Some e), w') \<and>
    signals_only sampleKey (calls (worldWith promCluster)) w'"
proof -
  obtain r w' where run: "Reconcile mem sampleKey (worldWith promCluster) = (r, w')" by fastforce
  have "failed sampleKey (calls (worldWith promCluster)) r w'"
    using Reconcile_prometheus [OF mem_contract sample_world(1) prom_cluster(2,3) run] by (simp add: prom_cluster(1))
  moreover have "run_post ms_objects (reconciled ms_objects ms_clusters mem (ms_clusters (env (worldWith promCluster))) promCluster) r w'"
    by (rule Reconcile_run [OF mem_contract sample_world(1) prom_cluster(2) valid_numShards [OF prom_cluster(4)] sample_world(2) run])
  ultimately show ?thesis using run by (cases r) (auto simp: failed_def run_post_def)
qed

theorem reconcile_error_reported_witness:
  "\<exists>res e w'. Reconcile mem sampleKey (worldWith promCluster) = (Ok (res, Some e), w') \<and>
    (RequeueAfter res = 5 \<and> reports e (last (calls w')) \<or>
     RequeueAfter res = 0 \<and> failed_with mem (last (calls w')) e (env w'))"
  using prom_run reconcile_error_reported [OF contractD(2) [OF mem_contract]] by blast

text \<open>
  C12: Order. Whatever the API server answers, a reconciliation makes its calls in one fixed order, each at
  most once: the resource (read, defaults, finalizer), the signals, the services, the router's RBAC
  objects, the deployments, the pods, the shard map, and the status last.
\<close>

theorem reconcile_ordered:
  "\<exists>n t. calls (snd (Reconcile P req w)) = calls w @ t \<and> sorted_wrt (<) (map (rank n) t)"
proof -
  obtain r w' where run: "Reconcile P req w = (r, w')" by fastforce
  show ?thesis using alwaysD [OF rank_Reconcile [of P req "calls w"] refl run] run by (auto simp: below_def)
qed

text \<open>
  C13: Deletion. Reconciling a resource that is being deleted touches no child object and reads nothing but
  the resource; it never panics and asks for no requeue; when it succeeds the operator's finalizer is
  gone, and the resource with it when there was no other finalizer.
\<close>

theorem reconcile_deletes:
  assumes "contract P view crs" "crs (env w) req = Some c0" "DeletionTimestamp (metadata c0) \<noteq> None"
  shows "untouched view w (snd (Reconcile P req w)) \<and> (\<exists>e. fst (Reconcile P req w) = Ok (noRequeue, e)) \<and>
    (fst (Reconcile P req w) = Ok (noRequeue, None) \<longrightarrow>
      finalized (crs (env (snd (Reconcile P req w))) req) \<and>
      (Finalizers (metadata c0) = [llmInferenceClusterFinalizer] \<longrightarrow> crs (env (snd (Reconcile P req w))) req = None))"
proof -
  obtain r w' where run: "Reconcile P req w = (r, w')" by fastforce
  show ?thesis using Reconcile_deleted [OF assms run] run by simp
qed

theorem reconcile_deletes_witness:
  "fst (Reconcile mem sampleKey (worldWith deletedCluster)) = Ok (noRequeue, None) \<and>
    ms_clusters (env (snd (Reconcile mem sampleKey (worldWith deletedCluster)))) sampleKey = None"
  using reconcile_deletes [OF mem_contract sample_world(1) deleted_cluster] deleted_run
  by (simp add: deletedCluster_def llmInferenceClusterFinalizer_def)

text \<open>
  C34: Prometheus. A valid resource whose autoscaling reads its signals from Prometheus is never
  reconciled: every run ends in an error, and no child object but the signals ConfigMap is written.
\<close>

theorem reconcile_prometheus_fails:
  assumes "contract P view crs" "crs (env w) req = Some c0" "DeletionTimestamp (metadata c0) = None"
    "valid_Spec (spec c0)" "deployments_ok (view (env w))" "usesPrometheus c0"
  shows "(\<exists>res e. fst (Reconcile P req w) = Ok (res, Some e)) \<and>
    signals_only (key_of (metadata c0)) (calls w) (snd (Reconcile P req w))"
proof -
  obtain r w' where run: "Reconcile P req w = (r, w')" by fastforce
  have "failed (key_of (metadata c0)) (calls w) r w'" by (rule Reconcile_prometheus [OF assms(1-3,6) run])
  moreover have "run_post view (reconciled view crs P (crs (env w)) c0) r w'"
    by (rule Reconcile_run [OF assms(1-3) valid_numShards [OF assms(4)] assms(5) run])
  ultimately show ?thesis using run by (cases r) (auto simp: failed_def run_post_def)
qed

theorem reconcile_prometheus_fails_witness:
  "(\<exists>res e. fst (Reconcile mem sampleKey (worldWith promCluster)) = Ok (res, Some e)) \<and>
    signals_only sampleKey [] (snd (Reconcile mem sampleKey (worldWith promCluster)))"
  using reconcile_prometheus_fails [OF mem_contract sample_world(1) prom_cluster(2,4) sample_world(2) prom_cluster(3)]
  by (simp add: prom_cluster(1)) (simp add: worldWith_def)

text \<open>
  A missing resource. When the API server says that the resource does not exist, the reconciliation
  succeeds after that one call and asks for no requeue.
\<close>

lemma reconcile_missing:
  assumes "fst (ClientGet P req (env w)) = Inl e" "IsNotFound e"
  shows "fst (Reconcile P req w) = Ok (\<lparr>RequeueAfter = 0\<rparr>, None) \<and> calls (snd (Reconcile P req w)) = calls w @ [CallGet req]"
  using Reconcile_missing [of P req w e "snd (ClientGet P req (env w))"] assms
  by (simp add: noRequeue_def prod_eq_iff)

section \<open>Autoscaling and the child objects\<close>

lemma computeDecodeReplicas_fake:
  assumes "Source (as_Signals (Autoscaling (spec c))) \<noteq> SignalsSourcePrometheus"
    "fst (GetConfigMap P (Namespace (metadata c), n) (env w)) = Inr cm"
  obtains s where "QueueDepth s = parseFloat (data_get (cm_Data cm) ''queueDepth'')"
    "fst (computeDecodeReplicas P c n w) =
       Ok (desiredReplicas (replicaBounds c) s, desiredReplicas (replicaBounds c) s \<noteq> fst (replicaBounds c))"
proof -
  obtain x where "GetConfigMap P (Namespace (metadata c), n) (env w) = (Inr cm, x)"
    using assms(2) by (metis prod.collapse)
  then show ?thesis
    using that [of "signalsOf cm"]
    by (simp add: signalsOf_def computeDecodeReplicas_def selectAdapter_fake [OF assms(1)] computeDesired_def
      FakeConfigMapAdapter_Read_def invoke_def comp_defs)
qed

text \<open>
  C20: One step of autoscaling. When the signals ConfigMap holds the queue depth as a decimal number, the
  decode replicas go up by one above 100, down by one below 10 and stay the same between, inside the
  bounds of the spec; the number is read from the text and compared as the code's floating-point
  numbers are.
\<close>

theorem autoscale_step:
  assumes "Source (as_Signals (Autoscaling (spec c))) \<noteq> SignalsSourcePrometheus"
    "fst (GetConfigMap P (Namespace (metadata c), n) (env w)) = Inr cm"
    "data_get (cm_Data cm) ''queueDepth'' = nat_text q" "q < 2 ^ 53"
    "replicaBounds c = (current, mn, mx)" "sint mn \<le> sint mx" "sint current < 2147483647"
  shows "\<exists>desired. fst (computeDecodeReplicas P c n w) = Ok (desired, desired \<noteq> current) \<and>
    sint desired = (if 100 < q then min (sint current + 1) (sint mx)
      else if q < 10 then max (sint current - 1) (sint mn) else sint current)"
proof -
  note B = replicaBounds_props [OF assms(5)]
  obtain s where s: "QueueDepth s = parseFloat (nat_text q)"
      "fst (computeDecodeReplicas P c n w) = Ok (desiredReplicas (current, mn, mx) s, desiredReplicas (current, mn, mx) s \<noteq> current)"
    using computeDecodeReplicas_fake [OF assms(1,2)] assms(3,5) by (metis fst_conv)
  show ?thesis
    using desiredReplicas_exact [OF B(3) [OF assms(6)] B(2) assms(7), of s]
    by (simp add: s parseFloat_nat_text [OF assms(4)])
qed

theorem autoscale_step_witness:
  "\<exists>desired. fst (computeDecodeReplicas mem scalingCluster ''c-signals'' (signalWorld ''250'')) = Ok (desired, desired \<noteq> 2) \<and>
    sint desired = 3"
proof -
  have q: "''250'' = nat_text 250" by code_simp
  have b: "replicaBounds scalingCluster = (2, 0, 10)"
    by (simp add: replicaBounds_def scalingCluster_def sample_defs int32_simps)
  show ?thesis
    using autoscale_step [OF signal_world(1,3), OF trans [OF signal_world(5) q] _ b] by simp
qed

text \<open>
  C38: Overflow. When the spec asks for the largest 32-bit number of decode replicas, a full queue makes
  the count wrap around: the decision is the minimum, not the maximum.
\<close>

theorem autoscale_overflow:
  assumes "Source (as_Signals (Autoscaling (spec c))) \<noteq> SignalsSourcePrometheus"
    "fst (GetConfigMap P (Namespace (metadata c), n) (env w)) = Inr cm"
    "data_get (cm_Data cm) ''queueDepth'' = nat_text q" "q < 2 ^ 53" "100 < q"
    "replicaBounds c = (current, mn, mx)" "sint mn \<le> sint mx" "sint current = 2147483647"
  shows "fst (computeDecodeReplicas P c n w) = Ok (mn, mn \<noteq> current)"
proof -
  obtain s where s: "QueueDepth s = parseFloat (nat_text q)"
      "fst (computeDecodeReplicas P c n w) = Ok (desiredReplicas (current, mn, mx) s, desiredReplicas (current, mn, mx) s \<noteq> current)"
    using computeDecodeReplicas_fake [OF assms(1,2)] assms(3,6) by (metis fst_conv)
  have "flt_less (flt_of_nat 100) (QueueDepth s)" using assms(5) by (simp add: s(1) parseFloat_nat_text [OF assms(4)])
  then show ?thesis
    using desiredReplicas_overflow [OF assms(8,7) replicaBounds_props(2) [OF assms(6)]] by (simp add: s(2))
qed

theorem autoscale_overflow_witness:
  "fst (computeDecodeReplicas mem hugeCluster ''c-signals'' (signalWorld ''250'')) = Ok (1, True)"
proof -
  have q: "''250'' = nat_text 250" by code_simp
  have b: "replicaBounds hugeCluster = (2147483647, 1, 2147483647)"
    by (simp add: replicaBounds_def hugeCluster_def scalingCluster_def sample_defs int32_simps)
  show ?thesis
    using autoscale_overflow [OF signal_world(2,4), OF trans [OF signal_world(5) q] _ _ b] by simp
qed

text \<open>
  C27: The closures settle. Each of the nine closures that the controller hands to \<open>CreateOrUpdate\<close> changes
  nothing on the object it left. For the deployments, whose port protocols the server fills in, the
  closure followed by the server's defaulting changes nothing on the stored object either.
\<close>

theorem closures_idempotent:
  assumes "owner_law P"
  shows "(\<forall>x y. mutateRoleService P c role port base x = Ok y \<longrightarrow> mutateRoleService P c role port base y = Ok y) \<and>
    (\<forall>x y. mutateRouterService P c base x = Ok y \<longrightarrow> mutateRouterService P c base y = Ok y) \<and>
    (\<forall>x y. mutateRoleDeployment P c role n base ov x = Ok y \<longrightarrow> mutateRoleDeployment P c role n base ov y = Ok y) \<and>
    (\<forall>x y. mutateRouterDeployment P c n sa base x = Ok y \<longrightarrow> mutateRouterDeployment P c n sa base y = Ok y) \<and>
    (\<forall>x y. storedRoleDeployment P c role n base ov x = Ok y \<longrightarrow> storedRoleDeployment P c role n base ov y = Ok y) \<and>
    (\<forall>x y. storedRouterDeployment P c n sa base x = Ok y \<longrightarrow> storedRouterDeployment P c n sa base y = Ok y) \<and>
    (\<forall>x y. mutateServiceAccount P c base x = Ok y \<longrightarrow> mutateServiceAccount P c base y = Ok y) \<and>
    (\<forall>x y. mutateRole P c base x = Ok y \<longrightarrow> mutateRole P c base y = Ok y) \<and>
    (\<forall>x y. mutateRoleBinding P c base ro acc x = Ok y \<longrightarrow> mutateRoleBinding P c base ro acc y = Ok y) \<and>
    (\<forall>x y. mutateShardMapConfigMap P c base doc x = Ok y \<longrightarrow> mutateShardMapConfigMap P c base doc y = Ok y) \<and>
    (\<forall>x y. mutateSignalsConfigMap P c base x = Ok y \<longrightarrow> mutateSignalsConfigMap P c base y = Ok y)"
  by (intro conjI allI impI roleService.mutate_twice routerService.mutate_twice bareRoleDeployment.mutate_twice
    bareRouterDeployment.mutate_twice roleDeployment.mutate_twice routerDeployment.mutate_twice serviceAccount.mutate_twice role.mutate_twice roleBinding.mutate_twice
    shardMapConfigMap.mutate_twice signalsConfigMap.mutate_twice assms)

theorem closures_idempotent_witness:
  "\<exists>y. mutateSignalsConfigMap mem sampleCluster Map.empty (emptyConfigMap ''ns'' ''c-signals'') = Ok y \<and>
    mutateSignalsConfigMap mem sampleCluster Map.empty y = Ok y"
proof -
  have "\<exists>y. mutateSignalsConfigMap mem sampleCluster Map.empty (emptyConfigMap ''ns'' ''c-signals'') = Ok y"
    by (simp add: mutateSignalsConfigMap_def withOwner_def writeSignalsConfigMap_def setOwner_def emptyConfigMap_def
      mem_def memSetOwner_def sampleCluster_def new_meta_def Let_def)
  then show ?thesis using closures_idempotent [OF contractD(1) [OF mem_contract]] by blast
qed

text \<open>
  C35: The signals ConfigMap. The closure adds the three numbers as zero where they are missing and never
  overwrites a value that somebody wrote there, whatever it is.
\<close>

theorem signals_defaults:
  "\<exists>cm'. writeSignalsConfigMap base cm = Ok cm' \<and> Labels (cm_meta cm') = roleLabels base ''signals'' \<and>
    (\<forall>k. dataMap cm' k = (case dataMap cm k of
       Some v \<Rightarrow> Some v
     | None \<Rightarrow> if k \<in> {''queueDepth'', ''tokensPerSecond'', ''memPressure''} then Some ''0'' else None))"
proof -
  have "setDefault ''memPressure'' ''0'' (setDefault ''tokensPerSecond'' ''0'' (setDefault ''queueDepth'' ''0'' m)) k =
     (case m k of Some v \<Rightarrow> Some v | None \<Rightarrow>
        if k \<in> {''queueDepth'', ''tokensPerSecond'', ''memPressure''} then Some ''0'' else None)" for m k
    by (simp add: setDefault_lookup split: option.split)
  then show ?thesis by (simp add: writeSignalsConfigMap_def dataMap_def)
qed



text \<open>
  C28: The workers' environment. The variables of a worker container are those of the model, a permutation
  sorted by name whatever their order in the spec, then the operator's three: the role, the service and
  the number of shards. So the last variable with one of these three names is the operator's, also when
  the model uses the name; and with distinct names the same variables in another order give the same
  container.
\<close>

theorem worker_env:
  assumes "sort_law P"
  shows "\<exists>us. ct_Env (workerContainer P c role svc ct) = us @ map (\<lambda>(n, v). plainEnv n v)
      [(''INFERENCE_ROLE'', role), (''SERVICE_NAME'', svc),
       (''KV_SHARDS'', Itoa (sint (derefInt32 (NumShards (KVCache (spec c))) 8)))] \<and>
    mset us = mset (map (\<lambda>e. plainEnv (ev_Name e) (ev_Value e)) (model_Env (Model (spec c)))) \<and> sorted (map env_Name us) \<and>
    (\<forall>d. model_Image (Model (spec d)) = model_Image (Model (spec c)) \<and> model_Args (Model (spec d)) = model_Args (Model (spec c)) \<and>
      Runtime (spec d) = Runtime (spec c) \<and> KVCache (spec d) = KVCache (spec c) \<and> mset (model_Env (Model (spec d))) = mset (model_Env (Model (spec c))) \<and>
      distinct (map ev_Name (model_Env (Model (spec c)))) \<longrightarrow>
      workerContainer P d role svc ct = workerContainer P c role svc ct)"
proof -
  let ?us = "buildEnvVars P (model_Env (Model (spec c)))"
  have "workerContainer P d role svc ct = workerContainer P c role svc ct"
    if "model_Image (Model (spec d)) = model_Image (Model (spec c))" "model_Args (Model (spec d)) = model_Args (Model (spec c))"
      "Runtime (spec d) = Runtime (spec c)" "KVCache (spec d) = KVCache (spec c)"
      "mset (model_Env (Model (spec d))) = mset (model_Env (Model (spec c)))" "distinct (map ev_Name (model_Env (Model (spec c))))" for d
    unfolding workerContainer_def servicePortForRole_def that(1-4) buildEnvVars_perm [OF assms that(5,6)] ..
  moreover have "ct_Env (workerContainer P c role svc ct) = ?us @ map (\<lambda>(n, v). plainEnv n v)
      [(''INFERENCE_ROLE'', role), (''SERVICE_NAME'', svc),
       (''KV_SHARDS'', Itoa (sint (derefInt32 (NumShards (KVCache (spec c))) 8)))]"
    by (simp add: workerContainer_def)
  ultimately show ?thesis
    using buildEnvVars_props(1,2) [OF assms, of "model_Env (Model (spec c))"] by (intro exI [of _ ?us] conjI allI impI) blast+
qed

theorem worker_env_witness:
  "workerContainer mem (sampleCluster\<lparr>spec := sampleSpec\<lparr>Model := (Model sampleSpec)\<lparr>model_Env :=
      [\<lparr>ev_Name = ''A'', ev_Value = ''1''\<rparr>, \<lparr>ev_Name = ''B'', ev_Value = ''2''\<rparr>]\<rparr>\<rparr>\<rparr>) ''decode'' ''s'' (emptyContainer ''worker'') =
    workerContainer mem sampleCluster ''decode'' ''s'' (emptyContainer ''worker'')"
    (is "workerContainer mem ?d _ _ _ = _")
proof -
  have "model_Image (Model (spec ?d)) = model_Image (Model (spec sampleCluster)) \<and>
      model_Args (Model (spec ?d)) = model_Args (Model (spec sampleCluster)) \<and>
      Runtime (spec ?d) = Runtime (spec sampleCluster) \<and> KVCache (spec ?d) = KVCache (spec sampleCluster) \<and>
      mset (model_Env (Model (spec ?d))) = mset (model_Env (Model (spec sampleCluster))) \<and>
      distinct (map ev_Name (model_Env (Model (spec sampleCluster))))"
    by (simp add: sample_defs)
  then show ?thesis using worker_env [OF mem_sort_law, of sampleCluster] by blast
qed

end
